theory Spec2Isabelle
  imports Main "HOL-Library.AList"
begin

section \<open>The incremental emit scheduler of \<^verbatim>\<open>src/server/builder.ts\<close>\<close>

text \<open>
  A shallow embedding of the two builders of \<^verbatim>\<open>builder.ts\<close>. The \<^verbatim>\<open>Project\<close> and the
  core utilities are external collaborators: they are a record of functions, constant
  during one call of the builder. Objects that the source shares by reference
  (\<^verbatim>\<open>ModuleBuilderFileInfo\<close>) live in an explicit store; a thrown \<^verbatim>\<open>TypeError\<close> is the
  value \<open>Inl TypeError\<close>; the one loop that is not bounded by a list is a partial function
  whose value \<open>None\<close> means that it does not return.
\<close>

subsection \<open>Data of the collaborators\<close>

text \<open>
  \<^verbatim>\<open>ScriptInfo\<close>: the fields the builder reads. They are fixed for the lifetime of the
  object; the content version, which changes with every edit, is asked of the project
  (\<open>getLatestVersion\<close> below).
\<close>

record scriptInfo =
  path :: string
  fileName :: string
  hasMixedContent :: bool
  isDynamic :: bool

datatype syntaxKind = ModuleDeclaration | StringLiteral | Identifier | OtherSyntaxKind

text \<open>
  A top-level statement: its \<^verbatim>\<open>kind\<close> and the kind of its \<^verbatim>\<open>name\<close>, which the source
  reads only when the statement is a module declaration.
\<close>

record statement =
  kind :: syntaxKind
  nameKind :: syntaxKind

text \<open>
  \<^verbatim>\<open>SourceFile\<close>. \<open>externalModuleIndicator\<close> is \<open>True\<close> when the field of that name is
  defined, which is what \<^verbatim>\<open>isExternalModule\<close> tests.
\<close>

record sourceFile =
  statements :: "statement list"
  isDeclarationFile :: bool
  sourceText :: string
  externalModuleIndicator :: bool

record outputFile =
  outputName :: string
  outputText :: string
  writeByteOrderMark :: bool

record emitOutput =
  emitSkipped :: bool
  outputFiles :: "outputFile list option"

record compilerOptions =
  isolatedModules :: "bool option"
  out :: "string option"
  outFile :: "string option"

text \<open>
  The project, and the two path utilities that \<^verbatim>\<open>emitFile\<close> calls. \<open>getSourceFile\<close>,
  \<open>getCompilerOptions\<close>, \<open>outputFiles\<close> and \<open>getProjectRootPath\<close> may be absent: the source
  tests them. \<open>getScriptInfo\<close> is total, as its declared type says; the source uses its
  result without a test.
\<close>

record project =
  getSourceFile :: "string \<Rightarrow> sourceFile option"
  getFileEmitOutput :: "scriptInfo \<Rightarrow> bool \<Rightarrow> emitOutput"
  createHash :: "string \<Rightarrow> string"
  getCompilerOptions :: "compilerOptions option"
  getAllEmittableFiles :: "string list"
  getScriptInfos :: "scriptInfo list"
  containsScriptInfo :: "scriptInfo \<Rightarrow> bool"
  getScriptInfo :: "string \<Rightarrow> scriptInfo"
  getProjectVersion :: string
  getReferencedFiles :: "string \<Rightarrow> string list"
  getProjectRootPath :: "string option"
  getLatestVersion :: "scriptInfo \<Rightarrow> string"
  getNormalizedAbsolutePath :: "string \<Rightarrow> string \<Rightarrow> string"
  getDirectoryPath :: "string \<Rightarrow> string"

datatype error = TypeError

text \<open>JavaScript truthiness of a value that is a string or \<^verbatim>\<open>undefined\<close>, and of an
  optional boolean: the empty string is falsy.\<close>

definition truthy :: "string option \<Rightarrow> bool" where
  "truthy v = (case v of None \<Rightarrow> False | Some s \<Rightarrow> s \<noteq> [])"

definition truthyFlag :: "bool option \<Rightarrow> bool" where
  "truthyFlag v = (case v of None \<Rightarrow> False | Some b \<Rightarrow> b)"

definition shouldEmitFile :: "scriptInfo \<Rightarrow> bool" where
  "shouldEmitFile si = (\<not> hasMixedContent si \<and> \<not> isDynamic si)"

subsection \<open>BuilderFileInfo\<close>

record builderFileInfo =
  scriptInfo :: scriptInfo
  lastCheckedShapeSignature :: "string option"

fun containsOnlyAmbientModules :: "statement list \<Rightarrow> bool" where
  "containsOnlyAmbientModules [] = True"
| "containsOnlyAmbientModules (st # rest) =
     (if kind st \<noteq> ModuleDeclaration \<or> nameKind st \<noteq> StringLiteral then False
      else containsOnlyAmbientModules rest)"

text \<open>
  Modelled from the spec: \<^verbatim>\<open>isExternalModule\<close> (compiler utilities, not in this
  source file) is ``true if the file is a module by the language's own module rules'',
  the test of \<open>externalModuleIndicator\<close>.

  \<^verbatim>\<open>isExternalModuleOrHasOnlyAmbientExternalModules\<close> reads \<^verbatim>\<open>this.getSourceFile()\<close>
  without the test for absence that \<^verbatim>\<open>updateShapeSignature\<close> makes: on an absent source
  file the property access throws.
\<close>

definition isExternalModule :: "sourceFile \<Rightarrow> bool" where
  "isExternalModule sf = externalModuleIndicator sf"

definition isExternalModuleOrHasOnlyAmbientExternalModules ::
  "project \<Rightarrow> 'a builderFileInfo_scheme \<Rightarrow> error + bool" where
  "isExternalModuleOrHasOnlyAmbientExternalModules P info =
     (case getSourceFile P (path (scriptInfo info)) of
        None \<Rightarrow> Inl TypeError
      | Some sf \<Rightarrow> Inr (isExternalModule sf \<or> containsOnlyAmbientModules (statements sf)))"

definition computeHash :: "project \<Rightarrow> string \<Rightarrow> string" where
  "computeHash P t = createHash P t"

text \<open>\<^verbatim>\<open>updateShapeSignature\<close>: the answer and the file info with its new signature.\<close>

definition updateShapeSignature ::
  "project \<Rightarrow> 'a builderFileInfo_scheme \<Rightarrow> bool \<times> 'a builderFileInfo_scheme" where
  "updateShapeSignature P info =
     (case getSourceFile P (path (scriptInfo info)) of
        None \<Rightarrow> (True, info)
      | Some sf \<Rightarrow>
          (let lastSignature = lastCheckedShapeSignature info;
               info' =
                 (if isDeclarationFile sf
                  then info\<lparr>lastCheckedShapeSignature := Some (computeHash P (sourceText sf))\<rparr>
                  else (case outputFiles (getFileEmitOutput P (scriptInfo info) True) of
                          Some (f # fs) \<Rightarrow>
                            info\<lparr>lastCheckedShapeSignature := Some (computeHash P (outputText f))\<rparr>
                        | _ \<Rightarrow> info))
           in (\<not> truthy lastSignature \<or> lastCheckedShapeSignature info' \<noteq> lastSignature, info')))"

definition singleFileResult :: "scriptInfo \<Rightarrow> string list" where
  "singleFileResult si = (if hasMixedContent si \<or> isDynamic si then [] else [fileName si])"

subsection \<open>AbstractBuilder: the emit shared by both builders\<close>

text \<open>
  What \<^verbatim>\<open>emitFile\<close> does to the outside: a request for emit output to the backend
  (script info, \<^verbatim>\<open>emitOnlyDtsFiles\<close>) and the calls of \<^verbatim>\<open>writeFile\<close>, in order.
\<close>

datatype effect =
  EmitRequested scriptInfo bool
| FileWritten string string bool

text \<open>
  The body of \<^verbatim>\<open>emitFile\<close> after \<^verbatim>\<open>ensureFileInfoIfInProject\<close> and \<^verbatim>\<open>getFileInfo\<close>: the
  first argument is the script info of the file info found, if one was found. Iterating
  absent \<^verbatim>\<open>outputFiles\<close> throws.
\<close>

definition emitFileWith ::
  "project \<Rightarrow> scriptInfo option \<Rightarrow> scriptInfo \<Rightarrow> error + (bool \<times> effect list)" where
  "emitFileWith P fileInfo si =
     (case fileInfo of
        None \<Rightarrow> Inr (False, [])
      | Some fsi \<Rightarrow>
          (let eo = getFileEmitOutput P fsi False in
           if \<not> emitSkipped eo then
             (case outputFiles eo of
                None \<Rightarrow> Inl TypeError
              | Some ofs \<Rightarrow>
                  (let projectRootPath = getProjectRootPath P;
                       base = (if truthy projectRootPath then the projectRootPath
                               else getDirectoryPath P (fileName si))
                   in Inr (True, EmitRequested fsi False #
                        map (\<lambda>outputFile.
                               FileWritten (getNormalizedAbsolutePath P (outputName outputFile) base)
                                 (outputText outputFile) (writeByteOrderMark outputFile)) ofs)))
           else Inr (False, [EmitRequested fsi False])))"

subsection \<open>NonModuleBuilder\<close>

text \<open>
  The file infos of the flat builder are reachable from its map only, so the map holds
  them by value. \<open>None\<close> is the map that has not been created yet
  (\<^verbatim>\<open>fileInfos_doNotAccessDirectly\<close> undefined); a JavaScript \<^verbatim>\<open>Map\<close> keeps insertion
  order, as \<open>AList.update\<close> and \<open>AList.delete\<close> do.
\<close>

record nonModuleBuilder =
  nm_fileInfos :: "(string \<times> builderFileInfo) list option"

definition newNonModuleBuilder :: nonModuleBuilder where
  "newNonModuleBuilder = \<lparr>nm_fileInfos = None\<rparr>"

definition nm_getFileInfos ::
  "nonModuleBuilder \<Rightarrow> (string \<times> builderFileInfo) list \<times> nonModuleBuilder" where
  "nm_getFileInfos b =
     (case nm_fileInfos b of
        None \<Rightarrow> ([], b\<lparr>nm_fileInfos := Some []\<rparr>)
      | Some m \<Rightarrow> (m, b))"

definition nm_hasFileInfos :: "nonModuleBuilder \<Rightarrow> bool" where
  "nm_hasFileInfos b = (nm_fileInfos b \<noteq> None)"

definition nm_clear :: "nonModuleBuilder \<Rightarrow> nonModuleBuilder" where
  "nm_clear b = b\<lparr>nm_fileInfos := None\<rparr>"

definition nm_getFileInfo ::
  "nonModuleBuilder \<Rightarrow> string \<Rightarrow> builderFileInfo option \<times> nonModuleBuilder" where
  "nm_getFileInfo b p = (let (m, b') = nm_getFileInfos b in (map_of m p, b'))"

definition nm_setFileInfo :: "nonModuleBuilder \<Rightarrow> string \<Rightarrow> builderFileInfo \<Rightarrow> nonModuleBuilder" where
  "nm_setFileInfo b p info =
     (let (m, b') = nm_getFileInfos b in b'\<lparr>nm_fileInfos := Some (AList.update p info m)\<rparr>)"

definition nm_removeFileInfo :: "nonModuleBuilder \<Rightarrow> string \<Rightarrow> nonModuleBuilder" where
  "nm_removeFileInfo b p =
     (let (m, b') = nm_getFileInfos b in b'\<lparr>nm_fileInfos := Some (AList.delete p m)\<rparr>)"

definition nm_getOrCreateFileInfo ::
  "project \<Rightarrow> nonModuleBuilder \<Rightarrow> string \<Rightarrow> builderFileInfo \<times> nonModuleBuilder" where
  "nm_getOrCreateFileInfo P b p =
     (case nm_getFileInfo b p of
        (Some info, b') \<Rightarrow> (info, b')
      | (None, b') \<Rightarrow>
          (let info = \<lparr>scriptInfo = getScriptInfo P p, lastCheckedShapeSignature = None\<rparr>
           in (info, nm_setFileInfo b' p info)))"

definition nm_ensureFileInfoIfInProject ::
  "project \<Rightarrow> nonModuleBuilder \<Rightarrow> scriptInfo \<Rightarrow> nonModuleBuilder" where
  "nm_ensureFileInfoIfInProject P b si =
     (if containsScriptInfo P si then snd (nm_getOrCreateFileInfo P b (path si)) else b)"

text \<open>
  \<^verbatim>\<open>Map.forEach\<close> over the live map with a callback that deletes: an entry is visited if
  it is still in the map when its turn comes.
\<close>

fun nm_forEachRemoveDeleted ::
  "project \<Rightarrow> (string \<times> builderFileInfo) list \<Rightarrow> nonModuleBuilder \<Rightarrow> nonModuleBuilder" where
  "nm_forEachRemoveDeleted P [] b = b"
| "nm_forEachRemoveDeleted P ((k, info) # rest) b =
     (if map_of (fst (nm_getFileInfos b)) k = Some info \<and> \<not> containsScriptInfo P (scriptInfo info)
      then nm_forEachRemoveDeleted P rest (nm_removeFileInfo b (path (scriptInfo info)))
      else nm_forEachRemoveDeleted P rest b)"

definition nm_onProjectUpdateGraph :: "project \<Rightarrow> nonModuleBuilder \<Rightarrow> nonModuleBuilder" where
  "nm_onProjectUpdateGraph P b =
     (if nm_hasFileInfos b then nm_forEachRemoveDeleted P (fst (nm_getFileInfos b)) b else b)"

text \<open>\<^verbatim>\<open>NonModuleBuilder.getFilesAffectedBy\<close>: the file names and the builder afterwards.\<close>

definition nm_getFilesAffectedBy ::
  "project \<Rightarrow> nonModuleBuilder \<Rightarrow> scriptInfo \<Rightarrow> string list \<times> nonModuleBuilder" where
  "nm_getFilesAffectedBy P b si =
     (let (info, b1) = nm_getOrCreateFileInfo P b (path si);
          (changed, info') = updateShapeSignature P info;
          b2 = nm_setFileInfo b1 (path si) info'
      in if changed then
           (case getCompilerOptions P of
              Some options \<Rightarrow>
                if truthy (out options) \<or> truthy (outFile options)
                then (singleFileResult si, b2)
                else (getAllEmittableFiles P, b2)
            | None \<Rightarrow> (getAllEmittableFiles P, b2))
         else (singleFileResult si, b2))"

definition nm_emitFile ::
  "project \<Rightarrow> nonModuleBuilder \<Rightarrow> scriptInfo \<Rightarrow> error + (bool \<times> effect list \<times> nonModuleBuilder)" where
  "nm_emitFile P b si =
     (let b1 = nm_ensureFileInfoIfInProject P b si;
          (fileInfo, b2) = nm_getFileInfo b1 (path si)
      in case emitFileWith P (map_option scriptInfo fileInfo) si of
           Inl e \<Rightarrow> Inl e
         | Inr (r, effs) \<Rightarrow> Inr (r, effs, b2))"

subsection \<open>Sorted arrays\<close>

datatype comparison = LessThan | EqualTo | GreaterThan

text \<open>
  Modelled from the spec: the sorted-array utilities of the compiler core, which are not
  in this source file (\<^verbatim>\<open>compareStrings\<close>, \<^verbatim>\<open>insertSorted\<close>, \<^verbatim>\<open>removeSorted\<close>,
  \<^verbatim>\<open>toSortedArray\<close>, \<^verbatim>\<open>enumerateInsertsAndDeletes\<close>). The spec: ``sorted-array
  insert/remove maintaining order'', with no duplicates, found by the comparator; the
  diff ``walks both sorted sequences in lock-step by comparator; an element present only
  in \<^verbatim>\<open>newReferences\<close> is an insertion, an element present only in the old \<^verbatim>\<open>references\<close>
  is a deletion, elements present in both are untouched''. JavaScript compares strings
  by code units; \<open>stringLessThan\<close> compares the character codes.
\<close>

fun stringLessThan :: "string \<Rightarrow> string \<Rightarrow> bool" where
  "stringLessThan [] [] = False"
| "stringLessThan [] (y # ys) = True"
| "stringLessThan (x # xs) [] = False"
| "stringLessThan (x # xs) (y # ys) =
     (if (of_char x :: nat) < of_char y then True
      else if (of_char y :: nat) < of_char x then False
      else stringLessThan xs ys)"

definition compareStrings :: "string \<Rightarrow> string \<Rightarrow> comparison" where
  "compareStrings a b =
     (if a = b then EqualTo else if stringLessThan a b then LessThan else GreaterThan)"

fun insertSorted :: "('a \<Rightarrow> 'a \<Rightarrow> comparison) \<Rightarrow> 'a list \<Rightarrow> 'a \<Rightarrow> 'a list" where
  "insertSorted compare [] x = [x]"
| "insertSorted compare (y # ys) x =
     (case compare x y of
        LessThan \<Rightarrow> x # y # ys
      | EqualTo \<Rightarrow> y # ys
      | GreaterThan \<Rightarrow> y # insertSorted compare ys x)"

fun removeSorted :: "('a \<Rightarrow> 'a \<Rightarrow> comparison) \<Rightarrow> 'a list \<Rightarrow> 'a \<Rightarrow> 'a list" where
  "removeSorted compare [] x = []"
| "removeSorted compare (y # ys) x =
     (case compare x y of
        LessThan \<Rightarrow> y # ys
      | EqualTo \<Rightarrow> ys
      | GreaterThan \<Rightarrow> y # removeSorted compare ys x)"

fun insertByComparer :: "('a \<Rightarrow> 'a \<Rightarrow> comparison) \<Rightarrow> 'a \<Rightarrow> 'a list \<Rightarrow> 'a list" where
  "insertByComparer compare x [] = [x]"
| "insertByComparer compare x (y # ys) =
     (if compare x y = GreaterThan then y # insertByComparer compare x ys else x # y # ys)"

definition toSortedArray :: "('a \<Rightarrow> 'a \<Rightarrow> comparison) \<Rightarrow> 'a list \<Rightarrow> 'a list" where
  "toSortedArray compare arr = foldr (insertByComparer compare) arr []"

fun enumerateInsertsAndDeletes ::
  "('a \<Rightarrow> 'a \<Rightarrow> comparison) \<Rightarrow> ('a \<Rightarrow> 's \<Rightarrow> 's) \<Rightarrow> ('a \<Rightarrow> 's \<Rightarrow> 's) \<Rightarrow>
     'a list \<Rightarrow> 'a list \<Rightarrow> 's \<Rightarrow> 's" where
  "enumerateInsertsAndDeletes compare inserted deleted [] [] s = s"
| "enumerateInsertsAndDeletes compare inserted deleted (newItem # newItems) [] s =
     enumerateInsertsAndDeletes compare inserted deleted newItems [] (inserted newItem s)"
| "enumerateInsertsAndDeletes compare inserted deleted [] (oldItem # oldItems) s =
     enumerateInsertsAndDeletes compare inserted deleted [] oldItems (deleted oldItem s)"
| "enumerateInsertsAndDeletes compare inserted deleted (newItem # newItems) (oldItem # oldItems) s =
     (case compare newItem oldItem of
        LessThan \<Rightarrow>
          enumerateInsertsAndDeletes compare inserted deleted newItems (oldItem # oldItems)
            (inserted newItem s)
      | GreaterThan \<Rightarrow>
          enumerateInsertsAndDeletes compare inserted deleted (newItem # newItems) oldItems
            (deleted oldItem s)
      | EqualTo \<Rightarrow> enumerateInsertsAndDeletes compare inserted deleted newItems oldItems s)"

subsection \<open>ModuleBuilderFileInfo and the store\<close>

text \<open>
  A \<^verbatim>\<open>ModuleBuilderFileInfo\<close> is reached from the builder's map and from the
  \<^verbatim>\<open>references\<close> and \<^verbatim>\<open>referencedBy\<close> arrays of other file infos, and it is mutated
  through all of them: the store is the list of the objects allocated so far, the
  identity of an object is its position in it, and the arrays hold identities. The
  source cannot hold the identity of an object that was never allocated; where a
  property depends on that, it is a hypothesis (\<open>allocated\<close> below).
\<close>

record moduleBuilderFileInfo = builderFileInfo +
  references :: "nat list"
  referencedBy :: "nat list"
  scriptVersionForReferences :: "string option"

type_synonym store = "moduleBuilderFileInfo list"

definition compareFileInfos :: "store \<Rightarrow> nat \<Rightarrow> nat \<Rightarrow> comparison" where
  "compareFileInfos h lf rf =
     compareStrings (fileName (scriptInfo (h ! lf))) (fileName (scriptInfo (h ! rf)))"

text \<open>\<open>addReferencedBy h this fileInfo\<close> is \<^verbatim>\<open>this.addReferencedBy(fileInfo)\<close>.\<close>

definition addReferencedBy :: "store \<Rightarrow> nat \<Rightarrow> nat \<Rightarrow> store" where
  "addReferencedBy h this fileInfo =
     h[this := (h ! this)\<lparr>referencedBy :=
         insertSorted (compareFileInfos h) (referencedBy (h ! this)) fileInfo\<rparr>]"

definition removeReferencedBy :: "store \<Rightarrow> nat \<Rightarrow> nat \<Rightarrow> store" where
  "removeReferencedBy h this fileInfo =
     h[this := (h ! this)\<lparr>referencedBy :=
         removeSorted (compareFileInfos h) (referencedBy (h ! this)) fileInfo\<rparr>]"

definition removeFileReferences :: "store \<Rightarrow> nat \<Rightarrow> store" where
  "removeFileReferences h this =
     (let h1 = fold (\<lambda>reference h'. removeReferencedBy h' reference this) (references (h ! this)) h
      in h1[this := (h1 ! this)\<lparr>references := []\<rparr>])"

subsection \<open>ModuleBuilder\<close>

record moduleBuilder =
  fileInfos :: "(string \<times> nat) list option"
  store :: store
  projectVersionForDependencyGraph :: "string option"

text \<open>A file info and a builder as their constructors leave them; nothing is allocated
  yet.\<close>

definition newFileInfo :: "scriptInfo \<Rightarrow> moduleBuilderFileInfo" where
  "newFileInfo si =
     \<lparr>scriptInfo = si, lastCheckedShapeSignature = None,
      references = [], referencedBy = [], scriptVersionForReferences = None\<rparr>"

definition newModuleBuilder :: moduleBuilder where
  "newModuleBuilder =
     \<lparr>fileInfos = None, store = [], projectVersionForDependencyGraph = None\<rparr>"

definition getFileInfos :: "moduleBuilder \<Rightarrow> (string \<times> nat) list \<times> moduleBuilder" where
  "getFileInfos b =
     (case fileInfos b of
        None \<Rightarrow> ([], b\<lparr>fileInfos := Some []\<rparr>)
      | Some m \<Rightarrow> (m, b))"

definition hasFileInfos :: "moduleBuilder \<Rightarrow> bool" where
  "hasFileInfos b = (fileInfos b \<noteq> None)"

definition clear :: "moduleBuilder \<Rightarrow> moduleBuilder" where
  "clear b = b\<lparr>projectVersionForDependencyGraph := None, fileInfos := None\<rparr>"

definition getFileInfo :: "moduleBuilder \<Rightarrow> string \<Rightarrow> nat option \<times> moduleBuilder" where
  "getFileInfo b p = (let (m, b') = getFileInfos b in (map_of m p, b'))"

definition setFileInfo :: "moduleBuilder \<Rightarrow> string \<Rightarrow> nat \<Rightarrow> moduleBuilder" where
  "setFileInfo b p info =
     (let (m, b') = getFileInfos b in b'\<lparr>fileInfos := Some (AList.update p info m)\<rparr>)"

definition removeFileInfo :: "moduleBuilder \<Rightarrow> string \<Rightarrow> moduleBuilder" where
  "removeFileInfo b p =
     (let (m, b') = getFileInfos b in b'\<lparr>fileInfos := Some (AList.delete p m)\<rparr>)"

definition getOrCreateFileInfo :: "project \<Rightarrow> moduleBuilder \<Rightarrow> string \<Rightarrow> nat \<times> moduleBuilder" where
  "getOrCreateFileInfo P b p =
     (case getFileInfo b p of
        (Some fileInfo, b') \<Rightarrow> (fileInfo, b')
      | (None, b') \<Rightarrow>
          (let fileInfo = length (store b');
               b'' = b'\<lparr>store := store b' @ [newFileInfo (getScriptInfo P p)]\<rparr>
           in (fileInfo, setFileInfo b'' p fileInfo)))"

text \<open>\<^verbatim>\<open>referencedFilePaths.map(f => this.getOrCreateFileInfo(f))\<close>.\<close>

fun mapGetOrCreateFileInfo ::
  "project \<Rightarrow> string list \<Rightarrow> moduleBuilder \<Rightarrow> nat list \<times> moduleBuilder" where
  "mapGetOrCreateFileInfo P [] b = ([], b)"
| "mapGetOrCreateFileInfo P (f # fs) b =
     (let (fileInfo, b1) = getOrCreateFileInfo P b f;
          (rest, b2) = mapGetOrCreateFileInfo P fs b1
      in (fileInfo # rest, b2))"

definition getReferencedFileInfos ::
  "project \<Rightarrow> moduleBuilder \<Rightarrow> nat \<Rightarrow> error + (nat list \<times> moduleBuilder)" where
  "getReferencedFileInfos P b fileInfo =
     (case isExternalModuleOrHasOnlyAmbientExternalModules P (store b ! fileInfo) of
        Inl e \<Rightarrow> Inl e
      | Inr False \<Rightarrow> Inr ([], b)
      | Inr True \<Rightarrow>
          (let referencedFilePaths = getReferencedFiles P (path (scriptInfo (store b ! fileInfo)));
               (infos, b') = mapGetOrCreateFileInfo P referencedFilePaths b
           in Inr (toSortedArray (compareFileInfos (store b')) infos, b')))"

definition updateFileReferences :: "project \<Rightarrow> moduleBuilder \<Rightarrow> nat \<Rightarrow> error + moduleBuilder" where
  "updateFileReferences P b fileInfo =
     (if scriptVersionForReferences (store b ! fileInfo)
           = Some (getLatestVersion P (scriptInfo (store b ! fileInfo)))
      then Inr b
      else
        (case getReferencedFileInfos P b fileInfo of
           Inl e \<Rightarrow> Inl e
         | Inr (newReferences, b1) \<Rightarrow>
             (let oldReferences = references (store b1 ! fileInfo);
                  h2 = enumerateInsertsAndDeletes (compareFileInfos (store b1))
                         (\<lambda>newReference h. addReferencedBy h newReference fileInfo)
                         (\<lambda>oldReference h. removeReferencedBy h oldReference fileInfo)
                         newReferences oldReferences (store b1)
              in Inr (b1\<lparr>store := h2[fileInfo := (h2 ! fileInfo)
                     \<lparr>references := newReferences,
                      scriptVersionForReferences :=
                        Some (getLatestVersion P (scriptInfo (h2 ! fileInfo)))\<rparr>]\<rparr>))))"

text \<open>The first loop of \<^verbatim>\<open>ensureProjectDependencyGraphUpToDate\<close>.\<close>

fun updateAllFileReferences ::
  "project \<Rightarrow> scriptInfo list \<Rightarrow> moduleBuilder \<Rightarrow> error + moduleBuilder" where
  "updateAllFileReferences P [] b = Inr b"
| "updateAllFileReferences P (si # rest) b =
     (let (fileInfo, b1) = getOrCreateFileInfo P b (path si)
      in case updateFileReferences P b1 fileInfo of
           Inl e \<Rightarrow> Inl e
         | Inr b2 \<Rightarrow> updateAllFileReferences P rest b2)"

text \<open>
  Its second loop, \<^verbatim>\<open>forEachFileInfo\<close> with a callback that deletes: an entry is visited
  if it is still in the map when its turn comes.
\<close>

fun forEachRemoveDeleted ::
  "project \<Rightarrow> (string \<times> nat) list \<Rightarrow> moduleBuilder \<Rightarrow> moduleBuilder" where
  "forEachRemoveDeleted P [] b = b"
| "forEachRemoveDeleted P ((k, fileInfo) # rest) b =
     (if map_of (fst (getFileInfos b)) k = Some fileInfo
         \<and> \<not> containsScriptInfo P (scriptInfo (store b ! fileInfo))
      then forEachRemoveDeleted P rest
             (removeFileInfo (b\<lparr>store := removeFileReferences (store b) fileInfo\<rparr>)
                (path (scriptInfo (store b ! fileInfo))))
      else forEachRemoveDeleted P rest b)"

definition ensureProjectDependencyGraphUpToDate ::
  "project \<Rightarrow> moduleBuilder \<Rightarrow> error + moduleBuilder" where
  "ensureProjectDependencyGraphUpToDate P b =
     (if \<not> truthy (projectVersionForDependencyGraph b)
         \<or> Some (getProjectVersion P) \<noteq> projectVersionForDependencyGraph b
      then
        (case updateAllFileReferences P (getScriptInfos P) b of
           Inl e \<Rightarrow> Inl e
         | Inr b1 \<Rightarrow>
             (let (m, b2) = getFileInfos b1;
                  b3 = forEachRemoveDeleted P m b2
              in Inr (b3\<lparr>projectVersionForDependencyGraph := Some (getProjectVersion P)\<rparr>)))
      else Inr b)"

definition onProjectUpdateGraph :: "project \<Rightarrow> moduleBuilder \<Rightarrow> error + moduleBuilder" where
  "onProjectUpdateGraph P b =
     (if hasFileInfos b then ensureProjectDependencyGraphUpToDate P b else Inr b)"

subsection \<open>The requests of a graph refresh\<close>

text \<open>
  The refresh once more, with what it asks of the project on its way: \<^verbatim>\<open>getScriptInfos\<close>,
  once, when the refresh runs, and \<^verbatim>\<open>getReferencedFiles\<close> for every file whose references
  are recomputed. Each function returns the requests in their order and, with them, what
  the function of the same name without \<open>Traced\<close> returns
  (\<open>snd_ensureProjectDependencyGraphUpToDateTraced\<close> below).
\<close>

datatype request = ScriptInfosRequested | ReferencedFilesRequested string

definition getReferencedFileInfosTraced ::
  "project \<Rightarrow> moduleBuilder \<Rightarrow> nat \<Rightarrow> request list \<times> (error + (nat list \<times> moduleBuilder))" where
  "getReferencedFileInfosTraced P b fileInfo =
     (case isExternalModuleOrHasOnlyAmbientExternalModules P (store b ! fileInfo) of
        Inl e \<Rightarrow> ([], Inl e)
      | Inr False \<Rightarrow> ([], Inr ([], b))
      | Inr True \<Rightarrow>
          (let referencedFilePaths = getReferencedFiles P (path (scriptInfo (store b ! fileInfo)));
               (infos, b') = mapGetOrCreateFileInfo P referencedFilePaths b
           in ([ReferencedFilesRequested (path (scriptInfo (store b ! fileInfo)))],
               Inr (toSortedArray (compareFileInfos (store b')) infos, b'))))"

definition updateFileReferencesTraced ::
  "project \<Rightarrow> moduleBuilder \<Rightarrow> nat \<Rightarrow> request list \<times> (error + moduleBuilder)" where
  "updateFileReferencesTraced P b fileInfo =
     (if scriptVersionForReferences (store b ! fileInfo)
           = Some (getLatestVersion P (scriptInfo (store b ! fileInfo)))
      then ([], Inr b)
      else
        (case getReferencedFileInfosTraced P b fileInfo of
           (requests, Inl e) \<Rightarrow> (requests, Inl e)
         | (requests, Inr (newReferences, b1)) \<Rightarrow>
             (let oldReferences = references (store b1 ! fileInfo);
                  h2 = enumerateInsertsAndDeletes (compareFileInfos (store b1))
                         (\<lambda>newReference h. addReferencedBy h newReference fileInfo)
                         (\<lambda>oldReference h. removeReferencedBy h oldReference fileInfo)
                         newReferences oldReferences (store b1)
              in (requests,
                  Inr (b1\<lparr>store := h2[fileInfo := (h2 ! fileInfo)
                     \<lparr>references := newReferences,
                      scriptVersionForReferences :=
                        Some (getLatestVersion P (scriptInfo (h2 ! fileInfo)))\<rparr>]\<rparr>)))))"

fun updateAllFileReferencesTraced ::
  "project \<Rightarrow> scriptInfo list \<Rightarrow> moduleBuilder \<Rightarrow> request list \<times> (error + moduleBuilder)" where
  "updateAllFileReferencesTraced P [] b = ([], Inr b)"
| "updateAllFileReferencesTraced P (si # rest) b =
     (let (fileInfo, b1) = getOrCreateFileInfo P b (path si)
      in case updateFileReferencesTraced P b1 fileInfo of
           (requests, Inl e) \<Rightarrow> (requests, Inl e)
         | (requests, Inr b2) \<Rightarrow>
             (let (requests', r) = updateAllFileReferencesTraced P rest b2
              in (requests @ requests', r)))"

definition ensureProjectDependencyGraphUpToDateTraced ::
  "project \<Rightarrow> moduleBuilder \<Rightarrow> request list \<times> (error + moduleBuilder)" where
  "ensureProjectDependencyGraphUpToDateTraced P b =
     (if \<not> truthy (projectVersionForDependencyGraph b)
         \<or> Some (getProjectVersion P) \<noteq> projectVersionForDependencyGraph b
      then
        (case updateAllFileReferencesTraced P (getScriptInfos P) b of
           (requests, Inl e) \<Rightarrow> (ScriptInfosRequested # requests, Inl e)
         | (requests, Inr b1) \<Rightarrow>
             (let (m, b2) = getFileInfos b1;
                  b3 = forEachRemoveDeleted P m b2
              in (ScriptInfosRequested # requests,
                  Inr (b3\<lparr>projectVersionForDependencyGraph := Some (getProjectVersion P)\<rparr>))))
      else ([], Inr b))"

subsection \<open>The propagation walk\<close>

text \<open>
  One turn of the \<^verbatim>\<open>while\<close> loop of \<^verbatim>\<open>ModuleBuilder.getFilesAffectedBy\<close>, on the store,
  the queue and \<^verbatim>\<open>fileNameSet\<close> (a \<^verbatim>\<open>Map\<close> from file name to script info).
\<close>

type_synonym walk = "store \<times> nat list \<times> (string \<times> scriptInfo) list"

definition propagateStep :: "project \<Rightarrow> walk \<Rightarrow> walk" where
  "propagateStep P w =
     (case w of (h, queue, fileNameSet) \<Rightarrow>
        (let processingFileInfo = last queue;
             queue1 = butlast queue;
             (changed, info') = updateShapeSignature P (h ! processingFileInfo);
             h' = h[processingFileInfo := info'];
             queue2 =
               (if changed \<and> length (referencedBy (h' ! processingFileInfo)) > 0
                then queue1 @
                  filter (\<lambda>potentialFileInfo.
                            map_of fileNameSet (fileName (scriptInfo (h' ! potentialFileInfo))) = None)
                    (referencedBy (h' ! processingFileInfo))
                else queue1)
         in (h', queue2,
             AList.update (fileName (scriptInfo (h' ! processingFileInfo)))
               (scriptInfo (h' ! processingFileInfo)) fileNameSet)))"

text \<open>The loop. \<open>None\<close>: the loop does not end.\<close>

partial_function (option) propagate :: "project \<Rightarrow> walk \<Rightarrow> walk option" where
  "propagate P w =
     (if fst (snd w) = [] then Some w else propagate P (propagateStep P w))"

declare propagate.simps [code]

definition outputIsBundledOrIsolated :: "project \<Rightarrow> bool" where
  "outputIsBundledOrIsolated P =
     (case getCompilerOptions P of
        None \<Rightarrow> False
      | Some options \<Rightarrow>
          truthyFlag (isolatedModules options) \<or> truthy (out options) \<or> truthy (outFile options))"

definition emittableNames :: "(string \<times> scriptInfo) list \<Rightarrow> string list" where
  "emittableNames fileNameSet = map fst (filter (\<lambda>(fileName, si). shouldEmitFile si) fileNameSet)"

text \<open>
  \<^verbatim>\<open>ModuleBuilder.getFilesAffectedBy\<close>. \<open>None\<close>: the walk does not end;
  \<open>Some (Inl TypeError)\<close>: the call throws; \<open>Some (Inr (names, b))\<close>: it returns the
  names and leaves the builder \<open>b\<close>.
\<close>

definition getFilesAffectedBy ::
  "project \<Rightarrow> moduleBuilder \<Rightarrow> scriptInfo \<Rightarrow> (error + (string list \<times> moduleBuilder)) option" where
  "getFilesAffectedBy P b si =
     (case ensureProjectDependencyGraphUpToDate P b of
        Inl e \<Rightarrow> Some (Inl e)
      | Inr b1 \<Rightarrow>
          (case getFileInfo b1 (path si) of
             (None, b2) \<Rightarrow> Some (Inr (singleFileResult si, b2))
           | (Some fileInfo, b2) \<Rightarrow>
               (let (changed, info') = updateShapeSignature P (store b2 ! fileInfo);
                    b3 = b2\<lparr>store := (store b2)[fileInfo := info']\<rparr>
                in if \<not> changed then Some (Inr (singleFileResult si, b3))
                   else
                     (case isExternalModuleOrHasOnlyAmbientExternalModules P (store b3 ! fileInfo) of
                        Inl e \<Rightarrow> Some (Inl e)
                      | Inr False \<Rightarrow> Some (Inr (getAllEmittableFiles P, b3))
                      | Inr True \<Rightarrow>
                          if outputIsBundledOrIsolated P
                          then Some (Inr (singleFileResult si, b3))
                          else
                            map_option
                              (\<lambda>(h, queue, fileNameSet).
                                 Inr (emittableNames fileNameSet, b3\<lparr>store := h\<rparr>))
                              (propagate P
                                 (store b3, referencedBy (store b3 ! fileInfo),
                                  [(fileName si, si)]))))))"

definition ensureFileInfoIfInProject ::
  "project \<Rightarrow> moduleBuilder \<Rightarrow> scriptInfo \<Rightarrow> error + moduleBuilder" where
  "ensureFileInfoIfInProject P b si = ensureProjectDependencyGraphUpToDate P b"

definition emitFile ::
  "project \<Rightarrow> moduleBuilder \<Rightarrow> scriptInfo \<Rightarrow> error + (bool \<times> effect list \<times> moduleBuilder)" where
  "emitFile P b si =
     (case ensureFileInfoIfInProject P b si of
        Inl e \<Rightarrow> Inl e
      | Inr b1 \<Rightarrow>
          (let (fileInfo, b2) = getFileInfo b1 (path si)
           in case emitFileWith P (map_option (\<lambda>i. scriptInfo (store b2 ! i)) fileInfo) si of
                Inl e \<Rightarrow> Inl e
              | Inr (r, effs) \<Rightarrow> Inr (r, effs, b2)))"

subsection \<open>Chains of shape changes\<close>

text \<open>
  The notions in which the propagation through the graph is stated. The shape of the file
  info \<open>i\<close> changes in the store \<open>h\<close> when \<^verbatim>\<open>updateShapeSignature\<close>, called on it there,
  answers true. \<open>shapeChain P h a ns\<close>: the list \<open>ns\<close> is a path of
  \<^verbatim>\<open>referencedBy\<close> edges that starts at \<open>a\<close> (\<open>a\<close> itself is not in the list), and the
  shape of every file info on it but the last changes.
\<close>

definition shapeChanges :: "project \<Rightarrow> store \<Rightarrow> nat \<Rightarrow> bool" where
  "shapeChanges P h i = fst (updateShapeSignature P (h ! i))"

fun shapeChain :: "project \<Rightarrow> store \<Rightarrow> nat \<Rightarrow> nat list \<Rightarrow> bool" where
  "shapeChain P h a [] = True"
| "shapeChain P h a [z] = (z \<in> set (referencedBy (h ! a)))"
| "shapeChain P h a (n # m # rest) =
     (n \<in> set (referencedBy (h ! a)) \<and> shapeChanges P h n \<and> shapeChain P h n (m # rest))"

subsection \<open>The turns of the walk\<close>

text \<open>
  The run of the loop, turn by turn. \<open>walkAt P w m\<close> is the state after \<open>m\<close> turns from
  \<open>w\<close>; \<open>dequeued P w m\<close> is the file info that turn \<open>m\<close> pops, and \<open>enqueued P w m\<close>
  are the file infos that it pushes: what the queue holds after the turn beyond the rest
  of the queue before it. \<open>edgeCount N h\<close> is the number of \<^verbatim>\<open>referencedBy\<close> edges that
  leave the file infos in \<open>N\<close>.
\<close>

definition walkAt :: "project \<Rightarrow> walk \<Rightarrow> nat \<Rightarrow> walk" where
  "walkAt P w m = (propagateStep P ^^ m) w"

definition dequeued :: "project \<Rightarrow> walk \<Rightarrow> nat \<Rightarrow> nat" where
  "dequeued P w m = last (fst (snd (walkAt P w m)))"

definition enqueued :: "project \<Rightarrow> walk \<Rightarrow> nat \<Rightarrow> nat list" where
  "enqueued P w m =
     drop (length (fst (snd (walkAt P w m))) - 1) (fst (snd (walkAt P w (Suc m))))"

definition edgeCount :: "nat set \<Rightarrow> store \<Rightarrow> nat" where
  "edgeCount N h = (\<Sum>k\<in>N. length (referencedBy (h ! k)))"

text \<open>
  A measure of the work that is left, which every turn decreases. A file info is
  \<open>visited\<close> when its file name is in \<^verbatim>\<open>fileNameSet\<close>. A visited file info is \<open>pending\<close>
  when its shape changes and it is in the queue at a place where one of the file infos
  that reference it is neither visited nor above it in the queue: popped there, it
  pushes. A file info that is not visited weighs twice its edges, a pending one its
  edges, and every entry of the queue weighs one.
\<close>

definition visited :: "walk \<Rightarrow> nat \<Rightarrow> bool" where
  "visited w k \<longleftrightarrow> fileName (scriptInfo (fst w ! k)) \<in> fst ` set (snd (snd w))"

definition pending :: "project \<Rightarrow> walk \<Rightarrow> nat \<Rightarrow> bool" where
  "pending P w k \<longleftrightarrow>
     visited w k \<and> shapeChanges P (fst w) k
     \<and> (\<exists>ys zs. fst (snd w) = ys @ k # zs
           \<and> (\<exists>j\<in>set (referencedBy (fst w ! k)). \<not> visited w j \<and> j \<notin> set zs))"

definition nodeWeight :: "project \<Rightarrow> walk \<Rightarrow> nat \<Rightarrow> nat" where
  "nodeWeight P w k =
     (if \<not> visited w k then 2 * length (referencedBy (fst w ! k))
      else if pending P w k then length (referencedBy (fst w ! k)) else 0)"

definition walkPotential :: "nat set \<Rightarrow> project \<Rightarrow> walk \<Rightarrow> nat" where
  "walkPotential N P w = length (fst (snd w)) + (\<Sum>k\<in>N. nodeWeight P w k)"

subsection \<open>Example projects\<close>

text \<open>
  Concrete projects for the evaluated instances below. In \<open>projectOf files refs\<close> every
  file of \<open>files\<close> is an external module whose declarations-only emit is one file; the
  hash is the identity; \<open>refs\<close> gives the files a file references.
\<close>

definition scriptInfoOf :: "string \<Rightarrow> scriptInfo" where
  "scriptInfoOf p = \<lparr>path = p, fileName = p, hasMixedContent = False, isDynamic = False\<rparr>"

definition moduleFile :: sourceFile where
  "moduleFile =
     \<lparr>statements = [], isDeclarationFile = False, sourceText = ''export {}'',
      externalModuleIndicator = True\<rparr>"

definition scriptFile :: sourceFile where
  "scriptFile =
     \<lparr>statements = [\<lparr>kind = OtherSyntaxKind, nameKind = Identifier\<rparr>],
      isDeclarationFile = False, sourceText = ''var x;'', externalModuleIndicator = False\<rparr>"

definition projectOf :: "string list \<Rightarrow> (string \<Rightarrow> string list) \<Rightarrow> project" where
  "projectOf files refs =
     \<lparr>getSourceFile = (\<lambda>p. Some moduleFile),
      getFileEmitOutput = (\<lambda>si emitOnlyDtsFiles.
         \<lparr>emitSkipped = False,
          outputFiles = Some [\<lparr>outputName = ''out'', outputText = path si,
                               writeByteOrderMark = False\<rparr>]\<rparr>),
      createHash = (\<lambda>t. t),
      getCompilerOptions = Some \<lparr>isolatedModules = None, out = None, outFile = None\<rparr>,
      getAllEmittableFiles = files,
      getScriptInfos = map scriptInfoOf files,
      containsScriptInfo = (\<lambda>si. path si \<in> set files),
      getScriptInfo = scriptInfoOf,
      getProjectVersion = ''1'',
      getReferencedFiles = refs,
      getProjectRootPath = None,
      getLatestVersion = (\<lambda>si. ''1''),
      getNormalizedAbsolutePath = (\<lambda>n d. d @ n),
      getDirectoryPath = (\<lambda>f. f)\<rparr>"

definition fileInfoOf ::
  "string \<Rightarrow> string option \<Rightarrow> nat list \<Rightarrow> nat list \<Rightarrow> string option \<Rightarrow> moduleBuilderFileInfo" where
  "fileInfoOf p signature refs refBy version =
     \<lparr>scriptInfo = scriptInfoOf p, lastCheckedShapeSignature = signature,
      references = refs, referencedBy = refBy, scriptVersionForReferences = version\<rparr>"

text \<open>\<^verbatim>\<open>a.ts\<close> imports \<^verbatim>\<open>b.ts\<close>, which imports \<^verbatim>\<open>c.ts\<close>.\<close>

definition chainProject :: project where
  "chainProject =
     projectOf [''a.ts'', ''b.ts'', ''c.ts'']
       (\<lambda>p. if p = ''a.ts'' then [''b.ts''] else if p = ''b.ts'' then [''c.ts''] else [])"

text \<open>The builder after its first graph refresh on the chain (\<open>chainBuilder_built\<close> below):
  the objects of \<^verbatim>\<open>a.ts\<close>, \<^verbatim>\<open>b.ts\<close> and \<^verbatim>\<open>c.ts\<close> are 0, 1 and 2.\<close>

definition chainBuilder :: moduleBuilder where
  "chainBuilder =
     \<lparr>fileInfos = Some [(''a.ts'', 0), (''b.ts'', 1), (''c.ts'', 2)],
      store = [fileInfoOf ''a.ts'' None [1] [] (Some ''1''),
               fileInfoOf ''b.ts'' None [2] [0] (Some ''1''),
               fileInfoOf ''c.ts'' None [] [1] (Some ''1'')],
      projectVersionForDependencyGraph = Some ''1''\<rparr>"

text \<open>The same builder once the shape of every file has been checked: each file info
  holds its signature.\<close>

definition chainBuilderChecked :: moduleBuilder where
  "chainBuilderChecked =
     \<lparr>fileInfos = Some [(''a.ts'', 0), (''b.ts'', 1), (''c.ts'', 2)],
      store = [fileInfoOf ''a.ts'' (Some ''a.ts'') [1] [] (Some ''1''),
               fileInfoOf ''b.ts'' (Some ''b.ts'') [2] [0] (Some ''1''),
               fileInfoOf ''c.ts'' (Some ''c.ts'') [] [1] (Some ''1'')],
      projectVersionForDependencyGraph = Some ''1''\<rparr>"

text \<open>The chain after an edit of \<^verbatim>\<open>c.ts\<close> that changes its declarations (a new content
  version of \<^verbatim>\<open>c.ts\<close>, a new project version), and the checked builder after the
  refresh that follows.\<close>

definition editedChainProject :: project where
  "editedChainProject =
     chainProject\<lparr>getFileEmitOutput :=
         (\<lambda>si emitOnlyDtsFiles.
            \<lparr>emitSkipped = False,
             outputFiles = Some [\<lparr>outputName = ''out'',
                                  outputText = (if path si = ''c.ts'' then ''c.ts v2'' else path si),
                                  writeByteOrderMark = False\<rparr>]\<rparr>),
       getLatestVersion := (\<lambda>si. if path si = ''c.ts'' then ''2'' else ''1''),
       getProjectVersion := ''2''\<rparr>"

definition chainBuilderEdited :: moduleBuilder where
  "chainBuilderEdited =
     \<lparr>fileInfos = Some [(''a.ts'', 0), (''b.ts'', 1), (''c.ts'', 2)],
      store = [fileInfoOf ''a.ts'' (Some ''a.ts'') [1] [] (Some ''1''),
               fileInfoOf ''b.ts'' (Some ''b.ts'') [2] [0] (Some ''1''),
               fileInfoOf ''c.ts'' (Some ''c.ts'') [] [1] (Some ''2'')],
      projectVersionForDependencyGraph = Some ''2''\<rparr>"

text \<open>The same edit, after which \<^verbatim>\<open>c.ts\<close> is moreover a plain script and no module any
  more.\<close>

definition scriptedChainProject :: project where
  "scriptedChainProject =
     editedChainProject\<lparr>getSourceFile :=
       (\<lambda>p. if p = ''c.ts'' then Some scriptFile else Some moduleFile)\<rparr>"

text \<open>A project with a cycle: \<^verbatim>\<open>b.ts\<close> imports \<^verbatim>\<open>a.ts\<close> and \<^verbatim>\<open>c.ts\<close>, and \<^verbatim>\<open>c.ts\<close>
  imports \<^verbatim>\<open>a.ts\<close> and \<^verbatim>\<open>b.ts\<close>; and the builder after its first refresh there.\<close>

definition triangleProject :: project where
  "triangleProject =
     projectOf [''a.ts'', ''b.ts'', ''c.ts'']
       (\<lambda>p. if p = ''b.ts'' then [''a.ts'', ''c.ts'']
            else if p = ''c.ts'' then [''a.ts'', ''b.ts''] else [])"

definition triangleBuilder :: moduleBuilder where
  "triangleBuilder =
     \<lparr>fileInfos = Some [(''a.ts'', 0), (''b.ts'', 1), (''c.ts'', 2)],
      store = [fileInfoOf ''a.ts'' None [] [1, 2] (Some ''1''),
               fileInfoOf ''b.ts'' None [0, 2] [2] (Some ''1''),
               fileInfoOf ''c.ts'' None [0, 1] [1] (Some ''1'')],
      projectVersionForDependencyGraph = Some ''1''\<rparr>"

text \<open>A file that imports itself: \<^verbatim>\<open>b.ts\<close> imports \<^verbatim>\<open>a.ts\<close> and \<^verbatim>\<open>b.ts\<close>; and the
  builder after its first refresh there.\<close>

definition selfProject :: project where
  "selfProject =
     projectOf [''a.ts'', ''b.ts''] (\<lambda>p. if p = ''b.ts'' then [''a.ts'', ''b.ts''] else [])"

definition selfBuilder :: moduleBuilder where
  "selfBuilder =
     \<lparr>fileInfos = Some [(''a.ts'', 0), (''b.ts'', 1)],
      store = [fileInfoOf ''a.ts'' None [] [1] (Some ''1''),
               fileInfoOf ''b.ts'' None [0, 1] [1] (Some ''1'')],
      projectVersionForDependencyGraph = Some ''1''\<rparr>"

text \<open>The chain after \<^verbatim>\<open>b.ts\<close> has left the project: a new project version, no file
  edited; and the builder after the refresh that follows.\<close>

definition chainProjectWithoutB :: project where
  "chainProjectWithoutB =
     chainProject\<lparr>getAllEmittableFiles := [''a.ts'', ''c.ts''],
                  getScriptInfos := [scriptInfoOf ''a.ts'', scriptInfoOf ''c.ts''],
                  containsScriptInfo := (\<lambda>si. path si \<in> set [''a.ts'', ''c.ts'']),
                  getProjectVersion := ''2''\<rparr>"

definition chainBuilderWithoutB :: moduleBuilder where
  "chainBuilderWithoutB =
     \<lparr>fileInfos = Some [(''a.ts'', 0), (''c.ts'', 2)],
      store = [fileInfoOf ''a.ts'' None [1] [] (Some ''1''),
               fileInfoOf ''b.ts'' None [] [0] (Some ''1''),
               fileInfoOf ''c.ts'' None [] [] (Some ''1'')],
      projectVersionForDependencyGraph = Some ''2''\<rparr>"

text \<open>Then \<^verbatim>\<open>b.ts\<close> comes back, again with a new project version and no file edited:
  the refresh allocates a new file info for it, object 3.\<close>

definition chainProjectRestored :: project where
  "chainProjectRestored = chainProject\<lparr>getProjectVersion := ''3''\<rparr>"

definition chainBuilderRestored :: moduleBuilder where
  "chainBuilderRestored =
     \<lparr>fileInfos = Some [(''a.ts'', 0), (''c.ts'', 2), (''b.ts'', 3)],
      store = [fileInfoOf ''a.ts'' None [1] [] (Some ''1''),
               fileInfoOf ''b.ts'' None [] [0] (Some ''1''),
               fileInfoOf ''c.ts'' None [] [3] (Some ''1''),
               fileInfoOf ''b.ts'' None [2] [] (Some ''1'')],
      projectVersionForDependencyGraph = Some ''3''\<rparr>"

text \<open>The file infos that the builder's map holds, and the absence of dangling edges:
  every edge of a file info in the map leads to a file info in the map.\<close>

definition liveFileInfos :: "moduleBuilder \<Rightarrow> nat list" where
  "liveFileInfos b = map snd (fst (getFileInfos b))"

definition noDanglingEdges :: "moduleBuilder \<Rightarrow> bool" where
  "noDanglingEdges b =
     list_all (\<lambda>A. list_all (\<lambda>R. R \<in> set (liveFileInfos b)) (references (store b ! A))
                 \<and> list_all (\<lambda>R. R \<in> set (liveFileInfos b)) (referencedBy (store b ! A)))
       (liveFileInfos b)"

text \<open>The chain with plain scripts, with ambient-only files and with empty files
  instead of modules. A plain script has no references: \<open>scriptBuilder\<close> is the builder
  after its first refresh there.\<close>

definition scriptProject :: project where
  "scriptProject = chainProject\<lparr>getSourceFile := (\<lambda>p. Some scriptFile)\<rparr>"

definition scriptBuilder :: moduleBuilder where
  "scriptBuilder =
     \<lparr>fileInfos = Some [(''a.ts'', 0), (''b.ts'', 1), (''c.ts'', 2)],
      store = [fileInfoOf ''a.ts'' None [] [] (Some ''1''),
               fileInfoOf ''b.ts'' None [] [] (Some ''1''),
               fileInfoOf ''c.ts'' None [] [] (Some ''1'')],
      projectVersionForDependencyGraph = Some ''1''\<rparr>"

definition ambientFile :: sourceFile where
  "ambientFile =
     \<lparr>statements = [\<lparr>kind = ModuleDeclaration, nameKind = StringLiteral\<rparr>],
      isDeclarationFile = False, sourceText = ''declare module m'',
      externalModuleIndicator = False\<rparr>"

definition ambientProject :: project where
  "ambientProject = chainProject\<lparr>getSourceFile := (\<lambda>p. Some ambientFile)\<rparr>"

definition emptyFile :: sourceFile where
  "emptyFile =
     \<lparr>statements = [], isDeclarationFile = False, sourceText = [],
      externalModuleIndicator = False\<rparr>"

definition emptyProject :: project where
  "emptyProject = chainProject\<lparr>getSourceFile := (\<lambda>p. Some emptyFile)\<rparr>"

text \<open>A project whose declarations-only emit produces nothing, and the same with plain
  scripts instead of modules.\<close>

definition noOutputProject :: project where
  "noOutputProject =
     chainProject\<lparr>getFileEmitOutput :=
       (\<lambda>si emitOnlyDtsFiles. \<lparr>emitSkipped = True, outputFiles = Some []\<rparr>)\<rparr>"

definition freshFileInfo :: "string \<Rightarrow> builderFileInfo" where
  "freshFileInfo p = \<lparr>scriptInfo = scriptInfoOf p, lastCheckedShapeSignature = None\<rparr>"

definition noOutputScriptProject :: project where
  "noOutputScriptProject = noOutputProject\<lparr>getSourceFile := (\<lambda>p. Some scriptFile)\<rparr>"

text \<open>The chain under \<^verbatim>\<open>isolatedModules\<close>, and a project of plain scripts under
  \<^verbatim>\<open>outFile\<close>.\<close>

definition isolatedProject :: project where
  "isolatedProject =
     chainProject\<lparr>getCompilerOptions :=
       Some \<lparr>isolatedModules = Some True, out = None, outFile = None\<rparr>\<rparr>"

definition bundledScriptProject :: project where
  "bundledScriptProject =
     chainProject\<lparr>getSourceFile := (\<lambda>p. Some scriptFile),
                  getCompilerOptions :=
                    Some \<lparr>isolatedModules = None, out = None, outFile = Some ''all.js''\<rparr>\<rparr>"

definition bundledProject :: project where
  "bundledProject =
     chainProject\<lparr>getCompilerOptions :=
       Some \<lparr>isolatedModules = None, out = None, outFile = Some ''all.js''\<rparr>\<rparr>"

text \<open>The chain with the empty string as project version and the builder after its
  first refresh there; then the same project after an edit of every file (content
  version 2) that leaves the project version alone.\<close>

definition unstampedProject :: project where
  "unstampedProject = chainProject\<lparr>getProjectVersion := []\<rparr>"

definition unstampedBuilder :: moduleBuilder where
  "unstampedBuilder = chainBuilder\<lparr>projectVersionForDependencyGraph := Some []\<rparr>"

definition unstampedProjectEdited :: project where
  "unstampedProjectEdited = unstampedProject\<lparr>getLatestVersion := (\<lambda>si. ''2'')\<rparr>"

section \<open>Properties\<close>

subsection \<open>Accessors and the example builders\<close>

lemma fst_getFileInfo_materialized:
  "fst (getFileInfo (snd (getFileInfos b)) p) = fst (getFileInfo b p)"
  by (simp add: getFileInfo_def getFileInfos_def split: option.splits)

lemma chainBuilder_built:
  "ensureProjectDependencyGraphUpToDate chainProject newModuleBuilder = Inr chainBuilder"
  by code_simp

lemma unstampedBuilder_built:
  "ensureProjectDependencyGraphUpToDate unstampedProject newModuleBuilder = Inr unstampedBuilder"
  by code_simp

lemma ensure_stamp:
  assumes "ensureProjectDependencyGraphUpToDate P b = Inr be"
  shows "projectVersionForDependencyGraph be = Some (getProjectVersion P)"
  using assms
  by (auto simp: ensureProjectDependencyGraphUpToDate_def Let_def split_beta
      split: if_splits sum.splits)

lemma ensure_noop:
  "projectVersionForDependencyGraph b = Some (getProjectVersion P) \<Longrightarrow> getProjectVersion P \<noteq> [] \<Longrightarrow>
   ensureProjectDependencyGraphUpToDate P b = Inr b"
  by (simp add: ensureProjectDependencyGraphUpToDate_def truthy_def)

subsection \<open>The branches of \<^verbatim>\<open>ModuleBuilder.getFilesAffectedBy\<close>\<close>

lemma containsOnlyAmbientModules_iff:
  "containsOnlyAmbientModules sts \<longleftrightarrow>
     (\<forall>st\<in>set sts. kind st = ModuleDeclaration \<and> nameKind st = StringLiteral)"
  by (induction sts) auto

lemma scriptInfo_updateShapeSignature [simp]:
  "scriptInfo (snd (updateShapeSignature P info)) = scriptInfo info"
  by (simp add: updateShapeSignature_def Let_def split: option.splits list.splits)

lemma referencedBy_updateShapeSignature [simp]:
  "referencedBy (snd (updateShapeSignature P info)) = referencedBy info"
  by (simp add: updateShapeSignature_def Let_def split: option.splits list.splits)

lemma scriptInfo_nth_update [simp]:
  "scriptInfo (h[i := snd (updateShapeSignature P (h ! i))] ! j) = scriptInfo (h ! j)"
  by (cases "i < length h") (auto simp: nth_list_update list_update_beyond)

lemma referencedBy_nth_update [simp]:
  "referencedBy (h[i := snd (updateShapeSignature P (h ! i))] ! j) = referencedBy (h ! j)"
  by (cases "i < length h") (auto simp: nth_list_update list_update_beyond)

lemma isExternalModuleOrHasOnlyAmbientExternalModules_cong:
  "scriptInfo x = scriptInfo y \<Longrightarrow>
   isExternalModuleOrHasOnlyAmbientExternalModules P x
     = isExternalModuleOrHasOnlyAmbientExternalModules P y"
  by (simp add: isExternalModuleOrHasOnlyAmbientExternalModules_def)

lemma isExternalModuleOrHasOnlyAmbientExternalModules_nth_update [simp]:
  "isExternalModuleOrHasOnlyAmbientExternalModules P
     (h[i := snd (updateShapeSignature P (h ! i))] ! j)
   = isExternalModuleOrHasOnlyAmbientExternalModules P (h ! j)"
  by (rule isExternalModuleOrHasOnlyAmbientExternalModules_cong) simp

lemma store_getFileInfo [simp]: "store (snd (getFileInfo b p)) = store b"
  by (simp add: getFileInfo_def getFileInfos_def split: option.splits)

lemma fileInfos_getFileInfo:
  "fst (getFileInfos (snd (getFileInfo b p))) = fst (getFileInfos b)"
  by (simp add: getFileInfo_def getFileInfos_def split: option.splits)

text \<open>What \<^verbatim>\<open>getFilesAffectedBy\<close> does after a refresh that returned, for a file that has
  a file info.\<close>

lemma getFilesAffectedBy_unfold:
  assumes "ensureProjectDependencyGraphUpToDate P b = Inr b1"
      and "fst (getFileInfo b1 (path si)) = Some fileInfo"
  shows "getFilesAffectedBy P b si =
     (let b3 = (snd (getFileInfo b1 (path si)))
                 \<lparr>store := (store b1)[fileInfo := snd (updateShapeSignature P (store b1 ! fileInfo))]\<rparr>
      in if \<not> fst (updateShapeSignature P (store b1 ! fileInfo))
         then Some (Inr (singleFileResult si, b3))
         else (case isExternalModuleOrHasOnlyAmbientExternalModules P (store b1 ! fileInfo) of
                 Inl e \<Rightarrow> Some (Inl e)
               | Inr False \<Rightarrow> Some (Inr (getAllEmittableFiles P, b3))
               | Inr True \<Rightarrow>
                   if outputIsBundledOrIsolated P then Some (Inr (singleFileResult si, b3))
                   else map_option
                          (\<lambda>(h, queue, fileNameSet).
                             Inr (emittableNames fileNameSet, b3\<lparr>store := h\<rparr>))
                          (propagate P
                             ((store b1)[fileInfo := snd (updateShapeSignature P (store b1 ! fileInfo))],
                              referencedBy (store b1 ! fileInfo), [(fileName si, si)]))))"
proof -
  obtain b2 where lookup: "getFileInfo b1 (path si) = (Some fileInfo, b2)"
    using assms(2) by (cases "getFileInfo b1 (path si)") simp
  then have "b2 = snd (getFileInfo b1 (path si))"
    by simp
  then have "store b2 = store b1"
    by simp
  with assms(1) lookup show ?thesis
    by (simp add: getFilesAffectedBy_def Let_def split_beta split: sum.splits bool.splits)
qed

lemma getFilesAffectedBy_no_fallback:
  assumes "ensureProjectDependencyGraphUpToDate P b = Inr b1"
      and "fst (getFileInfo b1 (path si)) = Some fileInfo"
      and "isExternalModuleOrHasOnlyAmbientExternalModules P (store b1 ! fileInfo) = Inr True"
      and "getFilesAffectedBy P b si = Some (Inr (r, b'))"
  shows "r = singleFileResult si
     \<or> (\<exists>w. propagate P
               ((store b1)[fileInfo := snd (updateShapeSignature P (store b1 ! fileInfo))],
                referencedBy (store b1 ! fileInfo), [(fileName si, si)]) = Some w
             \<and> r = emittableNames (snd (snd w)))"
  using assms(3,4) unfolding getFilesAffectedBy_unfold [OF assms(1,2)]
  by (auto simp: Let_def split: if_splits)

lemma getFilesAffectedBy_fallback:
  assumes "ensureProjectDependencyGraphUpToDate P b = Inr b1"
      and "fst (getFileInfo b1 (path si)) = Some fileInfo"
      and "isExternalModuleOrHasOnlyAmbientExternalModules P (store b1 ! fileInfo) = Inr False"
      and "fst (updateShapeSignature P (store b1 ! fileInfo))"
  shows "\<exists>b'. getFilesAffectedBy P b si = Some (Inr (getAllEmittableFiles P, b'))"
  using assms(3,4) unfolding getFilesAffectedBy_unfold [OF assms(1,2)]
  by (auto simp: Let_def split: if_splits)

lemma scriptBuilder_built:
  "ensureProjectDependencyGraphUpToDate scriptProject newModuleBuilder = Inr scriptBuilder"
  by code_simp

subsection \<open>Deleting a file\<close>

text \<open>
  C1 at the chain, after \<^verbatim>\<open>b.ts\<close> has been deleted from the project and
  \<^verbatim>\<open>onProjectUpdateGraph\<close> has run: the file info of \<^verbatim>\<open>b.ts\<close> (object 1) has left the
  map and the \<^verbatim>\<open>referencedBy\<close> of \<^verbatim>\<open>c.ts\<close>, but the \<^verbatim>\<open>references\<close> of \<^verbatim>\<open>a.ts\<close>
  (object 0) still hold it: a dangling edge. When \<^verbatim>\<open>b.ts\<close> comes back, \<^verbatim>\<open>a.ts\<close> keeps
  the old object, the new file info of \<^verbatim>\<open>b.ts\<close> (object 3) is referenced by nothing,
  and a change of the shape of \<^verbatim>\<open>b.ts\<close> no longer reaches \<^verbatim>\<open>a.ts\<close>, as it does in a
  builder that starts from the same project.
\<close>

theorem deletion_leaves_dangling_edge:
  "ensureProjectDependencyGraphUpToDate chainProject newModuleBuilder = Inr chainBuilder
   \<and> onProjectUpdateGraph chainProjectWithoutB chainBuilder = Inr chainBuilderWithoutB
   \<and> fst (getFileInfo chainBuilderWithoutB ''b.ts'') = None
   \<and> fst (getFileInfo chainBuilderWithoutB ''a.ts'') = Some 0
   \<and> references (store chainBuilderWithoutB ! 0) = [1]
   \<and> path (scriptInfo (store chainBuilderWithoutB ! 1)) = ''b.ts''
   \<and> referencedBy (store chainBuilderWithoutB ! 2) = []
   \<and> \<not> noDanglingEdges chainBuilderWithoutB
   \<and> onProjectUpdateGraph chainProjectRestored chainBuilderWithoutB = Inr chainBuilderRestored
   \<and> fst (getFileInfo chainBuilderRestored ''b.ts'') = Some 3
   \<and> references (store chainBuilderRestored ! 0) = [1]
   \<and> referencedBy (store chainBuilderRestored ! 3) = []
   \<and> map_option (map_sum id fst)
        (getFilesAffectedBy chainProjectRestored chainBuilderRestored (scriptInfoOf ''b.ts''))
       = Some (Inr [''b.ts''])
   \<and> map_option (map_sum id fst)
        (getFilesAffectedBy chainProjectRestored newModuleBuilder (scriptInfoOf ''b.ts''))
       = Some (Inr [''b.ts'', ''a.ts''])"
proof -
  have "onProjectUpdateGraph chainProjectWithoutB chainBuilder = Inr chainBuilderWithoutB"
    by code_simp
  moreover have "fst (getFileInfo chainBuilderWithoutB ''b.ts'') = None"
    by code_simp
  moreover have "fst (getFileInfo chainBuilderWithoutB ''a.ts'') = Some 0"
    by code_simp
  moreover have "references (store chainBuilderWithoutB ! 0) = [1]"
    by code_simp
  moreover have "path (scriptInfo (store chainBuilderWithoutB ! 1)) = ''b.ts''"
    by code_simp
  moreover have "referencedBy (store chainBuilderWithoutB ! 2) = []"
    by code_simp
  moreover have "\<not> noDanglingEdges chainBuilderWithoutB"
    by code_simp
  moreover have
    "onProjectUpdateGraph chainProjectRestored chainBuilderWithoutB = Inr chainBuilderRestored"
    by code_simp
  moreover have "fst (getFileInfo chainBuilderRestored ''b.ts'') = Some 3"
    by code_simp
  moreover have "references (store chainBuilderRestored ! 0) = [1]"
    by code_simp
  moreover have "referencedBy (store chainBuilderRestored ! 3) = []"
    by code_simp
  moreover have "map_option (map_sum id fst)
        (getFilesAffectedBy chainProjectRestored chainBuilderRestored (scriptInfoOf ''b.ts''))
       = Some (Inr [''b.ts''])"
    by code_simp
  moreover have "map_option (map_sum id fst)
        (getFilesAffectedBy chainProjectRestored newModuleBuilder (scriptInfoOf ''b.ts''))
       = Some (Inr [''b.ts'', ''a.ts''])"
    by code_simp
  ultimately show ?thesis
    using chainBuilder_built by (intro conjI)
qed

theorem deletion_leaves_dangling_edge_witness:
  "onProjectUpdateGraph chainProjectWithoutB chainBuilder = Inr chainBuilderWithoutB
   \<and> references (store chainBuilderWithoutB ! 0) = [1]
   \<and> fst (getFileInfo chainBuilderWithoutB ''b.ts'') = None"
  using deletion_leaves_dangling_edge by simp

subsection \<open>Repeated shape checks\<close>

text \<open>
  C3, as stated, at a file whose declarations-only emit produces nothing and that has no
  stored signature: the signature stays unset and the repeated call answers true again.
\<close>

theorem updateShapeSignature_repeated_counterexample:
  "fst (updateShapeSignature noOutputProject
          (snd (updateShapeSignature noOutputProject (freshFileInfo ''a.ts''))))"
  by code_simp

text \<open>
  C3, amended: the repeated call of \<^verbatim>\<open>updateShapeSignature\<close>, with nothing changed in
  between, answers false exactly when the source file is present and the first call left
  a non-empty signature stored; with an absent source file, or with no signature stored
  after the first call, it answers true again.
\<close>

theorem updateShapeSignature_repeated:
  "fst (updateShapeSignature P (snd (updateShapeSignature P info))) \<longleftrightarrow>
     (getSourceFile P (path (scriptInfo info)) = None
      \<or> \<not> truthy (lastCheckedShapeSignature (snd (updateShapeSignature P info))))"
  by (auto simp: updateShapeSignature_def Let_def split: option.splits list.splits)

theorem updateShapeSignature_repeated_witness:
  "getSourceFile chainProject (path (scriptInfo (freshFileInfo ''a.ts''))) \<noteq> None
   \<and> truthy (lastCheckedShapeSignature
        (snd (updateShapeSignature chainProject (freshFileInfo ''a.ts''))))
   \<and> \<not> fst (updateShapeSignature chainProject
            (snd (updateShapeSignature chainProject (freshFileInfo ''a.ts''))))"
  using updateShapeSignature_repeated [of chainProject "freshFileInfo ''a.ts''"]
  by code_simp

subsection \<open>Version stamps\<close>

text \<open>The traced refresh returns what the refresh returns.\<close>

lemma snd_getReferencedFileInfosTraced:
  "snd (getReferencedFileInfosTraced P b fileInfo) = getReferencedFileInfos P b fileInfo"
  by (simp add: getReferencedFileInfosTraced_def getReferencedFileInfos_def Let_def split_beta
      split: sum.splits bool.splits)

lemma snd_updateFileReferencesTraced:
  "snd (updateFileReferencesTraced P b fileInfo) = updateFileReferences P b fileInfo"
proof -
  have "getReferencedFileInfos P b fileInfo = snd (getReferencedFileInfosTraced P b fileInfo)"
    by (simp add: snd_getReferencedFileInfosTraced)
  then show ?thesis
    by (cases "getReferencedFileInfosTraced P b fileInfo")
       (simp add: updateFileReferencesTraced_def updateFileReferences_def Let_def
          split: sum.splits prod.splits)
qed

lemma snd_updateAllFileReferencesTraced:
  "snd (updateAllFileReferencesTraced P sis b) = updateAllFileReferences P sis b"
proof (induction sis arbitrary: b)
  case Nil
  show ?case by simp
next
  case (Cons si rest)
  obtain fileInfo b1 where create: "getOrCreateFileInfo P b (path si) = (fileInfo, b1)"
    by (cases "getOrCreateFileInfo P b (path si)") auto
  have "updateFileReferences P b1 fileInfo = snd (updateFileReferencesTraced P b1 fileInfo)"
    by (simp add: snd_updateFileReferencesTraced)
  with Cons.IH show ?case
    by (cases "updateFileReferencesTraced P b1 fileInfo")
       (simp add: create split_beta split: sum.splits)
qed

lemma snd_ensureProjectDependencyGraphUpToDateTraced:
  "snd (ensureProjectDependencyGraphUpToDateTraced P b) = ensureProjectDependencyGraphUpToDate P b"
proof -
  have "updateAllFileReferences P (getScriptInfos P) b
          = snd (updateAllFileReferencesTraced P (getScriptInfos P) b)"
    by (simp add: snd_updateAllFileReferencesTraced)
  then show ?thesis
    by (cases "updateAllFileReferencesTraced P (getScriptInfos P) b")
       (simp add: ensureProjectDependencyGraphUpToDateTraced_def
          ensureProjectDependencyGraphUpToDate_def Let_def split_beta split: sum.splits)
qed

text \<open>
  The version stamp of a project is a counter printed as a string, and so never the empty
  string; this is the hypothesis \<open>stamp\<close> of the theorem below. It is needed here, where
  the stamp is any string: the guard \<^verbatim>\<open>!this.projectVersionForDependencyGraph\<close>, which
  is there for the builder that has no stamp yet, also holds of a stored empty string.
  In the chain with the empty string as stamp, after a refresh and an edit of the files
  that leaves the stamp as it is, the next refresh recomputes the references of \<^verbatim>\<open>a.ts\<close>
  (object 0).
\<close>

lemma empty_stamp_is_no_stamp:
  "ensureProjectDependencyGraphUpToDate unstampedProject newModuleBuilder = Inr unstampedBuilder
   \<and> projectVersionForDependencyGraph unstampedBuilder
     = Some (getProjectVersion unstampedProjectEdited)
   \<and> scriptVersionForReferences (store unstampedBuilder ! 0) = Some ''1''
   \<and> scriptVersionForReferences
       (store (projr (ensureProjectDependencyGraphUpToDate unstampedProjectEdited
                        unstampedBuilder)) ! 0) = Some ''2''"
proof -
  have "projectVersionForDependencyGraph unstampedBuilder
     = Some (getProjectVersion unstampedProjectEdited)"
    by code_simp
  moreover have "scriptVersionForReferences (store unstampedBuilder ! 0) = Some ''1''"
    by code_simp
  moreover have "scriptVersionForReferences
       (store (projr (ensureProjectDependencyGraphUpToDate unstampedProjectEdited
                        unstampedBuilder)) ! 0) = Some ''2''"
    by code_simp
  ultimately show ?thesis
    using unstampedBuilder_built by (intro conjI)
qed

text \<open>
  C7. Let the version stamp of the project not be the empty string. When it equals the
  stamp that the builder saw last, the refresh asks nothing of the project and returns
  the builder as it was: no file info is created or removed, no edge changes, no
  references are recomputed; so does \<^verbatim>\<open>onProjectUpdateGraph\<close>. This is the case right
  after a refresh that returned. The stamp is all that the gate looks at: when the
  stamps differ, the refresh does ask. And \<^verbatim>\<open>updateFileReferences\<close> asks nothing and
  returns the builder as it was when the content version stored in the file info equals
  the latest version of its file.
\<close>

theorem refresh_gating:
  assumes stamp: "getProjectVersion P \<noteq> []"
  shows "(projectVersionForDependencyGraph b = Some (getProjectVersion P) \<longrightarrow>
            ensureProjectDependencyGraphUpToDateTraced P b = ([], Inr b)
            \<and> ensureProjectDependencyGraphUpToDate P b = Inr b
            \<and> onProjectUpdateGraph P b = Inr b)
     \<and> (ensureProjectDependencyGraphUpToDate P b0 = Inr b \<longrightarrow>
            ensureProjectDependencyGraphUpToDateTraced P b = ([], Inr b))
     \<and> (projectVersionForDependencyGraph b \<noteq> Some (getProjectVersion P) \<longrightarrow>
            fst (ensureProjectDependencyGraphUpToDateTraced P b) \<noteq> [])
     \<and> (scriptVersionForReferences (store b ! fileInfo)
            = Some (getLatestVersion P (scriptInfo (store b ! fileInfo))) \<longrightarrow>
          updateFileReferencesTraced P b fileInfo = ([], Inr b)
          \<and> updateFileReferences P b fileInfo = Inr b)"
proof (intro conjI impI)
  assume eq: "projectVersionForDependencyGraph b = Some (getProjectVersion P)"
  with stamp show "ensureProjectDependencyGraphUpToDateTraced P b = ([], Inr b)"
    by (simp add: ensureProjectDependencyGraphUpToDateTraced_def truthy_def)
  from eq stamp show plain: "ensureProjectDependencyGraphUpToDate P b = Inr b"
    by (rule ensure_noop)
  then show "onProjectUpdateGraph P b = Inr b"
    by (simp add: onProjectUpdateGraph_def)
next
  assume "ensureProjectDependencyGraphUpToDate P b0 = Inr b"
  then have "projectVersionForDependencyGraph b = Some (getProjectVersion P)"
    by (rule ensure_stamp)
  with stamp show "ensureProjectDependencyGraphUpToDateTraced P b = ([], Inr b)"
    by (simp add: ensureProjectDependencyGraphUpToDateTraced_def truthy_def)
next
  assume "projectVersionForDependencyGraph b \<noteq> Some (getProjectVersion P)"
  then show "fst (ensureProjectDependencyGraphUpToDateTraced P b) \<noteq> []"
    by (auto simp: ensureProjectDependencyGraphUpToDateTraced_def Let_def split_beta
        split: prod.splits sum.splits)
next
  assume "scriptVersionForReferences (store b ! fileInfo)
            = Some (getLatestVersion P (scriptInfo (store b ! fileInfo)))"
  then show "updateFileReferencesTraced P b fileInfo = ([], Inr b)"
    and "updateFileReferences P b fileInfo = Inr b"
    by (simp_all add: updateFileReferencesTraced_def updateFileReferences_def)
qed

text \<open>The witness: the chain. The first refresh asks for the script infos and for the
  references of every file; the refresh that follows it asks nothing. After the edit of
  \<^verbatim>\<open>c.ts\<close> the stamps differ, and the refresh asks for the references of \<^verbatim>\<open>c.ts\<close>
  only: the stored content versions of \<^verbatim>\<open>a.ts\<close> and \<^verbatim>\<open>b.ts\<close> are the latest.\<close>

theorem refresh_gating_witness:
  "getProjectVersion chainProject \<noteq> []
   \<and> ensureProjectDependencyGraphUpToDateTraced chainProject newModuleBuilder
       = ([ScriptInfosRequested, ReferencedFilesRequested ''a.ts'',
           ReferencedFilesRequested ''b.ts'', ReferencedFilesRequested ''c.ts''],
          Inr chainBuilder)
   \<and> projectVersionForDependencyGraph chainBuilder = Some (getProjectVersion chainProject)
   \<and> ensureProjectDependencyGraphUpToDateTraced chainProject chainBuilder = ([], Inr chainBuilder)
   \<and> onProjectUpdateGraph chainProject chainBuilder = Inr chainBuilder
   \<and> scriptVersionForReferences (store chainBuilder ! 0)
       = Some (getLatestVersion chainProject (scriptInfo (store chainBuilder ! 0)))
   \<and> updateFileReferencesTraced chainProject chainBuilder 0 = ([], Inr chainBuilder)
   \<and> projectVersionForDependencyGraph chainBuilderChecked
       \<noteq> Some (getProjectVersion editedChainProject)
   \<and> ensureProjectDependencyGraphUpToDateTraced editedChainProject chainBuilderChecked
       = ([ScriptInfosRequested, ReferencedFilesRequested ''c.ts''], Inr chainBuilderEdited)"
proof -
  have nonempty: "getProjectVersion chainProject \<noteq> []"
    by code_simp
  have first: "ensureProjectDependencyGraphUpToDateTraced chainProject newModuleBuilder
       = ([ScriptInfosRequested, ReferencedFilesRequested ''a.ts'',
           ReferencedFilesRequested ''b.ts'', ReferencedFilesRequested ''c.ts''],
          Inr chainBuilder)"
    by code_simp
  have stamp: "projectVersionForDependencyGraph chainBuilder = Some (getProjectVersion chainProject)"
    by code_simp
  have version: "scriptVersionForReferences (store chainBuilder ! 0)
       = Some (getLatestVersion chainProject (scriptInfo (store chainBuilder ! 0)))"
    by code_simp
  have differ: "projectVersionForDependencyGraph chainBuilderChecked
       \<noteq> Some (getProjectVersion editedChainProject)"
    by code_simp
  have edited: "ensureProjectDependencyGraphUpToDateTraced editedChainProject chainBuilderChecked
       = ([ScriptInfosRequested, ReferencedFilesRequested ''c.ts''], Inr chainBuilderEdited)"
    by code_simp
  note gate = refresh_gating [OF nonempty, of chainBuilder newModuleBuilder 0]
  from gate stamp
  have second: "ensureProjectDependencyGraphUpToDateTraced chainProject chainBuilder
       = ([], Inr chainBuilder)"
    and update: "onProjectUpdateGraph chainProject chainBuilder = Inr chainBuilder"
    by blast+
  from gate version
  have skipped: "updateFileReferencesTraced chainProject chainBuilder 0 = ([], Inr chainBuilder)"
    by blast
  from nonempty first stamp second update version skipped differ edited
  show ?thesis by (intro conjI)
qed

subsection \<open>Bundled and isolated output\<close>

text \<open>
  C2, as stated, at two inputs. Under \<^verbatim>\<open>isolatedModules\<close> the flat builder, asked about
  \<^verbatim>\<open>a.ts\<close> for the first time, returns all emittable files: it tests \<^verbatim>\<open>out\<close> and
  \<^verbatim>\<open>outFile\<close> only. Under \<^verbatim>\<open>outFile\<close> the graph builder returns all emittable files for
  a plain script whose shape changed: it tests for the module before the options.
\<close>

theorem bundled_short_circuit_counterexample:
  "outputIsBundledOrIsolated isolatedProject
   \<and> fst (nm_getFilesAffectedBy isolatedProject newNonModuleBuilder (scriptInfoOf ''a.ts''))
       = [''a.ts'', ''b.ts'', ''c.ts'']
   \<and> outputIsBundledOrIsolated bundledScriptProject
   \<and> map_option (map_sum id fst)
        (getFilesAffectedBy bundledScriptProject newModuleBuilder (scriptInfoOf ''a.ts''))
       = Some (Inr [''a.ts'', ''b.ts'', ''c.ts''])
   \<and> singleFileResult (scriptInfoOf ''a.ts'') = [''a.ts'']"
proof -
  have "outputIsBundledOrIsolated isolatedProject"
    by code_simp
  moreover have
    "fst (nm_getFilesAffectedBy isolatedProject newNonModuleBuilder (scriptInfoOf ''a.ts''))
       = [''a.ts'', ''b.ts'', ''c.ts'']"
    by code_simp
  moreover have "outputIsBundledOrIsolated bundledScriptProject"
    by code_simp
  moreover have
    "map_option (map_sum id fst)
        (getFilesAffectedBy bundledScriptProject newModuleBuilder (scriptInfoOf ''a.ts''))
       = Some (Inr [''a.ts'', ''b.ts'', ''c.ts''])"
    by code_simp
  moreover have "singleFileResult (scriptInfoOf ''a.ts'') = [''a.ts'']"
    by code_simp
  ultimately show ?thesis by simp
qed

text \<open>
  C2, amended. The flat builder returns the trivial single-file result whenever \<^verbatim>\<open>out\<close>
  or \<^verbatim>\<open>outFile\<close> is set (it does not look at \<^verbatim>\<open>isolatedModules\<close>), and it leaves the
  file info of the file with its new signature. Under \<^verbatim>\<open>isolatedModules\<close>, \<^verbatim>\<open>out\<close> or
  \<^verbatim>\<open>outFile\<close> the graph builder always returns or throws, and after a refresh that
  returned it does not walk the graph: what it returns is fixed by the file info of the
  file alone, and the builder it leaves is the refreshed one with, at most, the new
  signature in that file info. The result is all emittable files exactly when the file
  has a file info, its shape changed, and its source file is neither a module nor
  ambient-only; it is the trivial single-file result otherwise (the call throws when the
  shape, for want of a source file, counts as changed).
\<close>

theorem bundled_short_circuit:
  "(getCompilerOptions P = Some options \<and> (truthy (out options) \<or> truthy (outFile options))
      \<longrightarrow> nm_getFilesAffectedBy P nb si
           = (singleFileResult si,
              nm_setFileInfo (snd (nm_getOrCreateFileInfo P nb (path si))) (path si)
                (snd (updateShapeSignature P (fst (nm_getOrCreateFileInfo P nb (path si)))))))
   \<and> (outputIsBundledOrIsolated P \<longrightarrow> getFilesAffectedBy P b si \<noteq> None)
   \<and> (outputIsBundledOrIsolated P \<and> ensureProjectDependencyGraphUpToDate P b = Inr be \<longrightarrow>
        getFilesAffectedBy P b si =
          Some (case fst (getFileInfo be (path si)) of
                  None \<Rightarrow> Inr (singleFileResult si, snd (getFileInfo be (path si)))
                | Some fileInfo \<Rightarrow>
                    (let checked = (snd (getFileInfo be (path si)))
                           \<lparr>store := (store be)
                              [fileInfo := snd (updateShapeSignature P (store be ! fileInfo))]\<rparr>
                     in if fst (updateShapeSignature P (store be ! fileInfo))
                        then (case isExternalModuleOrHasOnlyAmbientExternalModules P
                                     (store be ! fileInfo) of
                                Inl e \<Rightarrow> Inl e
                              | Inr isModule \<Rightarrow>
                                  Inr (if isModule then singleFileResult si
                                       else getAllEmittableFiles P, checked))
                        else Inr (singleFileResult si, checked))))"
proof (intro conjI impI)
  assume "getCompilerOptions P = Some options \<and> (truthy (out options) \<or> truthy (outFile options))"
  then show "nm_getFilesAffectedBy P nb si
           = (singleFileResult si,
              nm_setFileInfo (snd (nm_getOrCreateFileInfo P nb (path si))) (path si)
                (snd (updateShapeSignature P (fst (nm_getOrCreateFileInfo P nb (path si))))))"
    by (auto simp: nm_getFilesAffectedBy_def Let_def split: prod.splits)
next
  assume "outputIsBundledOrIsolated P"
  then show "getFilesAffectedBy P b si \<noteq> None"
    by (auto simp: getFilesAffectedBy_def Let_def split: sum.splits prod.splits option.splits bool.splits)
next
  assume asm: "outputIsBundledOrIsolated P \<and> ensureProjectDependencyGraphUpToDate P b = Inr be"
  show "getFilesAffectedBy P b si =
          Some (case fst (getFileInfo be (path si)) of
                  None \<Rightarrow> Inr (singleFileResult si, snd (getFileInfo be (path si)))
                | Some fileInfo \<Rightarrow>
                    (let checked = (snd (getFileInfo be (path si)))
                           \<lparr>store := (store be)
                              [fileInfo := snd (updateShapeSignature P (store be ! fileInfo))]\<rparr>
                     in if fst (updateShapeSignature P (store be ! fileInfo))
                        then (case isExternalModuleOrHasOnlyAmbientExternalModules P
                                     (store be ! fileInfo) of
                                Inl e \<Rightarrow> Inl e
                              | Inr isModule \<Rightarrow>
                                  Inr (if isModule then singleFileResult si
                                       else getAllEmittableFiles P, checked))
                        else Inr (singleFileResult si, checked)))"
  proof (cases "fst (getFileInfo be (path si))")
    case None
    then obtain b2 where "getFileInfo be (path si) = (None, b2)"
      by (cases "getFileInfo be (path si)") simp
    with asm None show ?thesis
      by (simp add: getFilesAffectedBy_def)
  next
    case (Some fileInfo)
    from asm show ?thesis
      unfolding getFilesAffectedBy_unfold [OF conjunct2 [OF asm] Some] Some
      by (simp add: Let_def split: sum.splits bool.splits)
  qed
qed

text \<open>The witness: \<^verbatim>\<open>c.ts\<close> of the chain under \<^verbatim>\<open>outFile\<close>, asked about for the first
  time. Its shape changes and \<^verbatim>\<open>b.ts\<close> references it; both builders return \<^verbatim>\<open>c.ts\<close>
  alone, and the graph builder stores a signature in the file info of \<^verbatim>\<open>c.ts\<close> only.\<close>

theorem bundled_short_circuit_witness:
  "getCompilerOptions bundledProject
     = Some \<lparr>isolatedModules = None, out = None, outFile = Some ''all.js''\<rparr>
   \<and> outputIsBundledOrIsolated bundledProject
   \<and> ensureProjectDependencyGraphUpToDate bundledProject newModuleBuilder = Inr chainBuilder
   \<and> referencedBy (store chainBuilder ! 2) = [1]
   \<and> nm_getFilesAffectedBy bundledProject newNonModuleBuilder (scriptInfoOf ''c.ts'')
       = ([''c.ts''], \<lparr>nm_fileInfos = Some [(''c.ts'',
            \<lparr>scriptInfo = scriptInfoOf ''c.ts'', lastCheckedShapeSignature = Some ''c.ts''\<rparr>)]\<rparr>)
   \<and> getFilesAffectedBy bundledProject newModuleBuilder (scriptInfoOf ''c.ts'')
       = Some (Inr ([''c.ts''],
           chainBuilder\<lparr>store := (store chainBuilder)
             [2 := fileInfoOf ''c.ts'' (Some ''c.ts'') [] [1] (Some ''1'')]\<rparr>))"
proof -
  let ?opts = "\<lparr>isolatedModules = None, out = None, outFile = Some ''all.js''\<rparr>"
  let ?si = "scriptInfoOf ''c.ts''"
  have opts: "getCompilerOptions bundledProject = Some ?opts"
    by code_simp
  have set: "truthy (outFile ?opts)"
    by code_simp
  have bundled: "outputIsBundledOrIsolated bundledProject"
    by code_simp
  have built: "ensureProjectDependencyGraphUpToDate bundledProject newModuleBuilder = Inr chainBuilder"
    by code_simp
  have edges: "referencedBy (store chainBuilder ! 2) = [1]"
    by code_simp
  have flat: "(singleFileResult ?si,
              nm_setFileInfo (snd (nm_getOrCreateFileInfo bundledProject newNonModuleBuilder (path ?si)))
                (path ?si)
                (snd (updateShapeSignature bundledProject
                   (fst (nm_getOrCreateFileInfo bundledProject newNonModuleBuilder (path ?si))))))
       = ([''c.ts''], \<lparr>nm_fileInfos = Some [(''c.ts'',
            \<lparr>scriptInfo = scriptInfoOf ''c.ts'', lastCheckedShapeSignature = Some ''c.ts''\<rparr>)]\<rparr>)"
    by code_simp
  have graph: "(case fst (getFileInfo chainBuilder (path ?si)) of
                  None \<Rightarrow> Inr (singleFileResult ?si, snd (getFileInfo chainBuilder (path ?si)))
                | Some fileInfo \<Rightarrow>
                    (let checked = (snd (getFileInfo chainBuilder (path ?si)))
                           \<lparr>store := (store chainBuilder)
                              [fileInfo := snd (updateShapeSignature bundledProject
                                                  (store chainBuilder ! fileInfo))]\<rparr>
                     in if fst (updateShapeSignature bundledProject (store chainBuilder ! fileInfo))
                        then (case isExternalModuleOrHasOnlyAmbientExternalModules bundledProject
                                     (store chainBuilder ! fileInfo) of
                                Inl e \<Rightarrow> Inl e
                              | Inr isModule \<Rightarrow>
                                  Inr (if isModule then singleFileResult ?si
                                       else getAllEmittableFiles bundledProject, checked))
                        else Inr (singleFileResult ?si, checked)))
       = (Inr ([''c.ts''],
           chainBuilder\<lparr>store := (store chainBuilder)
             [2 := fileInfoOf ''c.ts'' (Some ''c.ts'') [] [1] (Some ''1'')]\<rparr>) :: error + _)"
    by code_simp
  note inst = bundled_short_circuit
         [of bundledProject ?opts newNonModuleBuilder ?si newModuleBuilder chainBuilder]
  from inst opts set
  have "nm_getFilesAffectedBy bundledProject newNonModuleBuilder ?si
       = ([''c.ts''], \<lparr>nm_fileInfos = Some [(''c.ts'',
            \<lparr>scriptInfo = scriptInfoOf ''c.ts'', lastCheckedShapeSignature = Some ''c.ts''\<rparr>)]\<rparr>)"
    unfolding flat [symmetric] by blast
  moreover from inst bundled built
  have "getFilesAffectedBy bundledProject newModuleBuilder ?si
       = Some (Inr ([''c.ts''],
           chainBuilder\<lparr>store := (store chainBuilder)
             [2 := fileInfoOf ''c.ts'' (Some ''c.ts'') [] [1] (Some ''1'')]\<rparr>))"
    unfolding graph [symmetric] by blast
  ultimately show ?thesis
    using opts bundled built edges by (intro conjI)
qed

subsection \<open>Emitting a file that has no file info\<close>

text \<open>
  C10, as stated, at the graph builder: asked to emit \<^verbatim>\<open>x.ts\<close>, which is not in the
  project, a new builder returns false and neither requests emit output nor writes; but
  its in-project check is the graph refresh, and the cached state is no longer what it
  was: it holds the three file infos of the chain.
\<close>

theorem emitFile_without_file_info_counterexample:
  "emitFile chainProject newModuleBuilder (scriptInfoOf ''x.ts'') = Inr (False, [], chainBuilder)
   \<and> fst (getFileInfo chainBuilder ''x.ts'') = None
   \<and> liveFileInfos newModuleBuilder = []
   \<and> liveFileInfos chainBuilder = [0, 1, 2]"
proof -
  have "emitFile chainProject newModuleBuilder (scriptInfoOf ''x.ts'')
          = Inr (False, [], chainBuilder)"
    by code_simp
  moreover have "fst (getFileInfo chainBuilder ''x.ts'') = None"
    by code_simp
  moreover have "liveFileInfos newModuleBuilder = []"
    by code_simp
  moreover have "liveFileInfos chainBuilder = [0, 1, 2]"
    by code_simp
  ultimately show ?thesis by simp
qed

text \<open>
  C10, amended: when no file info exists for the file after the in-project check,
  \<^verbatim>\<open>emitFile\<close> returns false, requests no emit output and writes nothing, and changes
  nothing beyond what the check itself did. In the flat builder the check did nothing
  (the file is not in the project), so the builder is as before, except that a map not
  yet created is now the empty map; in the graph builder the check is the graph refresh,
  and the builder is as the refresh left it.
\<close>

theorem emitFile_without_file_info:
  "(fst (nm_getFileInfo (nm_ensureFileInfoIfInProject P nb si) (path si)) = None
      \<longrightarrow> nm_emitFile P nb si = Inr (False, [], snd (nm_getFileInfos nb)))
   \<and> (ensureFileInfoIfInProject P b si = Inr b1 \<and> fst (getFileInfo b1 (path si)) = None
      \<longrightarrow> emitFile P b si = Inr (False, [], snd (getFileInfos b1)))"
proof (intro conjI impI)
  assume "fst (nm_getFileInfo (nm_ensureFileInfoIfInProject P nb si) (path si)) = None"
  then show "nm_emitFile P nb si = Inr (False, [], snd (nm_getFileInfos nb))"
    by (auto simp: nm_emitFile_def nm_ensureFileInfoIfInProject_def nm_getFileInfo_def
          nm_getFileInfos_def nm_getOrCreateFileInfo_def nm_setFileInfo_def emitFileWith_def
          Let_def update_conv'
        split: prod.splits option.splits if_splits)
next
  assume "ensureFileInfoIfInProject P b si = Inr b1 \<and> fst (getFileInfo b1 (path si)) = None"
  then show "emitFile P b si = Inr (False, [], snd (getFileInfos b1))"
    by (auto simp: emitFile_def getFileInfo_def getFileInfos_def emitFileWith_def Let_def
        split: prod.splits option.splits if_splits)
qed

theorem emitFile_without_file_info_witness:
  "fst (nm_getFileInfo (nm_ensureFileInfoIfInProject chainProject newNonModuleBuilder
          (scriptInfoOf ''x.ts'')) (path (scriptInfoOf ''x.ts''))) = None
   \<and> nm_emitFile chainProject newNonModuleBuilder (scriptInfoOf ''x.ts'')
       = Inr (False, [], \<lparr>nm_fileInfos = Some []\<rparr>)
   \<and> ensureFileInfoIfInProject chainProject chainBuilder (scriptInfoOf ''x.ts'') = Inr chainBuilder
   \<and> fst (getFileInfo chainBuilder (path (scriptInfoOf ''x.ts''))) = None
   \<and> emitFile chainProject chainBuilder (scriptInfoOf ''x.ts'') = Inr (False, [], chainBuilder)"
proof -
  have flat: "fst (nm_getFileInfo (nm_ensureFileInfoIfInProject chainProject newNonModuleBuilder
          (scriptInfoOf ''x.ts'')) (path (scriptInfoOf ''x.ts''))) = None"
    by code_simp
  have flat_state: "snd (nm_getFileInfos newNonModuleBuilder) = \<lparr>nm_fileInfos = Some []\<rparr>"
    by code_simp
  have check: "ensureFileInfoIfInProject chainProject chainBuilder (scriptInfoOf ''x.ts'')
      = Inr chainBuilder"
    by code_simp
  have none: "fst (getFileInfo chainBuilder (path (scriptInfoOf ''x.ts''))) = None"
    by code_simp
  have state: "snd (getFileInfos chainBuilder) = chainBuilder"
    by code_simp
  from emitFile_without_file_info
         [of chainProject newNonModuleBuilder "scriptInfoOf ''x.ts''" chainBuilder chainBuilder]
       flat flat_state check none state
  show ?thesis by simp
qed

subsection \<open>The whole-project fallback\<close>

text \<open>
  C8. Let the refresh return, let the file have a file info, and let \<open>sf\<close> be its source
  file. If \<open>sf\<close> is not an external module and has a top-level statement that is not a
  string-named module declaration, then a change of its shape makes
  \<^verbatim>\<open>getFilesAffectedBy\<close> return all emittable files. If every top-level statement of
  \<open>sf\<close> is a string-named module declaration, \<^verbatim>\<open>getFilesAffectedBy\<close> does not take the
  fallback: what it returns is the trivial single-file result or the result of the walk.
\<close>

theorem non_module_fallback:
  assumes "ensureProjectDependencyGraphUpToDate P b = Inr b1"
      and "fst (getFileInfo b1 (path si)) = Some fileInfo"
      and "getSourceFile P (path (scriptInfo (store b1 ! fileInfo))) = Some sf"
  shows "(\<not> isExternalModule sf
          \<and> (\<exists>st\<in>set (statements sf). kind st \<noteq> ModuleDeclaration \<or> nameKind st \<noteq> StringLiteral)
          \<and> fst (updateShapeSignature P (store b1 ! fileInfo))
          \<longrightarrow> (\<exists>b'. getFilesAffectedBy P b si = Some (Inr (getAllEmittableFiles P, b'))))
     \<and> ((\<forall>st\<in>set (statements sf). kind st = ModuleDeclaration \<and> nameKind st = StringLiteral)
          \<and> getFilesAffectedBy P b si = Some (Inr (r, b'))
          \<longrightarrow> r = singleFileResult si
              \<or> (\<exists>w. propagate P
                        ((store b1)[fileInfo := snd (updateShapeSignature P (store b1 ! fileInfo))],
                         referencedBy (store b1 ! fileInfo), [(fileName si, si)]) = Some w
                      \<and> r = emittableNames (snd (snd w))))"
proof (intro conjI impI)
  assume script: "\<not> isExternalModule sf
          \<and> (\<exists>st\<in>set (statements sf). kind st \<noteq> ModuleDeclaration \<or> nameKind st \<noteq> StringLiteral)
          \<and> fst (updateShapeSignature P (store b1 ! fileInfo))"
  then have "\<not> containsOnlyAmbientModules (statements sf)"
    by (auto simp: containsOnlyAmbientModules_iff)
  with script assms(3)
  have "isExternalModuleOrHasOnlyAmbientExternalModules P (store b1 ! fileInfo) = Inr False"
    by (simp add: isExternalModuleOrHasOnlyAmbientExternalModules_def)
  with script show "\<exists>b'. getFilesAffectedBy P b si = Some (Inr (getAllEmittableFiles P, b'))"
    using getFilesAffectedBy_fallback [OF assms(1,2)] by blast
next
  assume ambient: "(\<forall>st\<in>set (statements sf). kind st = ModuleDeclaration \<and> nameKind st = StringLiteral)
          \<and> getFilesAffectedBy P b si = Some (Inr (r, b'))"
  then have "containsOnlyAmbientModules (statements sf)"
    by (simp add: containsOnlyAmbientModules_iff)
  with assms(3)
  have "isExternalModuleOrHasOnlyAmbientExternalModules P (store b1 ! fileInfo) = Inr True"
    by (simp add: isExternalModuleOrHasOnlyAmbientExternalModules_def)
  with ambient show "r = singleFileResult si
      \<or> (\<exists>w. propagate P
                ((store b1)[fileInfo := snd (updateShapeSignature P (store b1 ! fileInfo))],
                 referencedBy (store b1 ! fileInfo), [(fileName si, si)]) = Some w
              \<and> r = emittableNames (snd (snd w)))"
    using getFilesAffectedBy_no_fallback [OF assms(1,2)] by blast
qed

text \<open>The witness: a plain script of the script project, asked about for the first time,
  gets all three files; an ambient-only file of the ambient project gets the result of
  the walk.\<close>

theorem non_module_fallback_witness:
  "ensureProjectDependencyGraphUpToDate scriptProject newModuleBuilder = Inr scriptBuilder
   \<and> fst (getFileInfo scriptBuilder (path (scriptInfoOf ''a.ts''))) = Some 0
   \<and> getSourceFile scriptProject (path (scriptInfo (store scriptBuilder ! 0))) = Some scriptFile
   \<and> \<not> isExternalModule scriptFile
   \<and> statements scriptFile = [\<lparr>kind = OtherSyntaxKind, nameKind = Identifier\<rparr>]
   \<and> fst (updateShapeSignature scriptProject (store scriptBuilder ! 0))
   \<and> map_option (map_sum id fst)
        (getFilesAffectedBy scriptProject newModuleBuilder (scriptInfoOf ''a.ts''))
       = Some (Inr [''a.ts'', ''b.ts'', ''c.ts''])
   \<and> ensureProjectDependencyGraphUpToDate ambientProject chainBuilder = Inr chainBuilder
   \<and> fst (getFileInfo chainBuilder (path (scriptInfoOf ''c.ts''))) = Some 2
   \<and> getSourceFile ambientProject (path (scriptInfo (store chainBuilder ! 2))) = Some ambientFile
   \<and> statements ambientFile = [\<lparr>kind = ModuleDeclaration, nameKind = StringLiteral\<rparr>]
   \<and> getFilesAffectedBy ambientProject chainBuilder (scriptInfoOf ''c.ts'')
       = Some (Inr ([''c.ts'', ''b.ts'', ''a.ts''], chainBuilderChecked))
   \<and> (\<exists>w. propagate ambientProject
              ((store chainBuilder)
                 [2 := snd (updateShapeSignature ambientProject (store chainBuilder ! 2))],
               referencedBy (store chainBuilder ! 2),
               [(fileName (scriptInfoOf ''c.ts''), scriptInfoOf ''c.ts'')]) = Some w
          \<and> [''c.ts'', ''b.ts'', ''a.ts''] = emittableNames (snd (snd w)))"
proof -
  have lookup: "fst (getFileInfo scriptBuilder (path (scriptInfoOf ''a.ts''))) = Some 0"
    by code_simp
  have source: "getSourceFile scriptProject (path (scriptInfo (store scriptBuilder ! 0)))
      = Some scriptFile"
    by code_simp
  have script: "\<not> isExternalModule scriptFile"
    by code_simp
  have stmts: "statements scriptFile = [\<lparr>kind = OtherSyntaxKind, nameKind = Identifier\<rparr>]"
    by code_simp
  have changed: "fst (updateShapeSignature scriptProject (store scriptBuilder ! 0))"
    by code_simp
  have files: "getAllEmittableFiles scriptProject = [''a.ts'', ''b.ts'', ''c.ts'']"
    by code_simp
  from non_module_fallback [OF scriptBuilder_built lookup source] script stmts changed
  obtain b' where
    "getFilesAffectedBy scriptProject newModuleBuilder (scriptInfoOf ''a.ts'')
       = Some (Inr (getAllEmittableFiles scriptProject, b'))"
    by auto
  with files have first: "map_option (map_sum id fst)
        (getFilesAffectedBy scriptProject newModuleBuilder (scriptInfoOf ''a.ts''))
       = Some (Inr [''a.ts'', ''b.ts'', ''c.ts''])"
    by simp
  have refresh: "ensureProjectDependencyGraphUpToDate ambientProject chainBuilder = Inr chainBuilder"
    by code_simp
  have lookup2: "fst (getFileInfo chainBuilder (path (scriptInfoOf ''c.ts''))) = Some 2"
    by code_simp
  have source2: "getSourceFile ambientProject (path (scriptInfo (store chainBuilder ! 2)))
      = Some ambientFile"
    by code_simp
  have stmts2: "statements ambientFile = [\<lparr>kind = ModuleDeclaration, nameKind = StringLiteral\<rparr>]"
    by code_simp
  have run: "getFilesAffectedBy ambientProject chainBuilder (scriptInfoOf ''c.ts'')
       = Some (Inr ([''c.ts'', ''b.ts'', ''a.ts''], chainBuilderChecked))"
    by code_simp
  have single: "[''c.ts'', ''b.ts'', ''a.ts''] \<noteq> singleFileResult (scriptInfoOf ''c.ts'')"
    by code_simp
  from non_module_fallback [OF refresh lookup2 source2,
         where r = "[''c.ts'', ''b.ts'', ''a.ts'']" and b' = chainBuilderChecked]
       stmts2 run single
  have walk: "\<exists>w. propagate ambientProject
              ((store chainBuilder)
                 [2 := snd (updateShapeSignature ambientProject (store chainBuilder ! 2))],
               referencedBy (store chainBuilder ! 2),
               [(fileName (scriptInfoOf ''c.ts''), scriptInfoOf ''c.ts'')]) = Some w
          \<and> [''c.ts'', ''b.ts'', ''a.ts''] = emittableNames (snd (snd w))"
    by simp
  from scriptBuilder_built lookup source script stmts changed first
       refresh lookup2 source2 stmts2 run walk
  show ?thesis by blast
qed

text \<open>
  C9. A source file with no top-level statement passes \<^verbatim>\<open>containsOnlyAmbientModules\<close>,
  so it counts as module-or-ambient-only whether or not it is an external module, and
  \<^verbatim>\<open>getFilesAffectedBy\<close> does not take the whole-project fallback for it.
\<close>

theorem empty_file_no_fallback:
  assumes "ensureProjectDependencyGraphUpToDate P b = Inr b1"
      and "fst (getFileInfo b1 (path si)) = Some fileInfo"
      and "getSourceFile P (path (scriptInfo (store b1 ! fileInfo))) = Some sf"
      and "statements sf = []"
  shows "containsOnlyAmbientModules (statements sf)
     \<and> isExternalModuleOrHasOnlyAmbientExternalModules P (store b1 ! fileInfo) = Inr True
     \<and> (getFilesAffectedBy P b si = Some (Inr (r, b'))
          \<longrightarrow> r = singleFileResult si
              \<or> (\<exists>w. propagate P
                        ((store b1)[fileInfo := snd (updateShapeSignature P (store b1 ! fileInfo))],
                         referencedBy (store b1 ! fileInfo), [(fileName si, si)]) = Some w
                      \<and> r = emittableNames (snd (snd w))))"
proof -
  have ambient: "containsOnlyAmbientModules (statements sf)"
    using assms(4) by simp
  with assms(3)
  have classified: "isExternalModuleOrHasOnlyAmbientExternalModules P (store b1 ! fileInfo) = Inr True"
    by (simp add: isExternalModuleOrHasOnlyAmbientExternalModules_def)
  from ambient classified getFilesAffectedBy_no_fallback [OF assms(1,2) classified]
  show ?thesis by blast
qed

text \<open>The witness: an empty file that is not an external module and whose shape
  changed; the answer is the file itself, not the three emittable files.\<close>

theorem empty_file_no_fallback_witness:
  "ensureProjectDependencyGraphUpToDate emptyProject chainBuilder = Inr chainBuilder
   \<and> fst (getFileInfo chainBuilder (path (scriptInfoOf ''a.ts''))) = Some 0
   \<and> getSourceFile emptyProject (path (scriptInfo (store chainBuilder ! 0))) = Some emptyFile
   \<and> statements emptyFile = []
   \<and> \<not> isExternalModule emptyFile
   \<and> fst (updateShapeSignature emptyProject (store chainBuilder ! 0))
   \<and> isExternalModuleOrHasOnlyAmbientExternalModules emptyProject (store chainBuilder ! 0) = Inr True
   \<and> map_option (map_sum id fst)
        (getFilesAffectedBy emptyProject chainBuilder (scriptInfoOf ''a.ts''))
       = Some (Inr [''a.ts''])
   \<and> getAllEmittableFiles emptyProject = [''a.ts'', ''b.ts'', ''c.ts'']"
proof -
  have refresh: "ensureProjectDependencyGraphUpToDate emptyProject chainBuilder = Inr chainBuilder"
    by code_simp
  have lookup: "fst (getFileInfo chainBuilder (path (scriptInfoOf ''a.ts''))) = Some 0"
    by code_simp
  have source: "getSourceFile emptyProject (path (scriptInfo (store chainBuilder ! 0)))
      = Some emptyFile"
    by code_simp
  have stmts: "statements emptyFile = []"
    by code_simp
  have script: "\<not> isExternalModule emptyFile"
    by code_simp
  have changed: "fst (updateShapeSignature emptyProject (store chainBuilder ! 0))"
    by code_simp
  have run: "map_option (map_sum id fst)
        (getFilesAffectedBy emptyProject chainBuilder (scriptInfoOf ''a.ts''))
       = Some (Inr [''a.ts''])"
    by code_simp
  have files: "getAllEmittableFiles emptyProject = [''a.ts'', ''b.ts'', ''c.ts'']"
    by code_simp
  from empty_file_no_fallback [OF refresh lookup source stmts]
  have "isExternalModuleOrHasOnlyAmbientExternalModules emptyProject (store chainBuilder ! 0)
      = Inr True"
    by blast
  with refresh lookup source stmts script changed run files show ?thesis
    by simp
qed

subsection \<open>The loop of the walk\<close>

text \<open>An invariant of the loop holds of what the loop returns, and a loop whose turns
  descend in a well-founded relation returns.\<close>

lemma propagate_invariant:
  assumes run: "propagate P w = Some w'" and init: "I w"
      and step: "\<And>w. I w \<Longrightarrow> fst (snd w) \<noteq> [] \<Longrightarrow> I (propagateStep P w)"
  shows "I w' \<and> fst (snd w') = []"
proof -
  have "fst (P, w) = P \<longrightarrow> I (snd (P, w)) \<longrightarrow> I w' \<and> fst (snd w') = []"
  proof (rule propagate.raw_induct
      [where Pa = "\<lambda>pw y. fst pw = P \<longrightarrow> I (snd pw) \<longrightarrow> I y \<and> fst (snd y) = []", OF _ run])
    fix propagate' P' w y
    assume IH: "\<And>w b y. propagate' w b = Some y \<Longrightarrow>
                  fst (w, b) = P \<longrightarrow> I (snd (w, b)) \<longrightarrow> I y \<and> fst (snd y) = []"
      and eq: "(if fst (snd w) = [] then Some w else propagate' P' (propagateStep P' w)) = Some y"
    show "fst (P', w) = P \<longrightarrow> I (snd (P', w)) \<longrightarrow> I y \<and> fst (snd y) = []"
    proof (intro impI)
      assume P': "fst (P', w) = P" and Iw: "I (snd (P', w))"
      show "I y \<and> fst (snd y) = []"
      proof (cases "fst (snd w) = []")
        case True
        with eq Iw show ?thesis by simp
      next
        case False
        with eq have "propagate' P' (propagateStep P' w) = Some y" by simp
        from IH [OF this] P' step [of w] Iw False show ?thesis by simp
      qed
    qed
  qed
  with init show ?thesis by simp
qed

lemma propagate_terminates:
  assumes "wf R" and "I w"
      and step: "\<And>w. I w \<Longrightarrow> fst (snd w) \<noteq> [] \<Longrightarrow>
                   I (propagateStep P w) \<and> (propagateStep P w, w) \<in> R"
  shows "\<exists>w'. propagate P w = Some w'"
  using assms(1,2)
proof (induction w rule: wf_induct_rule)
  case (less w)
  show ?case
  proof (cases "fst (snd w) = []")
    case True
    then have "propagate P w = Some w" by (subst propagate.simps) simp
    then show ?thesis by blast
  next
    case False
    from step [OF less.prems False] less.IH [of "propagateStep P w"]
    obtain w' where "propagate P (propagateStep P w) = Some w'" by blast
    with False have "propagate P w = Some w'" by (subst propagate.simps) simp
    then show ?thesis by blast
  qed
qed

lemma updateShapeSignature_idem:
  "snd (updateShapeSignature P (snd (updateShapeSignature P info))) = snd (updateShapeSignature P info)"
  by (auto simp: updateShapeSignature_def Let_def split: option.splits list.splits)

lemma fst_propagateStep:
  "fst (propagateStep P (h, q, fs)) = h[last q := snd (updateShapeSignature P (h ! last q))]"
  by (simp add: propagateStep_def Let_def split_beta)

lemma propagate_keeps_stable:
  assumes "propagate P (h, q, fs) = Some (h', q', fs')"
      and "snd (updateShapeSignature P (h ! i)) = h ! i"
  shows "h' ! i = h ! i \<and> length h' = length h"
proof -
  have "(fst (h', q', fs') ! i = h ! i \<and> length (fst (h', q', fs')) = length h) \<and> fst (snd (h', q', fs')) = []"
  proof (rule propagate_invariant [OF assms(1), where I = "\<lambda>w. fst w ! i = h ! i \<and> length (fst w) = length h"])
    show "fst (h, q, fs) ! i = h ! i \<and> length (fst (h, q, fs)) = length h" by simp
  next
    fix w :: walk
    assume inv: "fst w ! i = h ! i \<and> length (fst w) = length h"
    obtain h1 q1 fs1 where w: "w = (h1, q1, fs1)" by (cases w) auto
    show "fst (propagateStep P w) ! i = h ! i \<and> length (fst (propagateStep P w)) = length h"
      using inv assms(2) unfolding w fst_propagateStep
      by (cases "last q1 = i"; cases "i < length h1") (auto simp: list_update_beyond)
  qed
  then show ?thesis by simp
qed


lemma propagate_length:
  assumes "propagate P (h, q, fs) = Some w'"
  shows "length (fst w') = length h"
proof -
  have "length (fst w') = length h \<and> fst (snd w') = []"
  proof (rule propagate_invariant [OF assms, where I = "\<lambda>w. length (fst w) = length h"])
    show "length (fst (h, q, fs)) = length h" by simp
  next
    fix w :: walk
    assume inv: "length (fst w) = length h"
    obtain h1 q1 fs1 where w: "w = (h1, q1, fs1)" by (cases w) auto
    show "length (fst (propagateStep P w)) = length h"
      using inv unfolding w fst_propagateStep by simp
  qed
  then show ?thesis by simp
qed

lemma updateShapeSignature_second_call:
  "fst (updateShapeSignature P (snd (updateShapeSignature P info))) \<longleftrightarrow>
     (getSourceFile P (path (scriptInfo info)) = None
      \<or> \<not> truthy (lastCheckedShapeSignature (snd (updateShapeSignature P info))))"
  by (auto simp: updateShapeSignature_def Let_def split: option.splits list.splits)

lemma stamp_getFileInfo [simp]:
  "projectVersionForDependencyGraph (snd (getFileInfo b p)) = projectVersionForDependencyGraph b"
  by (simp add: getFileInfo_def getFileInfos_def split: option.splits)

lemma fst_getFileInfo_getFileInfo [simp]:
  "fst (getFileInfo (snd (getFileInfo b p)) q) = fst (getFileInfo b q)"
  by (simp add: getFileInfo_def getFileInfos_def split: option.splits)

lemma fst_getFileInfo_store_update [simp]:
  "fst (getFileInfo (b\<lparr>store := h\<rparr>) q) = fst (getFileInfo b q)"
  by (simp add: getFileInfo_def getFileInfos_def split: option.splits)

lemma first_call_state:
  assumes first: "getFilesAffectedBy P b si = Some (Inr (r1, b1))"
      and refresh: "ensureProjectDependencyGraphUpToDate P b = Inr be"
  shows "fst (getFileInfo b1 (path si)) = fst (getFileInfo be (path si))
     \<and> projectVersionForDependencyGraph b1 = projectVersionForDependencyGraph be
     \<and> (\<forall>i. fst (getFileInfo be (path si)) = Some i \<longrightarrow> i < length (store b1) \<longrightarrow>
           store b1 ! i = snd (updateShapeSignature P (store be ! i)))"
proof (cases "fst (getFileInfo be (path si))")
  case None
  then obtain b2 where "getFileInfo be (path si) = (None, b2)"
    by (cases "getFileInfo be (path si)") simp
  with first refresh have "b1 = snd (getFileInfo be (path si))"
    by (simp add: getFilesAffectedBy_def)
  with None show ?thesis by simp
next
  case (Some i)
  let ?info = "snd (updateShapeSignature P (store be ! i))"
  let ?h = "(store be)[i := ?info]"
  let ?b3 = "(snd (getFileInfo be (path si)))\<lparr>store := ?h\<rparr>"
  have stable: "i < length (store be) \<Longrightarrow> snd (updateShapeSignature P (?h ! i)) = ?h ! i"
    by (simp add: updateShapeSignature_idem)
  have "b1 = ?b3 \<or> (\<exists>h q fs. propagate P (?h, referencedBy (store be ! i), [(fileName si, si)]) = Some (h, q, fs)
                       \<and> b1 = ?b3\<lparr>store := h\<rparr>)"
    using first unfolding getFilesAffectedBy_unfold [OF refresh Some]
    by (auto simp: Let_def split: if_splits sum.splits bool.splits)
  then show ?thesis
  proof
    assume "b1 = ?b3"
    with Some show ?thesis by simp
  next
    assume "\<exists>h q fs. propagate P (?h, referencedBy (store be ! i), [(fileName si, si)]) = Some (h, q, fs)
                       \<and> b1 = ?b3\<lparr>store := h\<rparr>"
    then obtain h q fs where
      run: "propagate P (?h, referencedBy (store be ! i), [(fileName si, si)]) = Some (h, q, fs)"
      and b1: "b1 = ?b3\<lparr>store := h\<rparr>" by blast
    have len: "length h = length (store be)"
      using propagate_length [OF run] by simp
    have "i < length (store be) \<Longrightarrow> h ! i = ?h ! i"
      using propagate_keeps_stable [OF run stable] by simp
    with b1 Some len show ?thesis by simp
  qed
qed


subsection \<open>Asking twice\<close>

text \<open>
  C5, as stated, at a plain script whose declarations-only emit produces nothing: the
  first call of \<^verbatim>\<open>getFilesAffectedBy\<close> stores no signature, and the second call, with
  nothing edited in between, returns all emittable files again, which is neither the
  empty list nor the single-file result.
\<close>

theorem getFilesAffectedBy_twice_counterexample:
  "getFilesAffectedBy noOutputScriptProject newModuleBuilder (scriptInfoOf ''a.ts'')
     = Some (Inr ([''a.ts'', ''b.ts'', ''c.ts''], scriptBuilder))
   \<and> getFilesAffectedBy noOutputScriptProject scriptBuilder (scriptInfoOf ''a.ts'')
     = Some (Inr ([''a.ts'', ''b.ts'', ''c.ts''], scriptBuilder))
   \<and> singleFileResult (scriptInfoOf ''a.ts'') = [''a.ts'']"
proof -
  have "getFilesAffectedBy noOutputScriptProject newModuleBuilder (scriptInfoOf ''a.ts'')
     = Some (Inr ([''a.ts'', ''b.ts'', ''c.ts''], scriptBuilder))"
    by code_simp
  moreover have "getFilesAffectedBy noOutputScriptProject scriptBuilder (scriptInfoOf ''a.ts'')
     = Some (Inr ([''a.ts'', ''b.ts'', ''c.ts''], scriptBuilder))"
    by code_simp
  moreover have "singleFileResult (scriptInfoOf ''a.ts'') = [''a.ts'']"
    by code_simp
  ultimately show ?thesis by simp
qed

text \<open>
  C5, amended: let the first call of \<^verbatim>\<open>getFilesAffectedBy\<close> return, let the project's
  version stamp be a non-empty string, and, if the file has a file info after the first
  call, let that be an allocated object whose source file is present and which holds a
  non-empty signature. Then the second call, with nothing edited in between, returns the
  trivial single-file result.
\<close>

theorem getFilesAffectedBy_twice:
  assumes first: "getFilesAffectedBy P b si = Some (Inr (r1, b1))"
      and stamp: "getProjectVersion P \<noteq> []"
      and cached: "\<And>fileInfo. fst (getFileInfo b1 (path si)) = Some fileInfo \<Longrightarrow>
                     fileInfo < length (store b1)
                     \<and> getSourceFile P (path (scriptInfo (store b1 ! fileInfo))) \<noteq> None
                     \<and> truthy (lastCheckedShapeSignature (store b1 ! fileInfo))"
  shows "\<exists>b2. getFilesAffectedBy P b1 si = Some (Inr (singleFileResult si, b2))"
proof -
  obtain be where refresh: "ensureProjectDependencyGraphUpToDate P b = Inr be"
    using first by (cases "ensureProjectDependencyGraphUpToDate P b") (auto simp: getFilesAffectedBy_def)
  note st = first_call_state [OF first refresh]
  from st ensure_stamp [OF refresh]
  have "projectVersionForDependencyGraph b1 = Some (getProjectVersion P)" by simp
  from ensure_noop [OF this stamp]
  have refresh2: "ensureProjectDependencyGraphUpToDate P b1 = Inr b1" .
  show ?thesis
  proof (cases "fst (getFileInfo b1 (path si))")
    case None
    then obtain b2 where "getFileInfo b1 (path si) = (None, b2)"
      by (cases "getFileInfo b1 (path si)") simp
    with refresh2 show ?thesis by (simp add: getFilesAffectedBy_def)
  next
    case (Some i)
    from cached [OF Some] have i: "i < length (store b1)"
      and source: "getSourceFile P (path (scriptInfo (store b1 ! i))) \<noteq> None"
      and sig: "truthy (lastCheckedShapeSignature (store b1 ! i))" by simp_all
    from st Some i have eq: "store b1 ! i = snd (updateShapeSignature P (store be ! i))"
      by simp
    have "\<not> fst (updateShapeSignature P (store b1 ! i))"
      using source sig unfolding eq updateShapeSignature_second_call by simp
    then show ?thesis
      unfolding getFilesAffectedBy_unfold [OF refresh2 Some] by (simp add: Let_def)
  qed
qed

theorem getFilesAffectedBy_twice_witness:
  "getFilesAffectedBy chainProject chainBuilder (scriptInfoOf ''c.ts'')
     = Some (Inr ([''c.ts'', ''b.ts'', ''a.ts''], chainBuilderChecked))
   \<and> getProjectVersion chainProject \<noteq> []
   \<and> fst (getFileInfo chainBuilderChecked (path (scriptInfoOf ''c.ts''))) = Some 2
   \<and> 2 < length (store chainBuilderChecked)
   \<and> getSourceFile chainProject (path (scriptInfo (store chainBuilderChecked ! 2))) \<noteq> None
   \<and> truthy (lastCheckedShapeSignature (store chainBuilderChecked ! 2))
   \<and> map_option (map_sum id fst)
        (getFilesAffectedBy chainProject chainBuilderChecked (scriptInfoOf ''c.ts''))
       = Some (Inr [''c.ts''])"
proof -
  have first: "getFilesAffectedBy chainProject chainBuilder (scriptInfoOf ''c.ts'')
     = Some (Inr ([''c.ts'', ''b.ts'', ''a.ts''], chainBuilderChecked))"
    by code_simp
  have stamp: "getProjectVersion chainProject \<noteq> []"
    by code_simp
  have lookup: "fst (getFileInfo chainBuilderChecked (path (scriptInfoOf ''c.ts''))) = Some 2"
    by code_simp
  have allocated: "2 < length (store chainBuilderChecked)"
    by code_simp
  have source: "getSourceFile chainProject (path (scriptInfo (store chainBuilderChecked ! 2))) \<noteq> None"
    by code_simp
  have signature: "truthy (lastCheckedShapeSignature (store chainBuilderChecked ! 2))"
    by code_simp
  have single: "singleFileResult (scriptInfoOf ''c.ts'') = [''c.ts'']"
    by code_simp
  have cached: "fileInfo < length (store chainBuilderChecked)
      \<and> getSourceFile chainProject (path (scriptInfo (store chainBuilderChecked ! fileInfo))) \<noteq> None
      \<and> truthy (lastCheckedShapeSignature (store chainBuilderChecked ! fileInfo))"
    if "fst (getFileInfo chainBuilderChecked (path (scriptInfoOf ''c.ts''))) = Some fileInfo"
    for fileInfo
  proof -
    from that lookup have "fileInfo = 2" by simp
    with allocated source signature show ?thesis by simp
  qed
  from getFilesAffectedBy_twice [OF first stamp cached]
  obtain b2 where "getFilesAffectedBy chainProject chainBuilderChecked (scriptInfoOf ''c.ts'')
      = Some (Inr (singleFileResult (scriptInfoOf ''c.ts''), b2))"
    by blast
  with single have "map_option (map_sum id fst)
        (getFilesAffectedBy chainProject chainBuilderChecked (scriptInfoOf ''c.ts''))
       = Some (Inr [''c.ts''])"
    by simp
  with first stamp lookup allocated source signature show ?thesis by simp
qed

subsection \<open>Termination of the walk\<close>

lemma propagateStep_eq:
  "propagateStep P (h, q, fs) =
     (h[last q := snd (updateShapeSignature P (h ! last q))],
      butlast q @
        (if fst (updateShapeSignature P (h ! last q))
         then filter (\<lambda>j. map_of fs (fileName (scriptInfo (h ! j))) = None) (referencedBy (h ! last q))
         else []),
      AList.update (fileName (scriptInfo (h ! last q))) (scriptInfo (h ! last q)) fs)"
  by (simp add: propagateStep_def Let_def split_beta scriptInfo_nth_update referencedBy_nth_update)

lemma dom_update_fst:
  "fst ` set (AList.update k v al) = insert k (fst ` set al)"
  by (simp add: dom_update)

lemma map_of_None_iff: "map_of al k = None \<longleftrightarrow> k \<notin> fst ` set al"
  by (simp add: map_of_eq_None_iff)

lemma sum_list_filter_weight:
  "(\<Sum>x\<leftarrow>filter (\<lambda>x. \<not> V x) xs. Suc (if V x then g x else 0)) \<le> length xs"
  by (induction xs) auto

lemma propagate_terminates_finite:
  assumes fin: "finite N"
      and queue: "set q \<subseteq> N"
      and closed: "\<forall>i\<in>N. set (referencedBy (h ! i)) \<subseteq> N"
  shows "\<exists>w'. propagate P (h, q, fs) = Some w'"
proof -
  let ?name = "\<lambda>i. fileName (scriptInfo (h ! i))"
  let ?I = "\<lambda>w :: walk. set (fst (snd w)) \<subseteq> N
              \<and> (\<forall>i. scriptInfo (fst w ! i) = scriptInfo (h ! i)
                    \<and> referencedBy (fst w ! i) = referencedBy (h ! i))"
  let ?m1 = "\<lambda>w :: walk. card (?name ` N - fst ` set (snd (snd w)))"
  let ?wt = "\<lambda>(w :: walk) x. Suc (if ?name x \<in> fst ` set (snd (snd w))
                                   then length (referencedBy (h ! x)) else 0)"
  let ?m2 = "\<lambda>w :: walk. sum_list (map (?wt w) (fst (snd w)))"
  let ?R = "inv_image (less_than <*lex*> less_than) (\<lambda>w. (?m1 w, ?m2 w))"
  have wf: "wf ?R" by (intro wf_inv_image wf_lex_prod wf_less_than)
  have init: "?I (h, q, fs)" using queue by simp
  have step: "?I (propagateStep P w) \<and> (propagateStep P w, w) \<in> ?R"
    if inv: "?I w" and nonempty: "fst (snd w) \<noteq> []" for w :: walk
  proof -
    obtain h1 q1 fs1 where w: "w = (h1, q1, fs1)" by (cases w) auto
    let ?p = "last q1"
    from inv w have sub: "set q1 \<subseteq> N"
      and frame: "\<And>i. scriptInfo (h1 ! i) = scriptInfo (h ! i)"
                 "\<And>i. referencedBy (h1 ! i) = referencedBy (h ! i)" by simp_all
    from nonempty w have q1: "q1 = butlast q1 @ [?p]" by simp
    with sub have p: "?p \<in> N" by (metis in_set_conv_decomp subsetD)
    from sub have bl: "set (butlast q1) \<subseteq> N" by (meson in_set_butlastD subsetI subsetD)
    let ?pushed = "if fst (updateShapeSignature P (h1 ! ?p))
         then filter (\<lambda>j. map_of fs1 (?name j) = None) (referencedBy (h ! ?p)) else []"
    let ?fs' = "AList.update (?name ?p) (scriptInfo (h ! ?p)) fs1"
    have st: "propagateStep P (h1, q1, fs1) =
        (h1[?p := snd (updateShapeSignature P (h1 ! ?p))], butlast q1 @ ?pushed, ?fs')"
      unfolding propagateStep_eq by (simp add: frame)
    have pushedN: "set ?pushed \<subseteq> N" using closed p by auto
    have I': "?I (propagateStep P w)"
      unfolding w st using bl pushedN frame by (simp add: scriptInfo_nth_update referencedBy_nth_update)
    have dom': "fst ` set ?fs' = insert (?name ?p) (fst ` set fs1)"
      by (rule dom_update_fst)
    have "(propagateStep P w, w) \<in> ?R"
    proof (cases "?name ?p \<in> fst ` set fs1")
      case False
      have "?name ` N - fst ` set ?fs' \<subset> ?name ` N - fst ` set fs1"
        using False p unfolding dom' by blast
      moreover have "finite (?name ` N - fst ` set fs1)" using fin by simp
      ultimately have "card (?name ` N - fst ` set ?fs') < card (?name ` N - fst ` set fs1)"
        by (rule psubset_card_mono [rotated])
      then show ?thesis unfolding w st by simp
    next
      case True
      then have same: "fst ` set ?fs' = fst ` set fs1" unfolding dom' by blast
      have old: "sum_list (map (?wt w) q1)
          = sum_list (map (?wt w) (butlast q1)) + Suc (length (referencedBy (h ! ?p)))"
        using True by (subst q1) (simp add: w)
      have "sum_list (map (?wt w) ?pushed) \<le> length (referencedBy (h ! ?p))"
        using sum_list_filter_weight
          [where V = "\<lambda>j. ?name j \<in> fst ` set fs1" and xs = "referencedBy (h ! ?p)"
             and g = "\<lambda>x. length (referencedBy (h ! x))"]
        by (simp add: w map_of_None_iff)
      with old have "sum_list (map (?wt w) (butlast q1 @ ?pushed)) < sum_list (map (?wt w) q1)"
        by simp
      then show ?thesis unfolding w st by (simp add: same)
    qed
    with I' show ?thesis by blast
  qed
  from propagate_terminates [OF wf, of ?I, OF init step] show ?thesis by blast
qed

text \<open>Every turn decreases the measure.\<close>

lemma shapeChanges_after:
  "fst (updateShapeSignature P (snd (updateShapeSignature P info))) \<Longrightarrow>
   fst (updateShapeSignature P info)"
  by (auto simp: updateShapeSignature_def Let_def truthy_def split: option.splits list.splits if_splits)

lemma shapeChanges_step:
  assumes "shapeChanges P (h[x := snd (updateShapeSignature P (h ! x))]) k"
  shows "shapeChanges P h k"
proof (cases "k = x \<and> x < length h")
  case True
  with assms show ?thesis
    by (auto simp: shapeChanges_def dest: shapeChanges_after)
next
  case False
  then have "h[x := snd (updateShapeSignature P (h ! x))] ! k = h ! k"
    by (cases "x < length h") (auto simp: list_update_beyond)
  with assms show ?thesis by (simp add: shapeChanges_def)
qed

lemma append_eq_split:
  assumes "xs @ ps = a @ k # b" and "k \<notin> set ps"
  shows "\<exists>us. xs = a @ k # us \<and> b = us @ ps"
  using assms
  by (auto simp: append_eq_append_conv2 append_eq_Cons_conv Cons_eq_append_conv)


lemma walkPotential_step:
  assumes fin: "finite N"
      and queue: "set q \<subseteq> N"
      and nonempty: "q \<noteq> []"
  shows "walkPotential N P (propagateStep P (h, q, fs)) < walkPotential N P (h, q, fs)"
proof -
  let ?x = "last q"
  let ?name = "\<lambda>i. fileName (scriptInfo (h ! i))"
  let ?h' = "h[?x := snd (updateShapeSignature P (h ! ?x))]"
  let ?pushed = "if fst (updateShapeSignature P (h ! ?x))
         then filter (\<lambda>j. map_of fs (?name j) = None) (referencedBy (h ! ?x)) else []"
  let ?fs' = "AList.update (?name ?x) (scriptInfo (h ! ?x)) fs"
  let ?w = "(h, q, fs)"
  let ?w' = "(?h', butlast q @ ?pushed, ?fs')"
  let ?d = "\<lambda>k. length (referencedBy (h ! k))"
  have st: "propagateStep P ?w = ?w'"
    by (rule propagateStep_eq)
  from nonempty have q: "q = butlast q @ [?x]" by simp
  with queue have x: "?x \<in> N" by (metis in_set_conv_decomp subsetD)
  have vis: "visited ?w k \<longleftrightarrow> ?name k \<in> fst ` set fs" for k
    by (simp add: visited_def)
  have vis': "visited ?w' k \<longleftrightarrow> ?name k = ?name ?x \<or> visited ?w k" for k
    by (simp add: visited_def dom_update_fst)
  have pushed_unvisited: "\<not> visited ?w j" if "j \<in> set ?pushed" for j
    using that by (auto simp: vis map_of_None_iff split: if_splits)
  have pushed_all: "j \<in> set ?pushed"
    if "fst (updateShapeSignature P (h ! ?x))" "j \<in> set (referencedBy (h ! ?x))" "\<not> visited ?w j" for j
    using that by (simp add: vis map_of_None_iff)
  have len_pushed: "length ?pushed \<le> ?d ?x"
    by simp
  have pend_mono: "pending P ?w k" if pend: "pending P ?w' k" and v: "visited ?w k" for k
  proof -
    from pend obtain ys zs j where
      ch: "shapeChanges P ?h' k"
      and dec: "butlast q @ ?pushed = ys @ k # zs"
      and j: "j \<in> set (referencedBy (h ! k))" "\<not> visited ?w' j" "j \<notin> set zs"
      unfolding pending_def by (auto simp: referencedBy_nth_update)
    from v pushed_unvisited have "k \<notin> set ?pushed" by blast
    from append_eq_split [OF dec this] obtain us where
      us: "butlast q = ys @ k # us" "zs = us @ ?pushed" by blast
    from q us have "q = ys @ k # (us @ [?x])" by simp
    moreover from j vis' have "\<not> visited ?w j" "j \<noteq> ?x" by auto
    moreover from j us have "j \<notin> set us" by simp
    ultimately have "\<exists>ys zs. q = ys @ k # zs \<and> (\<exists>j\<in>set (referencedBy (h ! k)). \<not> visited ?w j \<and> j \<notin> set zs)"
      using j(1) by (intro exI [of _ ys] exI [of _ "us @ [?x]"]) auto
    with v shapeChanges_step [OF ch] show ?thesis
      unfolding pending_def by simp
  qed
  have w1: "nodeWeight P ?w' k \<le> nodeWeight P ?w k" for k
  proof (cases "visited ?w k")
    case True
    then have "visited ?w' k" by (simp add: vis')
    with True pend_mono [of k] show ?thesis
      by (auto simp: nodeWeight_def referencedBy_nth_update)
  next
    case False
    then show ?thesis
      by (auto simp: nodeWeight_def referencedBy_nth_update)
  qed
  have w2: "nodeWeight P ?w' ?x + length ?pushed \<le> nodeWeight P ?w ?x"
  proof (cases "visited ?w ?x")
    case False
    have "visited ?w' ?x" by (simp add: vis')
    then have "nodeWeight P ?w' ?x \<le> ?d ?x"
      by (simp add: nodeWeight_def referencedBy_nth_update)
    moreover from False have "nodeWeight P ?w ?x = 2 * ?d ?x"
      by (simp add: nodeWeight_def)
    ultimately show ?thesis using len_pushed by linarith
  next
    case True
    show ?thesis
    proof (cases "?pushed = []")
      case True
      with w1 [of ?x] show ?thesis by simp
    next
      case False
      then have ch: "fst (updateShapeSignature P (h ! ?x))" by (auto split: if_splits)
      have "\<exists>j. j \<in> set ps" if "ps \<noteq> []" for ps :: "nat list"
        using that by (cases ps) auto
      from this [OF False] obtain j where j: "j \<in> set ?pushed" ..
      with ch have jr: "j \<in> set (referencedBy (h ! ?x))" by simp
      from q have "q = butlast q @ ?x # []" by simp
      with jr pushed_unvisited [OF j]
      have "\<exists>ys zs. q = ys @ ?x # zs \<and> (\<exists>j\<in>set (referencedBy (h ! ?x)). \<not> visited ?w j \<and> j \<notin> set zs)"
        by (intro exI [of _ "butlast q"] exI [of _ "[]"]) auto
      with True ch have "pending P ?w ?x"
        unfolding pending_def by (simp add: shapeChanges_def)
      with True have old: "nodeWeight P ?w ?x = ?d ?x"
        by (simp add: nodeWeight_def)
      have "\<not> pending P ?w' ?x"
      proof
        assume "pending P ?w' ?x"
        then obtain ys zs i where
          dec: "butlast q @ ?pushed = ys @ ?x # zs"
          and i: "i \<in> set (referencedBy (h ! ?x))" "\<not> visited ?w' i" "i \<notin> set zs"
          unfolding pending_def by (auto simp: referencedBy_nth_update)
        from True pushed_unvisited have "?x \<notin> set ?pushed" by blast
        from append_eq_split [OF dec this] obtain us where
          us: "zs = us @ ?pushed" by blast
        from i vis' have "\<not> visited ?w i" by auto
        from pushed_all [OF ch i(1) this] us i(3) show False by simp
      qed
      moreover have "visited ?w' ?x" by (simp add: vis')
      ultimately have "nodeWeight P ?w' ?x = 0"
        by (simp add: nodeWeight_def)
      with old len_pushed show ?thesis by linarith
    qed
  qed
  have "(\<Sum>k\<in>N. nodeWeight P ?w' k) + length ?pushed \<le> (\<Sum>k\<in>N. nodeWeight P ?w k)"
  proof -
    have "(\<Sum>k\<in>N. nodeWeight P ?w' k) = nodeWeight P ?w' ?x + (\<Sum>k\<in>N - {?x}. nodeWeight P ?w' k)"
      using fin x by (rule sum.remove)
    moreover have "(\<Sum>k\<in>N. nodeWeight P ?w k) = nodeWeight P ?w ?x + (\<Sum>k\<in>N - {?x}. nodeWeight P ?w k)"
      using fin x by (rule sum.remove)
    moreover have "(\<Sum>k\<in>N - {?x}. nodeWeight P ?w' k) \<le> (\<Sum>k\<in>N - {?x}. nodeWeight P ?w k)"
      by (rule sum_mono) (rule w1)
    ultimately show ?thesis using w2 by linarith
  qed
  moreover have "length q = Suc (length (butlast q))"
    using nonempty by simp
  ultimately show ?thesis
    unfolding st walkPotential_def by simp
qed

text \<open>The loop returns after at most as many turns as the measure says, and the measure
  is at most the length of the queue and twice the number of edges.\<close>

lemma walkAt_0 [simp]: "walkAt P w 0 = w"
  by (simp add: walkAt_def)

lemma walkAt_Suc: "walkAt P w (Suc m) = walkAt P (propagateStep P w) m"
  by (simp add: walkAt_def funpow_swap1)

lemma walkAt_Suc': "walkAt P w (Suc m) = propagateStep P (walkAt P w m)"
  by (simp add: walkAt_def)

lemma walk_run:
  assumes fin: "finite N"
      and queue: "set (fst (snd w)) \<subseteq> N"
      and closed: "\<forall>i\<in>N. set (referencedBy (fst w ! i)) \<subseteq> N"
  shows "\<exists>n. propagate P w = Some (walkAt P w n)
            \<and> fst (snd (walkAt P w n)) = []
            \<and> (\<forall>m<n. fst (snd (walkAt P w m)) \<noteq> [])
            \<and> n \<le> walkPotential N P w"
  using queue closed
proof (induction "walkPotential N P w" arbitrary: w rule: less_induct)
  case less
  obtain h q fs where w: "w = (h, q, fs)" by (cases w) auto
  show ?case
  proof (cases "q = []")
    case True
    then have "propagate P w = Some w" unfolding w by (subst propagate.simps) simp
    with True w have "propagate P w = Some (walkAt P w 0)
            \<and> fst (snd (walkAt P w 0)) = []
            \<and> (\<forall>m<0. fst (snd (walkAt P w m)) \<noteq> [])
            \<and> 0 \<le> walkPotential N P w" by simp
    then show ?thesis by (rule exI)
  next
    case False
    let ?w1 = "propagateStep P w"
    from less.prems(1) w have sub: "set q \<subseteq> N" by simp
    from walkPotential_step [OF fin sub False]
    have dec: "walkPotential N P ?w1 < walkPotential N P w" unfolding w .
    from False have q: "q = butlast q @ [last q]" by simp
    with sub have x: "last q \<in> N" by (metis in_set_conv_decomp subsetD)
    from sub have bl: "set (butlast q) \<subseteq> N" by (meson in_set_butlastD subsetI subsetD)
    from less.prems(2) w x have "set (referencedBy (h ! last q)) \<subseteq> N" by simp
    with bl have q1: "set (fst (snd ?w1)) \<subseteq> N"
      unfolding w propagateStep_eq by auto
    from less.prems(2) have c1: "\<forall>i\<in>N. set (referencedBy (fst ?w1 ! i)) \<subseteq> N"
      unfolding w propagateStep_eq by (simp add: referencedBy_nth_update)
    from less.hyps [OF dec q1 c1] obtain n where
      run: "propagate P ?w1 = Some (walkAt P ?w1 n)"
      and finished: "fst (snd (walkAt P ?w1 n)) = []"
      and busy: "\<forall>m<n. fst (snd (walkAt P ?w1 m)) \<noteq> []"
      and bound: "n \<le> walkPotential N P ?w1" by blast
    from False run have "propagate P w = Some (walkAt P w (Suc n))"
      unfolding walkAt_Suc w by (subst propagate.simps) simp
    moreover from finished have "fst (snd (walkAt P w (Suc n))) = []"
      by (simp add: walkAt_Suc)
    moreover have "\<forall>m<Suc n. fst (snd (walkAt P w m)) \<noteq> []"
    proof (intro allI impI)
      fix m assume "m < Suc n"
      then show "fst (snd (walkAt P w m)) \<noteq> []"
        using busy False w by (cases m) (simp_all add: walkAt_Suc)
    qed
    moreover from bound dec have "Suc n \<le> walkPotential N P w" by simp
    ultimately show ?thesis by blast
  qed
qed

lemma walkPotential_le:
  assumes "finite N"
  shows "walkPotential N P (h, q, fs) \<le> length q + 2 * edgeCount N h"
proof -
  have "(\<Sum>k\<in>N. nodeWeight P (h, q, fs) k) \<le> (\<Sum>k\<in>N. 2 * length (referencedBy (h ! k)))"
    by (rule sum_mono) (simp add: nodeWeight_def)
  then show ?thesis
    by (simp add: walkPotential_def edgeCount_def sum_distrib_left)
qed

text \<open>What the turns pop and push.\<close>

lemma walkAt_step:
  assumes "walkAt P w m = (h, q, fs)"
  shows "walkAt P w (Suc m) =
     (h[last q := snd (updateShapeSignature P (h ! last q))],
      butlast q @
        (if fst (updateShapeSignature P (h ! last q))
         then filter (\<lambda>j. map_of fs (fileName (scriptInfo (h ! j))) = None) (referencedBy (h ! last q))
         else []),
      AList.update (fileName (scriptInfo (h ! last q))) (scriptInfo (h ! last q)) fs)"
  unfolding walkAt_Suc' assms by (rule propagateStep_eq)

lemma scriptInfo_walkAt:
  "scriptInfo (fst (walkAt P w m) ! k) = scriptInfo (fst w ! k)"
proof (induction m)
  case 0
  show ?case by simp
next
  case (Suc m)
  obtain h q fs where at: "walkAt P w m = (h, q, fs)" by (cases "walkAt P w m") auto
  from Suc show ?case
    unfolding walkAt_step [OF at] at by (simp add: scriptInfo_nth_update)
qed

lemma names_walkAt_Suc:
  "fst ` set (snd (snd (walkAt P w (Suc m))))
     = insert (fileName (scriptInfo (fst w ! dequeued P w m))) (fst ` set (snd (snd (walkAt P w m))))"
proof -
  obtain h q fs where at: "walkAt P w m = (h, q, fs)" by (cases "walkAt P w m") auto
  have "scriptInfo (h ! last q) = scriptInfo (fst w ! last q)"
    using scriptInfo_walkAt [of P w m "last q"] by (simp add: at)
  then show ?thesis
    unfolding walkAt_step [OF at] dequeued_def at by (simp add: dom_update_fst)
qed

lemma names_walkAt_mono:
  "m \<le> m' \<Longrightarrow>
   fst ` set (snd (snd (walkAt P w m))) \<subseteq> fst ` set (snd (snd (walkAt P w m')))"
proof (induction m')
  case 0
  then show ?case by simp
next
  case (Suc m')
  show ?case
  proof (cases "m = Suc m'")
    case True
    then show ?thesis by simp
  next
    case False
    with Suc.prems have "m \<le> m'" by simp
    from Suc.IH [OF this] show ?thesis
      unfolding names_walkAt_Suc by blast
  qed
qed

lemma enqueued_eq:
  assumes at: "walkAt P w m = (h, q, fs)" and nonempty: "q \<noteq> []"
  shows "enqueued P w m =
     (if fst (updateShapeSignature P (h ! last q))
      then filter (\<lambda>j. map_of fs (fileName (scriptInfo (h ! j))) = None) (referencedBy (h ! last q))
      else [])"
proof -
  from nonempty have "length q - 1 = length (butlast q)" by simp
  then show ?thesis
    unfolding enqueued_def walkAt_step [OF at] at by simp
qed

lemma enqueued_unvisited:
  assumes nonempty: "fst (snd (walkAt P w m)) \<noteq> []" and j: "j \<in> set (enqueued P w m)"
  shows "fileName (scriptInfo (fst w ! j)) \<notin> fst ` set (snd (snd (walkAt P w m)))"
proof -
  obtain h q fs where at: "walkAt P w m = (h, q, fs)" by (cases "walkAt P w m") auto
  with nonempty have q: "q \<noteq> []" by simp
  have "scriptInfo (h ! j) = scriptInfo (fst w ! j)"
    using scriptInfo_walkAt [of P w m j] by (simp add: at)
  with j show ?thesis
    unfolding enqueued_eq [OF at q] at by (auto simp: map_of_None_iff split: if_splits)
qed

lemma dequeued_not_enqueued_later:
  assumes "m < m'" and nonempty: "fst (snd (walkAt P w m')) \<noteq> []"
  shows "dequeued P w m \<notin> set (enqueued P w m')"
proof
  assume "dequeued P w m \<in> set (enqueued P w m')"
  from enqueued_unvisited [OF nonempty this]
  have "fileName (scriptInfo (fst w ! dequeued P w m)) \<notin> fst ` set (snd (snd (walkAt P w m')))" .
  moreover have "fileName (scriptInfo (fst w ! dequeued P w m))
       \<in> fst ` set (snd (snd (walkAt P w (Suc m))))"
    unfolding names_walkAt_Suc by simp
  moreover from assms(1) have "Suc m \<le> m'" by simp
  ultimately show False
    using names_walkAt_mono [of "Suc m" m' P w] by blast
qed

lemma enqueued_count:
  assumes "\<forall>m<k. fst (snd (walkAt P w m)) \<noteq> []"
  shows "(\<Sum>m<k. length (enqueued P w m)) + length (fst (snd w))
           = k + length (fst (snd (walkAt P w k)))"
  using assms
proof (induction k)
  case 0
  show ?case by simp
next
  case (Suc k)
  obtain h q fs where at: "walkAt P w k = (h, q, fs)" by (cases "walkAt P w k") auto
  from Suc.prems at have q: "q \<noteq> []" by auto
  from Suc.prems have "\<forall>m<k. fst (snd (walkAt P w m)) \<noteq> []" by simp
  from Suc.IH [OF this]
  have IH: "(\<Sum>m<k. length (enqueued P w m)) + length (fst (snd w)) = k + length q"
    by (simp add: at)
  have "length (fst (snd (walkAt P w (Suc k)))) = length (butlast q) + length (enqueued P w k)"
    unfolding enqueued_eq [OF at q] walkAt_step [OF at] by simp
  moreover from q have "Suc (length (butlast q)) = length q" by simp
  ultimately have step: "Suc (length (fst (snd (walkAt P w (Suc k))))) = length q + length (enqueued P w k)"
    by linarith
  have "(\<Sum>m<Suc k. length (enqueued P w m)) = (\<Sum>m<k. length (enqueued P w m)) + length (enqueued P w k)"
    by (rule sum.lessThan_Suc)
  with IH step show ?case by linarith
qed

lemma referencedBy_walkAt:
  "referencedBy (fst (walkAt P w m) ! k) = referencedBy (fst w ! k)"
proof (induction m)
  case 0
  show ?case by simp
next
  case (Suc m)
  obtain h q fs where at: "walkAt P w m = (h, q, fs)" by (cases "walkAt P w m") auto
  from Suc show ?case
    unfolding walkAt_step [OF at] at by (simp add: referencedBy_nth_update)
qed

lemma walkAt_queue_subset:
  assumes queue: "set (fst (snd w)) \<subseteq> N"
      and closed: "\<forall>i\<in>N. set (referencedBy (fst w ! i)) \<subseteq> N"
      and busy: "\<forall>m'<m. fst (snd (walkAt P w m')) \<noteq> []"
  shows "set (fst (snd (walkAt P w m))) \<subseteq> N"
  using busy
proof (induction m)
  case 0
  from queue show ?case by simp
next
  case (Suc m)
  obtain h q fs where at: "walkAt P w m = (h, q, fs)" by (cases "walkAt P w m") auto
  from Suc.prems at have q: "q \<noteq> []" by auto
  from Suc.prems have "\<forall>m'<m. fst (snd (walkAt P w m')) \<noteq> []" by simp
  from Suc.IH [OF this] at have sub: "set q \<subseteq> N" by simp
  from q have "last q \<in> set q" by simp
  with sub have x: "last q \<in> N" by blast
  have "referencedBy (h ! last q) = referencedBy (fst w ! last q)"
    using referencedBy_walkAt [of P w m "last q"] by (simp add: at)
  with closed x have edges: "set (referencedBy (h ! last q)) \<subseteq> N" by simp
  from sub have "set (butlast q) \<subseteq> N" by (meson in_set_butlastD subsetI subsetD)
  with edges show ?case
    unfolding walkAt_step [OF at] by auto
qed

lemma dequeued_in:
  assumes queue: "set (fst (snd w)) \<subseteq> N"
      and closed: "\<forall>i\<in>N. set (referencedBy (fst w ! i)) \<subseteq> N"
      and busy: "\<forall>m'<n. fst (snd (walkAt P w m')) \<noteq> []"
      and m: "m < n"
  shows "dequeued P w m \<in> N"
proof -
  from busy m have "\<forall>m'<m. fst (snd (walkAt P w m')) \<noteq> []" by simp
  from walkAt_queue_subset [OF queue closed this]
  have "set (fst (snd (walkAt P w m))) \<subseteq> N" .
  moreover from busy m have "fst (snd (walkAt P w m)) \<noteq> []" by simp
  then have "last (fst (snd (walkAt P w m))) \<in> set (fst (snd (walkAt P w m)))" by simp
  ultimately show ?thesis unfolding dequeued_def by blast
qed

lemma triangleBuilder_built:
  "ensureProjectDependencyGraphUpToDate triangleProject newModuleBuilder = Inr triangleBuilder"
  by code_simp

lemma selfBuilder_built:
  "ensureProjectDependencyGraphUpToDate selfProject newModuleBuilder = Inr selfBuilder"
  by code_simp

text \<open>
  C6, as stated, at two inputs. In the triangle, asked about \<^verbatim>\<open>a.ts\<close>, the walk starts
  with the file infos of \<^verbatim>\<open>b.ts\<close> and \<^verbatim>\<open>c.ts\<close> (1 and 2) in the queue; its first turn
  pops \<^verbatim>\<open>c.ts\<close> and pushes \<^verbatim>\<open>b.ts\<close>, which is not in \<^verbatim>\<open>fileNameSet\<close> yet: the queue
  holds the file info of \<^verbatim>\<open>b.ts\<close> twice. Where \<^verbatim>\<open>b.ts\<close> imports itself, the turn that
  pops its file info pushes it again: its name enters \<^verbatim>\<open>fileNameSet\<close> after the pushes.
\<close>

theorem walk_enqueues_once_counterexample:
  "ensureProjectDependencyGraphUpToDate triangleProject newModuleBuilder = Inr triangleBuilder
   \<and> fst (getFileInfo triangleBuilder (path (scriptInfoOf ''a.ts''))) = Some 0
   \<and> referencedBy (store triangleBuilder ! 0) = [1, 2]
   \<and> fst (snd (propagateStep triangleProject
        ((store triangleBuilder)
           [0 := snd (updateShapeSignature triangleProject (store triangleBuilder ! 0))],
         [1, 2], [(''a.ts'', scriptInfoOf ''a.ts'')]))) = [1, 1]
   \<and> ensureProjectDependencyGraphUpToDate selfProject newModuleBuilder = Inr selfBuilder
   \<and> fst (getFileInfo selfBuilder (path (scriptInfoOf ''a.ts''))) = Some 0
   \<and> referencedBy (store selfBuilder ! 0) = [1]
   \<and> dequeued selfProject
        ((store selfBuilder)[0 := snd (updateShapeSignature selfProject (store selfBuilder ! 0))],
         [1], [(''a.ts'', scriptInfoOf ''a.ts'')]) 0 = 1
   \<and> enqueued selfProject
        ((store selfBuilder)[0 := snd (updateShapeSignature selfProject (store selfBuilder ! 0))],
         [1], [(''a.ts'', scriptInfoOf ''a.ts'')]) 0 = [1]"
proof -
  have "fst (getFileInfo triangleBuilder (path (scriptInfoOf ''a.ts''))) = Some 0"
    by code_simp
  moreover have "referencedBy (store triangleBuilder ! 0) = [1, 2]"
    by code_simp
  moreover have "fst (snd (propagateStep triangleProject
        ((store triangleBuilder)
           [0 := snd (updateShapeSignature triangleProject (store triangleBuilder ! 0))],
         [1, 2], [(''a.ts'', scriptInfoOf ''a.ts'')]))) = [1, 1]"
    by code_simp
  moreover have "fst (getFileInfo selfBuilder (path (scriptInfoOf ''a.ts''))) = Some 0"
    by code_simp
  moreover have "referencedBy (store selfBuilder ! 0) = [1]"
    by code_simp
  moreover have "dequeued selfProject
        ((store selfBuilder)[0 := snd (updateShapeSignature selfProject (store selfBuilder ! 0))],
         [1], [(''a.ts'', scriptInfoOf ''a.ts'')]) 0 = 1"
    unfolding dequeued_def walkAt_def by code_simp
  moreover have "enqueued selfProject
        ((store selfBuilder)[0 := snd (updateShapeSignature selfProject (store selfBuilder ! 0))],
         [1], [(''a.ts'', scriptInfoOf ''a.ts'')]) 0 = [1]"
    unfolding enqueued_def walkAt_def by code_simp
  ultimately show ?thesis
    using triangleBuilder_built selfBuilder_built by (intro conjI)
qed

text \<open>
  C6, amended. Let \<open>N\<close> be a finite set of file infos that holds the queue and is closed
  under \<^verbatim>\<open>referencedBy\<close>, such as the file infos that the queue reaches, cycles
  included. Then the loop returns, after \<open>n\<close> turns. Every turn pops one file info, which
  is in \<open>N\<close>; \<open>n\<close> is at most the length of the queue at the start and twice the number
  of edges of \<open>N\<close>; and the pushes of all turns together are \<open>n\<close> less the length of the
  queue at the start: the number of queue operations is linear in the edges. No turn
  pushes a file info that an earlier turn popped. (A file info can still be pushed more
  than once: by several file infos before it is popped, and by the turn that pops it.)
\<close>

theorem walk_bounded:
  assumes fin: "finite N"
      and queue: "set q \<subseteq> N"
      and closed: "\<forall>i\<in>N. set (referencedBy (h ! i)) \<subseteq> N"
  shows "\<exists>n. propagate P (h, q, fs) = Some (walkAt P (h, q, fs) n)
           \<and> fst (snd (walkAt P (h, q, fs) n)) = []
           \<and> (\<forall>m<n. fst (snd (walkAt P (h, q, fs) m)) \<noteq> []
                    \<and> dequeued P (h, q, fs) m \<in> N)
           \<and> n \<le> length q + 2 * edgeCount N h
           \<and> (\<Sum>m<n. length (enqueued P (h, q, fs) m)) + length q = n
           \<and> (\<forall>m m'. m < m' \<and> m' < n \<longrightarrow>
                 dequeued P (h, q, fs) m \<notin> set (enqueued P (h, q, fs) m'))"
proof -
  let ?w = "(h, q, fs)"
  from queue have queue': "set (fst (snd ?w)) \<subseteq> N" by simp
  from closed have closed': "\<forall>i\<in>N. set (referencedBy (fst ?w ! i)) \<subseteq> N" by simp
  from walk_run [OF fin queue' closed', of P] obtain n where
    run: "propagate P ?w = Some (walkAt P ?w n)"
    and finished: "fst (snd (walkAt P ?w n)) = []"
    and busy: "\<forall>m<n. fst (snd (walkAt P ?w m)) \<noteq> []"
    and bound: "n \<le> walkPotential N P ?w" by blast
  have turns: "\<forall>m<n. fst (snd (walkAt P ?w m)) \<noteq> [] \<and> dequeued P ?w m \<in> N"
  proof (intro allI impI conjI)
    fix m assume m: "m < n"
    with busy show "fst (snd (walkAt P ?w m)) \<noteq> []" by simp
    from queue' closed' busy m show "dequeued P ?w m \<in> N" by (rule dequeued_in)
  qed
  from bound walkPotential_le [OF fin, of P h q fs]
  have linear: "n \<le> length q + 2 * edgeCount N h" by simp
  from enqueued_count [OF busy] finished
  have count: "(\<Sum>m<n. length (enqueued P ?w m)) + length q = n" by simp
  have once: "\<forall>m m'. m < m' \<and> m' < n \<longrightarrow> dequeued P ?w m \<notin> set (enqueued P ?w m')"
  proof (intro allI impI)
    fix m m' assume "m < m' \<and> m' < n"
    then have "m < m'" and "fst (snd (walkAt P ?w m')) \<noteq> []" using busy by simp_all
    then show "dequeued P ?w m \<notin> set (enqueued P ?w m')"
      by (rule dequeued_not_enqueued_later)
  qed
  from run finished turns linear count once show ?thesis by blast
qed

text \<open>The witness: the walk of the triangle, where \<^verbatim>\<open>b.ts\<close> and \<^verbatim>\<open>c.ts\<close> reference each
  other: four edges, and the loop returns after three turns.\<close>

theorem walk_bounded_witness:
  "finite {0, 1, 2 :: nat}
   \<and> set [1, 2] \<subseteq> {0, 1, 2 :: nat}
   \<and> referencedBy (store triangleBuilder ! 0) = [1, 2]
   \<and> referencedBy (store triangleBuilder ! 1) = [2]
   \<and> referencedBy (store triangleBuilder ! 2) = [1]
   \<and> edgeCount {0, 1, 2} (store triangleBuilder) = 4
   \<and> (\<exists>n\<le>10. propagate triangleProject
               (store triangleBuilder, [1, 2], [(''a.ts'', scriptInfoOf ''a.ts'')])
             = Some (walkAt triangleProject
                  (store triangleBuilder, [1, 2], [(''a.ts'', scriptInfoOf ''a.ts'')]) n))
   \<and> fst (snd (walkAt triangleProject
        (store triangleBuilder, [1, 2], [(''a.ts'', scriptInfoOf ''a.ts'')]) 3)) = []"
proof -
  let ?w = "(store triangleBuilder, [1, 2], [(''a.ts'', scriptInfoOf ''a.ts'')])"
  have r0: "referencedBy (store triangleBuilder ! 0) = [1, 2]"
    by code_simp
  have r1: "referencedBy (store triangleBuilder ! 1) = [2]"
    by code_simp
  have r2: "referencedBy (store triangleBuilder ! 2) = [1]"
    by code_simp
  have fin: "finite {0, 1, 2 :: nat}"
    by simp
  have queue: "set [1, 2] \<subseteq> {0, 1, 2 :: nat}"
    by simp
  have closed: "\<forall>i\<in>{0, 1, 2 :: nat}. set (referencedBy (store triangleBuilder ! i)) \<subseteq> {0, 1, 2}"
    by code_simp
  have edges: "edgeCount {0, 1, 2} (store triangleBuilder) = 4"
    by code_simp
  have three: "fst (snd (walkAt triangleProject ?w 3)) = []"
    unfolding walkAt_def by code_simp
  from walk_bounded [OF fin queue closed, of triangleProject "[(''a.ts'', scriptInfoOf ''a.ts'')]"]
  obtain n where "propagate triangleProject ?w = Some (walkAt triangleProject ?w n)"
    and "n \<le> length [1, 2 :: nat] + 2 * edgeCount {0, 1, 2} (store triangleBuilder)"
    by blast
  then have "\<exists>n\<le>10. propagate triangleProject ?w = Some (walkAt triangleProject ?w n)"
    unfolding edges by auto
  with fin queue r0 r1 r2 edges three show ?thesis by (intro conjI)
qed

subsection \<open>Propagation along chains\<close>

lemma shapeChain_snoc:
  "shapeChain P h a ns \<Longrightarrow> ns \<noteq> [] \<Longrightarrow> shapeChanges P h (last ns) \<Longrightarrow>
   j \<in> set (referencedBy (h ! last ns)) \<Longrightarrow> shapeChain P h a (ns @ [j])"
  by (induction P h a ns rule: shapeChain.induct) auto

lemma shapeChain_closed:
  "shapeChain P h x ns \<Longrightarrow> ns \<noteq> [] \<Longrightarrow>
   \<forall>i\<in>N. set (referencedBy (h ! i)) \<subseteq> N \<Longrightarrow>
   \<forall>i\<in>N. fileName (scriptInfo (h ! i)) \<in> D \<longrightarrow> (i = root \<or> shapeChanges P h i) \<longrightarrow>
      (\<forall>j\<in>set (referencedBy (h ! i)). fileName (scriptInfo (h ! j)) \<in> D) \<Longrightarrow>
   x \<in> N \<Longrightarrow> fileName (scriptInfo (h ! x)) \<in> D \<Longrightarrow> x = root \<or> shapeChanges P h x \<Longrightarrow>
   fileName (scriptInfo (h ! last ns)) \<in> D \<and> last ns \<in> N"
proof (induction P h x ns rule: shapeChain.induct)
  case (1 P h a)
  from "1.prems"(2) show ?case by simp
next
  case (2 P h a z)
  from "2.prems"(1) have z: "z \<in> set (referencedBy (h ! a))" by simp
  from bspec [OF "2.prems"(3) "2.prems"(5)] z have zN: "z \<in> N" by (rule subsetD)
  note v = bspec [OF "2.prems"(4) "2.prems"(5)]
  note all = mp [OF mp [OF v "2.prems"(6)] "2.prems"(7)]
  from bspec [OF all z] zN show ?case by simp
next
  case (3 P h a n m rest)
  from "3.prems"(1) have n: "n \<in> set (referencedBy (h ! a))" by simp
  from "3.prems"(1) have ch: "shapeChanges P h n" by simp
  from "3.prems"(1) have rest: "shapeChain P h n (m # rest)" by simp
  from bspec [OF "3.prems"(3) "3.prems"(5)] n have nN: "n \<in> N" by (rule subsetD)
  note v = bspec [OF "3.prems"(4) "3.prems"(5)]
  note all = mp [OF mp [OF v "3.prems"(6)] "3.prems"(7)]
  from bspec [OF all n] have nD: "fileName (scriptInfo (h ! n)) \<in> D" .
  have ne: "m # rest \<noteq> []" by simp
  from ch have "n = root \<or> shapeChanges P h n" by (rule disjI2)
  from "3.IH" [OF rest ne "3.prems"(3,4) nN nD this] show ?case by simp
qed

lemma updateShapeSignature_second_then_first:
  "fst (updateShapeSignature P (snd (updateShapeSignature P info))) \<Longrightarrow> fst (updateShapeSignature P info)"
  by (auto simp: updateShapeSignature_def Let_def truthy_def split: option.splits list.splits if_splits)

lemma set_update_subset_insert:
  "set (AList.update k v al) \<subseteq> insert (k, v) (set al)"
  by (induction al) auto

lemma store_step_cases:
  assumes "h ! i = h0 ! i \<or> h ! i = snd (updateShapeSignature P (h0 ! i))"
  shows "h[p := snd (updateShapeSignature P (h ! p))] ! i = h0 ! i
       \<or> h[p := snd (updateShapeSignature P (h ! p))] ! i = snd (updateShapeSignature P (h0 ! i))"
proof (cases "i = p \<and> p < length h")
  case True
  then have "h[p := snd (updateShapeSignature P (h ! p))] ! i = snd (updateShapeSignature P (h ! i))"
    by simp
  with assms show ?thesis by (auto simp: updateShapeSignature_idem)
next
  case False
  then have "h[p := snd (updateShapeSignature P (h ! p))] ! i = h ! i"
    by (cases "p < length h") (auto simp: list_update_beyond)
  with assms show ?thesis by simp
qed

lemma store_step_other:
  "i \<noteq> p \<Longrightarrow> h[p := x] ! i = h ! i"
  by simp

lemma changed_then_changes:
  assumes "h ! p = h0 ! p \<or> h ! p = snd (updateShapeSignature P (h0 ! p))"
      and "fst (updateShapeSignature P (h ! p))"
  shows "shapeChanges P h0 p"
  using assms by (auto simp: shapeChanges_def dest: updateShapeSignature_second_then_first)

lemma frame_of_cases:
  assumes "h ! i = h0 ! i \<or> h ! i = snd (updateShapeSignature P (h0 ! i))"
  shows "scriptInfo (h ! i) = scriptInfo (h0 ! i)" and "referencedBy (h ! i) = referencedBy (h0 ! i)"
  using assms by auto

text \<open>The step, for a store whose entries are those of h0, checked or not.\<close>

lemma propagateStep_framed:
  assumes "\<forall>i. h ! i = h0 ! i \<or> h ! i = snd (updateShapeSignature P (h0 ! i))"
  shows "propagateStep P (h, q, fs) =
     (h[last q := snd (updateShapeSignature P (h ! last q))],
      butlast q @
        (if fst (updateShapeSignature P (h ! last q))
         then filter (\<lambda>j. fileName (scriptInfo (h0 ! j)) \<notin> fst ` set fs) (referencedBy (h0 ! last q))
         else []),
      AList.update (fileName (scriptInfo (h0 ! last q))) (scriptInfo (h0 ! last q)) fs)"
proof -
  have f1: "\<And>i. scriptInfo (h ! i) = scriptInfo (h0 ! i)"
    using assms frame_of_cases(1) by blast
  have f2: "\<And>i. referencedBy (h ! i) = referencedBy (h0 ! i)"
    using assms frame_of_cases(2) by blast
  show ?thesis
    unfolding propagateStep_eq by (simp add: f1 f2 map_of_None_iff)
qed

lemma walk_sound:
  assumes run: "propagate P (h0, referencedBy (h0 ! a), [(fileName (scriptInfo (h0 ! a)), scriptInfo (h0 ! a))]) = Some w'"
  shows "\<forall>n\<in>fst ` set (snd (snd w')).
           n = fileName (scriptInfo (h0 ! a))
           \<or> (\<exists>ns. ns \<noteq> [] \<and> shapeChain P h0 a ns \<and> n = fileName (scriptInfo (h0 ! last ns)))"
proof -
  let ?name = "\<lambda>i. fileName (scriptInfo (h0 ! i))"
  let ?reach = "\<lambda>j. \<exists>ns. ns \<noteq> [] \<and> shapeChain P h0 a ns \<and> last ns = j"
  let ?S = "\<lambda>w :: walk.
      (\<forall>i. fst w ! i = h0 ! i \<or> fst w ! i = snd (updateShapeSignature P (h0 ! i)))
      \<and> (\<forall>j\<in>set (fst (snd w)). ?reach j)
      \<and> (\<forall>n\<in>fst ` set (snd (snd w)). n = ?name a \<or> (\<exists>j. ?reach j \<and> n = ?name j))"
  have "?S w' \<and> fst (snd w') = []"
  proof (rule propagate_invariant [OF run, where I = ?S])
    have "\<And>j. j \<in> set (referencedBy (h0 ! a)) \<Longrightarrow> ?reach j"
    proof -
      fix j assume "j \<in> set (referencedBy (h0 ! a))"
      then have "[j] \<noteq> [] \<and> shapeChain P h0 a [j] \<and> last [j] = j" by simp
      then show "?reach j" by blast
    qed
    then show "?S (h0, referencedBy (h0 ! a), [(?name a, scriptInfo (h0 ! a))])"
      by simp
  next
    fix w :: walk
    assume inv: "?S w" and ne: "fst (snd w) \<noteq> []"
    obtain h q fs where w: "w = (h, q, fs)" by (cases w) auto
    let ?p = "last q"
    let ?c = "fst (updateShapeSignature P (h ! ?p))"
    let ?pushed = "if ?c then filter (\<lambda>j. ?name j \<notin> fst ` set fs) (referencedBy (h0 ! ?p)) else []"
    from inv w have A1: "\<forall>i. h ! i = h0 ! i \<or> h ! i = snd (updateShapeSignature P (h0 ! i))"
      by simp
    from inv w have B2: "\<forall>j\<in>set q. ?reach j" by simp
    from inv w have B3: "\<forall>n\<in>fst ` set fs. n = ?name a \<or> (\<exists>j. ?reach j \<and> n = ?name j)"
      by simp
    from ne w have "?p \<in> set q" by simp
    with B2 have reach_p: "?reach ?p" by (rule bspec)
    note st = propagateStep_framed [OF A1, of q fs]
    have A1': "\<forall>i. h[?p := snd (updateShapeSignature P (h ! ?p))] ! i = h0 ! i
                 \<or> h[?p := snd (updateShapeSignature P (h ! ?p))] ! i
                     = snd (updateShapeSignature P (h0 ! i))"
      using A1 store_step_cases by blast
    have B2': "\<forall>j\<in>set (butlast q @ ?pushed). ?reach j"
    proof
      fix j assume j: "j \<in> set (butlast q @ ?pushed)"
      show "?reach j"
      proof (cases "j \<in> set (butlast q)")
        case True
        then have "j \<in> set q" by (rule in_set_butlastD)
        with B2 show ?thesis by (rule bspec)
      next
        case False
        with j have c: "?c" and jr: "j \<in> set (referencedBy (h0 ! ?p))"
          by (auto split: if_splits)
        from A1 have "h ! ?p = h0 ! ?p \<or> h ! ?p = snd (updateShapeSignature P (h0 ! ?p))"
          by (rule spec)
        from changed_then_changes [OF this c] have ch: "shapeChanges P h0 ?p" .
        from reach_p obtain ns where ns: "ns \<noteq> []" "shapeChain P h0 a ns" "last ns = ?p"
          by blast
        from shapeChain_snoc [OF ns(2) ns(1), of j] ch jr ns(3)
        have "shapeChain P h0 a (ns @ [j])" by simp
        then have "ns @ [j] \<noteq> [] \<and> shapeChain P h0 a (ns @ [j]) \<and> last (ns @ [j]) = j"
          by simp
        then show ?thesis by blast
      qed
    qed
    have B3': "\<forall>n\<in>fst ` set (AList.update (?name ?p) (scriptInfo (h0 ! ?p)) fs).
                 n = ?name a \<or> (\<exists>j. ?reach j \<and> n = ?name j)"
    proof
      fix n assume "n \<in> fst ` set (AList.update (?name ?p) (scriptInfo (h0 ! ?p)) fs)"
      then have "n = ?name ?p \<or> n \<in> fst ` set fs" unfolding dom_update_fst by simp
      then show "n = ?name a \<or> (\<exists>j. ?reach j \<and> n = ?name j)"
      proof
        assume "n = ?name ?p"
        with reach_p show ?thesis by blast
      next
        assume "n \<in> fst ` set fs"
        with B3 show ?thesis by (rule bspec)
      qed
    qed
    show "?S (propagateStep P w)"
      unfolding w st fst_conv snd_conv using A1' B2' B3' by (intro conjI)
  qed
  then have "\<forall>n\<in>fst ` set (snd (snd w')). n = ?name a \<or> (\<exists>j. ?reach j \<and> n = ?name j)"
    by (elim conjE)
  then show ?thesis by blast
qed

lemma walk_complete:
  assumes run: "propagate P (h0, referencedBy (h0 ! a), [(fileName (scriptInfo (h0 ! a)), scriptInfo (h0 ! a))]) = Some w'"
      and closed: "\<forall>i\<in>N. set (referencedBy (h0 ! i)) \<subseteq> N"
      and aN: "a \<in> N"
      and inj: "inj_on (\<lambda>i. fileName (scriptInfo (h0 ! i))) N"
  shows "fst (snd w') = []
     \<and> (\<forall>(n, s)\<in>set (snd (snd w')). \<exists>i\<in>N. n = fileName (scriptInfo (h0 ! i)) \<and> s = scriptInfo (h0 ! i))
     \<and> (\<forall>i\<in>N. fileName (scriptInfo (h0 ! i)) \<in> fst ` set (snd (snd w')) \<longrightarrow>
           (i = a \<or> shapeChanges P h0 i) \<longrightarrow>
           (\<forall>j\<in>set (referencedBy (h0 ! i)). fileName (scriptInfo (h0 ! j)) \<in> fst ` set (snd (snd w'))))"
proof -
  let ?name = "\<lambda>i. fileName (scriptInfo (h0 ! i))"
  let ?C = "\<lambda>w :: walk.
      (\<forall>i. fst w ! i = h0 ! i \<or> fst w ! i = snd (updateShapeSignature P (h0 ! i)))
      \<and> (\<forall>i\<in>N. ?name i \<notin> fst ` set (snd (snd w)) \<longrightarrow> fst w ! i = h0 ! i)
      \<and> set (fst (snd w)) \<subseteq> N
      \<and> ?name a \<in> fst ` set (snd (snd w))
      \<and> (\<forall>(n, s)\<in>set (snd (snd w)). \<exists>i\<in>N. n = ?name i \<and> s = scriptInfo (h0 ! i))
      \<and> (\<forall>i\<in>N. ?name i \<in> fst ` set (snd (snd w)) \<longrightarrow> (i = a \<or> shapeChanges P h0 i) \<longrightarrow>
            (\<forall>j\<in>set (referencedBy (h0 ! i)).
               ?name j \<in> fst ` set (snd (snd w)) \<or> j \<in> set (fst (snd w))))"
  have "?C w' \<and> fst (snd w') = []"
  proof (rule propagate_invariant [OF run, where I = ?C])
    from closed aN have "set (referencedBy (h0 ! a)) \<subseteq> N" by (rule bspec)
    moreover have "\<exists>i\<in>N. ?name a = ?name i \<and> scriptInfo (h0 ! a) = scriptInfo (h0 ! i)"
      using aN by blast
    moreover have "\<forall>i\<in>N. ?name i = ?name a \<longrightarrow> (\<forall>j\<in>set (referencedBy (h0 ! i)).
        ?name j = ?name a \<or> j \<in> set (referencedBy (h0 ! a)))"
    proof (intro ballI impI)
      fix i j assume "i \<in> N" "?name i = ?name a" "j \<in> set (referencedBy (h0 ! i))"
      with inj aN have "i = a" by (auto dest: inj_onD)
      with \<open>j \<in> set (referencedBy (h0 ! i))\<close>
      show "?name j = ?name a \<or> j \<in> set (referencedBy (h0 ! a))" by simp
    qed
    ultimately show "?C (h0, referencedBy (h0 ! a), [(?name a, scriptInfo (h0 ! a))])"
      unfolding fst_conv snd_conv by (intro conjI) simp_all
  next
    fix w :: walk
    assume inv: "?C w" and ne: "fst (snd w) \<noteq> []"
    obtain h q fs where w: "w = (h, q, fs)" by (cases w) auto
    let ?p = "last q"
    let ?c = "fst (updateShapeSignature P (h ! ?p))"
    let ?h' = "h[?p := snd (updateShapeSignature P (h ! ?p))]"
    let ?pushed = "if ?c then filter (\<lambda>j. ?name j \<notin> fst ` set fs) (referencedBy (h0 ! ?p)) else []"
    let ?fs' = "AList.update (?name ?p) (scriptInfo (h0 ! ?p)) fs"
    note inv' = inv [unfolded w fst_conv snd_conv]
    from inv' have A1: "\<forall>i. h ! i = h0 ! i \<or> h ! i = snd (updateShapeSignature P (h0 ! i))"
      by (rule conjunct1)
    note r1 = conjunct2 [OF inv']
    from r1 have A2: "\<forall>i\<in>N. ?name i \<notin> fst ` set fs \<longrightarrow> h ! i = h0 ! i" by (rule conjunct1)
    note r2 = conjunct2 [OF r1]
    from r2 have A3: "set q \<subseteq> N" by (rule conjunct1)
    note r3 = conjunct2 [OF r2]
    from r3 have A4: "?name a \<in> fst ` set fs" by (rule conjunct1)
    note r4 = conjunct2 [OF r3]
    from r4 have A5: "\<forall>(n, s)\<in>set fs. \<exists>i\<in>N. n = ?name i \<and> s = scriptInfo (h0 ! i)"
      by (rule conjunct1)
    from r4 have A6: "\<forall>i\<in>N. ?name i \<in> fst ` set fs \<longrightarrow> (i = a \<or> shapeChanges P h0 i) \<longrightarrow>
            (\<forall>j\<in>set (referencedBy (h0 ! i)). ?name j \<in> fst ` set fs \<or> j \<in> set q)"
      by (rule conjunct2)
    from ne w have pq: "?p \<in> set q" by simp
    with A3 have pN: "?p \<in> N" by blast
    from ne w have q: "q = butlast q @ [?p]" by simp
    have dom': "fst ` set ?fs' = insert (?name ?p) (fst ` set fs)" by (rule dom_update_fst)
    note st = propagateStep_framed [OF A1, of q fs]
    have A1': "\<forall>i. ?h' ! i = h0 ! i \<or> ?h' ! i = snd (updateShapeSignature P (h0 ! i))"
      using A1 store_step_cases by blast
    have A2': "\<forall>i\<in>N. ?name i \<notin> fst ` set ?fs' \<longrightarrow> ?h' ! i = h0 ! i"
    proof (intro ballI impI)
      fix i assume i: "i \<in> N" and unv: "?name i \<notin> fst ` set ?fs'"
      from unv have "i \<noteq> ?p" unfolding dom' by auto
      then have "?h' ! i = h ! i" by simp
      moreover from unv have "?name i \<notin> fst ` set fs" unfolding dom' by simp
      ultimately show "?h' ! i = h0 ! i" using A2 i by simp
    qed
    have pushedN: "set ?pushed \<subseteq> N"
      using bspec [OF closed pN] by auto
    have A3': "set (butlast q @ ?pushed) \<subseteq> N"
    proof -
      have "set (butlast q) \<subseteq> N" using A3 by (meson in_set_butlastD subsetD subsetI)
      with pushedN show ?thesis by simp
    qed
    have A4': "?name a \<in> fst ` set ?fs'" unfolding dom' using A4 by simp
    have A5': "\<forall>(n, s)\<in>set ?fs'. \<exists>i\<in>N. n = ?name i \<and> s = scriptInfo (h0 ! i)"
    proof -
      have "\<exists>i\<in>N. ?name ?p = ?name i \<and> scriptInfo (h0 ! ?p) = scriptInfo (h0 ! i)"
        using pN by blast
      with A5 have "\<forall>(n, s)\<in>insert (?name ?p, scriptInfo (h0 ! ?p)) (set fs).
          \<exists>i\<in>N. n = ?name i \<and> s = scriptInfo (h0 ! i)" by simp
      then show ?thesis
        using set_update_subset_insert [of "?name ?p" "scriptInfo (h0 ! ?p)" fs] by blast
    qed
    have A6': "\<forall>i\<in>N. ?name i \<in> fst ` set ?fs' \<longrightarrow> (i = a \<or> shapeChanges P h0 i) \<longrightarrow>
            (\<forall>j\<in>set (referencedBy (h0 ! i)).
               ?name j \<in> fst ` set ?fs' \<or> j \<in> set (butlast q @ ?pushed))"
    proof (intro ballI impI)
      fix i j
      assume i: "i \<in> N" and vis: "?name i \<in> fst ` set ?fs'"
        and ch: "i = a \<or> shapeChanges P h0 i" and j: "j \<in> set (referencedBy (h0 ! i))"
      show "?name j \<in> fst ` set ?fs' \<or> j \<in> set (butlast q @ ?pushed)"
      proof (cases "?name i \<in> fst ` set fs")
        case True
        note r = mp [OF mp [OF bspec [OF A6 i] True] ch]
        from bspec [OF r j] have "?name j \<in> fst ` set fs \<or> j \<in> set q" .
        then show ?thesis
        proof
          assume "?name j \<in> fst ` set fs"
          then show ?thesis unfolding dom' by simp
        next
          assume "j \<in> set q"
          then have "j \<in> set (butlast q) \<or> j = ?p" by (subst (asm) q) auto
          then show ?thesis unfolding dom' by auto
        qed
      next
        case False
        with vis have "?name i = ?name ?p" unfolding dom' by simp
        with inj i pN have ip: "i = ?p" by (auto dest: inj_onD)
        from False A4 have "i \<noteq> a" by auto
        with ch have changes: "shapeChanges P h0 i" by simp
        from mp [OF bspec [OF A2 i] False] have "h ! i = h0 ! i" .
        with changes ip have c: "?c" by (simp add: shapeChanges_def)
        show ?thesis
        proof (cases "?name j \<in> fst ` set fs")
          case True
          then show ?thesis unfolding dom' by simp
        next
          case False
          with j ip c have "j \<in> set ?pushed" by simp
          then show ?thesis by simp
        qed
      qed
    qed
    show "?C (propagateStep P w)"
      unfolding w st fst_conv snd_conv using A1' A2' A3' A4' A5' A6' by (intro conjI)
  qed
  then have final: "?C w'" and e: "fst (snd w') = []"
    by (rule conjunct1, rule conjunct2)
  note t4 = conjunct2 [OF conjunct2 [OF conjunct2 [OF conjunct2 [OF final]]]]
  from t4 have A5: "\<forall>(n, s)\<in>set (snd (snd w')). \<exists>i\<in>N. n = ?name i \<and> s = scriptInfo (h0 ! i)"
    by (rule conjunct1)
  from t4 have A6: "\<forall>i\<in>N. ?name i \<in> fst ` set (snd (snd w')) \<longrightarrow> (i = a \<or> shapeChanges P h0 i) \<longrightarrow>
            (\<forall>j\<in>set (referencedBy (h0 ! i)).
               ?name j \<in> fst ` set (snd (snd w')) \<or> j \<in> set (fst (snd w')))"
    by (rule conjunct2)
  have "\<forall>i\<in>N. ?name i \<in> fst ` set (snd (snd w')) \<longrightarrow> (i = a \<or> shapeChanges P h0 i) \<longrightarrow>
            (\<forall>j\<in>set (referencedBy (h0 ! i)). ?name j \<in> fst ` set (snd (snd w')))"
  proof (intro ballI impI)
    fix i j
    assume i: "i \<in> N" and vis: "?name i \<in> fst ` set (snd (snd w'))"
      and ch: "i = a \<or> shapeChanges P h0 i" and j: "j \<in> set (referencedBy (h0 ! i))"
    note r = mp [OF mp [OF bspec [OF A6 i] vis] ch]
    from bspec [OF r j] e show "?name j \<in> fst ` set (snd (snd w'))" by simp
  qed
  with e A5 show ?thesis by (intro conjI)
qed

lemma in_emittableNames:
  "(n, s) \<in> set fs \<Longrightarrow> shouldEmitFile s \<Longrightarrow> n \<in> set (emittableNames fs)"
  by (force simp: emittableNames_def)

lemma emittableNames_subset:
  "n \<in> set (emittableNames fs) \<Longrightarrow> n \<in> fst ` set fs"
  by (auto simp: emittableNames_def)

lemma propagation_walk:
  assumes fin: "finite N"
      and aN: "a \<in> N"
      and closed: "\<forall>i\<in>N. set (referencedBy (h0 ! i)) \<subseteq> N"
      and inj: "inj_on (\<lambda>i. fileName (scriptInfo (h0 ! i))) N"
  obtains h' fs' where
      "propagate P (h0, referencedBy (h0 ! a),
                   [(fileName (scriptInfo (h0 ! a)), scriptInfo (h0 ! a))]) = Some (h', [], fs')"
      and "\<forall>ns. ns \<noteq> [] \<and> shapeChain P h0 a ns \<and> shouldEmitFile (scriptInfo (h0 ! last ns))
            \<longrightarrow> fileName (scriptInfo (h0 ! last ns)) \<in> set (emittableNames fs')"
      and "\<forall>n\<in>set (emittableNames fs').
            n = fileName (scriptInfo (h0 ! a))
            \<or> (\<exists>ns. ns \<noteq> [] \<and> shapeChain P h0 a ns \<and> n = fileName (scriptInfo (h0 ! last ns)))"
proof -
  let ?name = "\<lambda>i. fileName (scriptInfo (h0 ! i))"
  let ?w0 = "(h0, referencedBy (h0 ! a), [(?name a, scriptInfo (h0 ! a))])"
  from bspec [OF closed aN] have q0: "set (referencedBy (h0 ! a)) \<subseteq> N" .
  from propagate_terminates_finite [OF fin q0 closed]
  obtain w' where run: "propagate P ?w0 = Some w'" by blast
  obtain h' q' fs' where w': "w' = (h', q', fs')" by (cases w') auto
  note c = walk_complete [OF run closed aN inj, unfolded w' fst_conv snd_conv]
  from c have q': "q' = []" by (rule conjunct1)
  from c have entries: "\<forall>(n, s)\<in>set fs'. \<exists>i\<in>N. n = ?name i \<and> s = scriptInfo (h0 ! i)"
    by (rule conjunct1 [OF conjunct2])
  from c have visited: "\<forall>i\<in>N. ?name i \<in> fst ` set fs' \<longrightarrow> (i = a \<or> shapeChanges P h0 i) \<longrightarrow>
           (\<forall>j\<in>set (referencedBy (h0 ! i)). ?name j \<in> fst ` set fs')"
    by (rule conjunct2 [OF conjunct2])
  note s = walk_sound [OF run, unfolded w' fst_conv snd_conv]
  have root: "?name a \<in> fst ` set fs'"
  proof -
    have "?name a \<in> fst ` set (snd (snd ?w0))" by simp
    moreover have "\<And>w. ?name a \<in> fst ` set (snd (snd w)) \<Longrightarrow> fst (snd w) \<noteq> [] \<Longrightarrow>
        ?name a \<in> fst ` set (snd (snd (propagateStep P w)))"
    proof -
      fix w :: walk
      assume v: "?name a \<in> fst ` set (snd (snd w))"
      obtain h q fs where w: "w = (h, q, fs)" by (cases w) auto
      from v show "?name a \<in> fst ` set (snd (snd (propagateStep P w)))"
        unfolding w propagateStep_eq snd_conv dom_update_fst by simp
    qed
    ultimately have "?name a \<in> fst ` set (snd (snd w')) \<and> fst (snd w') = []"
      by (rule propagate_invariant [OF run, where I = "\<lambda>w. ?name a \<in> fst ` set (snd (snd w))"])
    then show ?thesis unfolding w' by simp
  qed
  have complete: "\<forall>ns. ns \<noteq> [] \<and> shapeChain P h0 a ns \<and> shouldEmitFile (scriptInfo (h0 ! last ns))
            \<longrightarrow> ?name (last ns) \<in> set (emittableNames fs')"
  proof (intro allI impI)
    fix ns
    assume h: "ns \<noteq> [] \<and> shapeChain P h0 a ns \<and> shouldEmitFile (scriptInfo (h0 ! last ns))"
    then have ne: "ns \<noteq> []" and chain: "shapeChain P h0 a ns"
      and emit: "shouldEmitFile (scriptInfo (h0 ! last ns))" by simp_all
    have start: "a = a \<or> shapeChanges P h0 a" by (rule disjI1) (rule refl)
    note last = shapeChain_closed [OF chain ne closed visited aN root start]
    from last have lastD: "?name (last ns) \<in> fst ` set fs'" and lastN: "last ns \<in> N"
      by (rule conjunct1, rule conjunct2)
    from lastD obtain e where e: "e \<in> set fs'" "?name (last ns) = fst e" by (rule imageE)
    then have member: "(?name (last ns), snd e) \<in> set fs'" by simp
    have "\<exists>i\<in>N. ?name (last ns) = ?name i \<and> snd e = scriptInfo (h0 ! i)"
      using bspec [OF entries member] by simp
    then obtain i where i: "i \<in> N" "?name (last ns) = ?name i" "snd e = scriptInfo (h0 ! i)"
      by (elim bexE conjE)
    from inj_onD [OF inj i(2) lastN i(1)] i(3) have "snd e = scriptInfo (h0 ! last ns)" by simp
    with emit have "shouldEmitFile (snd e)" by simp
    from in_emittableNames [OF member this]
    show "?name (last ns) \<in> set (emittableNames fs')" .
  qed
  have sound: "\<forall>n\<in>set (emittableNames fs').
            n = ?name a \<or> (\<exists>ns. ns \<noteq> [] \<and> shapeChain P h0 a ns \<and> n = ?name (last ns))"
  proof
    fix n assume "n \<in> set (emittableNames fs')"
    then have "n \<in> fst ` set fs'" by (rule emittableNames_subset)
    with s show "n = ?name a \<or> (\<exists>ns. ns \<noteq> [] \<and> shapeChain P h0 a ns \<and> n = ?name (last ns))"
      by (rule bspec)
  qed
  from run w' q' have "propagate P ?w0 = Some (h', [], fs')" by simp
  from that [OF this complete sound] show ?thesis .
qed


text \<open>
  C4, as stated, at two inputs. In the chain under \<^verbatim>\<open>outFile\<close>, asked about \<^verbatim>\<open>c.ts\<close>
  while nothing has been checked: the shape of \<^verbatim>\<open>c.ts\<close> changes, \<^verbatim>\<open>b.ts\<close> and \<^verbatim>\<open>a.ts\<close> are
  a chain of shape changes from it, \<^verbatim>\<open>a.ts\<close> is emittable, and the result is \<^verbatim>\<open>c.ts\<close>
  alone. In the chain whose files have all been checked, after an edit that changes the
  declarations of \<^verbatim>\<open>c.ts\<close> and makes it a plain script: the shape of \<^verbatim>\<open>b.ts\<close> does not
  change, nothing but \<^verbatim>\<open>a.ts\<close> references \<^verbatim>\<open>b.ts\<close>, and \<^verbatim>\<open>a.ts\<close>, which lies beyond
  \<^verbatim>\<open>b.ts\<close>, is in the result.
\<close>

theorem propagation_closure_counterexample:
  "ensureProjectDependencyGraphUpToDate bundledProject newModuleBuilder = Inr chainBuilder
   \<and> fst (getFileInfo chainBuilder (path (scriptInfoOf ''c.ts''))) = Some 2
   \<and> fst (updateShapeSignature bundledProject (store chainBuilder ! 2))
   \<and> shapeChain bundledProject
        ((store chainBuilder)[2 := snd (updateShapeSignature bundledProject (store chainBuilder ! 2))])
        2 [1, 0]
   \<and> shouldEmitFile (scriptInfo (store chainBuilder ! 0))
   \<and> fileName (scriptInfo (store chainBuilder ! 0)) = ''a.ts''
   \<and> map_option (map_sum id fst)
        (getFilesAffectedBy bundledProject newModuleBuilder (scriptInfoOf ''c.ts''))
       = Some (Inr [''c.ts''])
   \<and> ensureProjectDependencyGraphUpToDate scriptedChainProject chainBuilderChecked
       = Inr chainBuilderEdited
   \<and> fst (getFileInfo chainBuilderEdited (path (scriptInfoOf ''c.ts''))) = Some 2
   \<and> fst (updateShapeSignature scriptedChainProject (store chainBuilderEdited ! 2))
   \<and> referencedBy (store chainBuilderEdited ! 2) = [1]
   \<and> referencedBy (store chainBuilderEdited ! 1) = [0]
   \<and> \<not> shapeChanges scriptedChainProject
        ((store chainBuilderEdited)
           [2 := snd (updateShapeSignature scriptedChainProject (store chainBuilderEdited ! 2))]) 1
   \<and> map_option (map_sum id fst)
        (getFilesAffectedBy scriptedChainProject chainBuilderChecked (scriptInfoOf ''c.ts''))
       = Some (Inr [''a.ts'', ''b.ts'', ''c.ts''])"
proof -
  have "ensureProjectDependencyGraphUpToDate bundledProject newModuleBuilder = Inr chainBuilder"
    by code_simp
  moreover have "fst (getFileInfo chainBuilder (path (scriptInfoOf ''c.ts''))) = Some 2"
    by code_simp
  moreover have "fst (updateShapeSignature bundledProject (store chainBuilder ! 2))"
    by code_simp
  moreover have "shapeChain bundledProject
        ((store chainBuilder)[2 := snd (updateShapeSignature bundledProject (store chainBuilder ! 2))])
        2 [1, 0]"
    by code_simp
  moreover have "shouldEmitFile (scriptInfo (store chainBuilder ! 0))"
    by code_simp
  moreover have "fileName (scriptInfo (store chainBuilder ! 0)) = ''a.ts''"
    by code_simp
  moreover have "map_option (map_sum id fst)
        (getFilesAffectedBy bundledProject newModuleBuilder (scriptInfoOf ''c.ts''))
       = Some (Inr [''c.ts''])"
    by code_simp
  moreover have "ensureProjectDependencyGraphUpToDate scriptedChainProject chainBuilderChecked
       = Inr chainBuilderEdited"
    by code_simp
  moreover have "fst (getFileInfo chainBuilderEdited (path (scriptInfoOf ''c.ts''))) = Some 2"
    by code_simp
  moreover have "fst (updateShapeSignature scriptedChainProject (store chainBuilderEdited ! 2))"
    by code_simp
  moreover have "referencedBy (store chainBuilderEdited ! 2) = [1]"
    by code_simp
  moreover have "referencedBy (store chainBuilderEdited ! 1) = [0]"
    by code_simp
  moreover have "\<not> shapeChanges scriptedChainProject
        ((store chainBuilderEdited)
           [2 := snd (updateShapeSignature scriptedChainProject (store chainBuilderEdited ! 2))]) 1"
    by code_simp
  moreover have "map_option (map_sum id fst)
        (getFilesAffectedBy scriptedChainProject chainBuilderChecked (scriptInfoOf ''c.ts''))
       = Some (Inr [''a.ts'', ''b.ts'', ''c.ts''])"
    by code_simp
  ultimately show ?thesis
    by (intro conjI)
qed

text \<open>
  C4, amended. Let the refresh return, let \<open>a\<close> be the file info of the file, with the script
  info that was passed, let its shape change, let it be a module or ambient-only and the
  output neither bundled nor isolated; let \<open>h0\<close> be the store when the walk starts, and
  \<open>N\<close> a finite set of file infos that holds \<open>a\<close>, is closed under \<^verbatim>\<open>referencedBy\<close> and
  in which no two file infos have the same file name. Then \<^verbatim>\<open>getFilesAffectedBy\<close>
  returns, and its result holds the file name of the last file info of every chain of
  shape changes from \<open>a\<close>, if that file is emittable; and every name in the result is
  the name of the file or of the last file info of such a chain, so that nothing that is
  reached only through a file info whose shape did not change is in the result.
\<close>

theorem propagation_closure:
  assumes refresh: "ensureProjectDependencyGraphUpToDate P b = Inr be"
      and lookup: "fst (getFileInfo be (path si)) = Some a"
      and same: "scriptInfo (store be ! a) = si"
      and changed: "fst (updateShapeSignature P (store be ! a))"
      and module: "isExternalModuleOrHasOnlyAmbientExternalModules P (store be ! a) = Inr True"
      and mode: "\<not> outputIsBundledOrIsolated P"
      and h0: "h0 = (store be)[a := snd (updateShapeSignature P (store be ! a))]"
      and fin: "finite N"
      and aN: "a \<in> N"
      and closed: "\<forall>i\<in>N. set (referencedBy (h0 ! i)) \<subseteq> N"
      and inj: "inj_on (\<lambda>i. fileName (scriptInfo (h0 ! i))) N"
  shows "\<exists>r b'. getFilesAffectedBy P b si = Some (Inr (r, b'))
      \<and> (\<forall>ns. ns \<noteq> [] \<and> shapeChain P h0 a ns \<and> shouldEmitFile (scriptInfo (h0 ! last ns))
            \<longrightarrow> fileName (scriptInfo (h0 ! last ns)) \<in> set r)
      \<and> (\<forall>n\<in>set r.
            n = fileName si
            \<or> (\<exists>ns. ns \<noteq> [] \<and> shapeChain P h0 a ns \<and> n = fileName (scriptInfo (h0 ! last ns))))"
proof -
  have si0: "scriptInfo (h0 ! a) = si" unfolding h0 using same by simp
  have rb0: "referencedBy (h0 ! a) = referencedBy (store be ! a)" unfolding h0 by simp
  obtain h' fs' where
    run0: "propagate P (h0, referencedBy (h0 ! a),
                   [(fileName (scriptInfo (h0 ! a)), scriptInfo (h0 ! a))]) = Some (h', [], fs')"
    and complete: "\<forall>ns. ns \<noteq> [] \<and> shapeChain P h0 a ns \<and> shouldEmitFile (scriptInfo (h0 ! last ns))
            \<longrightarrow> fileName (scriptInfo (h0 ! last ns)) \<in> set (emittableNames fs')"
    and sound0: "\<forall>n\<in>set (emittableNames fs').
            n = fileName (scriptInfo (h0 ! a))
            \<or> (\<exists>ns. ns \<noteq> [] \<and> shapeChain P h0 a ns \<and> n = fileName (scriptInfo (h0 ! last ns)))"
    by (rule propagation_walk [OF fin aN closed inj])
  note run = run0 [unfolded si0 rb0]
  note sound = sound0 [unfolded si0]
  have eq: "getFilesAffectedBy P b si =
      Some (Inr (emittableNames fs',
        (snd (getFileInfo be (path si)))\<lparr>store := h0\<rparr>\<lparr>store := h'\<rparr>))"
    unfolding getFilesAffectedBy_unfold [OF refresh lookup]
    using changed module mode run unfolding h0 by (simp add: Let_def)
  show ?thesis
    by (rule exI, rule exI, intro conjI, rule eq, rule complete, rule sound)
qed

text \<open>The witness: in the chain, asked about \<^verbatim>\<open>c.ts\<close> while nothing has been checked,
  \<^verbatim>\<open>a.ts\<close> is reached through \<^verbatim>\<open>b.ts\<close>, whose shape changes. After an edit that
  changes the declarations of \<^verbatim>\<open>c.ts\<close> only, the shape of \<^verbatim>\<open>b.ts\<close> does not change,
  and \<^verbatim>\<open>a.ts\<close> is not in the result.\<close>

theorem propagation_closure_witness:
  "ensureProjectDependencyGraphUpToDate chainProject chainBuilder = Inr chainBuilder
   \<and> fst (getFileInfo chainBuilder (path (scriptInfoOf ''c.ts''))) = Some 2
   \<and> scriptInfo (store chainBuilder ! 2) = scriptInfoOf ''c.ts''
   \<and> fst (updateShapeSignature chainProject (store chainBuilder ! 2))
   \<and> isExternalModuleOrHasOnlyAmbientExternalModules chainProject (store chainBuilder ! 2) = Inr True
   \<and> \<not> outputIsBundledOrIsolated chainProject
   \<and> shapeChain chainProject
        ((store chainBuilder)[2 := snd (updateShapeSignature chainProject (store chainBuilder ! 2))])
        2 [1, 0]
   \<and> getFilesAffectedBy chainProject chainBuilder (scriptInfoOf ''c.ts'')
       = Some (Inr ([''c.ts'', ''b.ts'', ''a.ts''], chainBuilderChecked))
   \<and> ''a.ts'' \<in> set [''c.ts'', ''b.ts'', ''a.ts'']
   \<and> ensureProjectDependencyGraphUpToDate editedChainProject chainBuilderChecked
       = Inr chainBuilderEdited
   \<and> fst (updateShapeSignature editedChainProject (store chainBuilderEdited ! 2))
   \<and> \<not> shapeChanges editedChainProject
        ((store chainBuilderEdited)
           [2 := snd (updateShapeSignature editedChainProject (store chainBuilderEdited ! 2))]) 1
   \<and> map_option (map_sum id fst)
        (getFilesAffectedBy editedChainProject chainBuilderChecked (scriptInfoOf ''c.ts''))
       = Some (Inr [''c.ts'', ''b.ts''])"
proof -
  let ?h0 = "(store chainBuilder)[2 := snd (updateShapeSignature chainProject (store chainBuilder ! 2))]"
  have refresh: "ensureProjectDependencyGraphUpToDate chainProject chainBuilder = Inr chainBuilder"
    by code_simp
  have lookup: "fst (getFileInfo chainBuilder (path (scriptInfoOf ''c.ts''))) = Some 2"
    by code_simp
  have same: "scriptInfo (store chainBuilder ! 2) = scriptInfoOf ''c.ts''"
    by code_simp
  have changed: "fst (updateShapeSignature chainProject (store chainBuilder ! 2))"
    by code_simp
  have module: "isExternalModuleOrHasOnlyAmbientExternalModules chainProject (store chainBuilder ! 2)
      = Inr True"
    by code_simp
  have mode: "\<not> outputIsBundledOrIsolated chainProject"
    by code_simp
  have fin: "finite {0, 1, 2 :: nat}"
    by simp
  have aN: "2 \<in> {0, 1, 2 :: nat}"
    by simp
  have closed: "\<forall>i\<in>{0, 1, 2 :: nat}. set (referencedBy (?h0 ! i)) \<subseteq> {0, 1, 2}"
    by code_simp
  have inj: "inj_on (\<lambda>i. fileName (scriptInfo (?h0 ! i))) {0, 1, 2 :: nat}"
    unfolding inj_on_def by code_simp
  have chain: "shapeChain chainProject ?h0 2 [1, 0]"
    by code_simp
  have emit: "shouldEmitFile (scriptInfo (?h0 ! last [1, 0]))"
    by code_simp
  have name: "fileName (scriptInfo (?h0 ! last [1, 0])) = ''a.ts''"
    by code_simp
  have run: "getFilesAffectedBy chainProject chainBuilder (scriptInfoOf ''c.ts'')
       = Some (Inr ([''c.ts'', ''b.ts'', ''a.ts''], chainBuilderChecked))"
    by code_simp
  from propagation_closure [OF refresh lookup same changed module mode refl fin aN closed inj]
  obtain r b' where
    result: "getFilesAffectedBy chainProject chainBuilder (scriptInfoOf ''c.ts'') = Some (Inr (r, b'))"
    and complete: "\<forall>ns. ns \<noteq> [] \<and> shapeChain chainProject ?h0 2 ns
            \<and> shouldEmitFile (scriptInfo (?h0 ! last ns))
          \<longrightarrow> fileName (scriptInfo (?h0 ! last ns)) \<in> set r"
    by blast
  from result run have r: "r = [''c.ts'', ''b.ts'', ''a.ts'']"
    by simp
  from complete chain emit have "fileName (scriptInfo (?h0 ! last [1, 0])) \<in> set r"
    by blast
  then have reached: "''a.ts'' \<in> set [''c.ts'', ''b.ts'', ''a.ts'']"
    unfolding name r .
  have refresh2: "ensureProjectDependencyGraphUpToDate editedChainProject chainBuilderChecked
       = Inr chainBuilderEdited"
    by code_simp
  have changed2: "fst (updateShapeSignature editedChainProject (store chainBuilderEdited ! 2))"
    by code_simp
  have broken: "\<not> shapeChanges editedChainProject
        ((store chainBuilderEdited)
           [2 := snd (updateShapeSignature editedChainProject (store chainBuilderEdited ! 2))]) 1"
    by code_simp
  have run2: "map_option (map_sum id fst)
        (getFilesAffectedBy editedChainProject chainBuilderChecked (scriptInfoOf ''c.ts''))
       = Some (Inr [''c.ts'', ''b.ts''])"
    by code_simp
  from refresh lookup same changed module mode chain run reached refresh2 changed2 broken run2
  show ?thesis by (intro conjI)
qed

end
